theory Spec2Isabelle
  imports Main
begin

section \<open>JavaScript values and operators\<close>

text \<open>
  The factory is TypeScript; at run time its flag values, defaults, keys, contexts and
  configs are JavaScript values. Numbers are modelled as integers plus \<open>NaN\<close> (the only
  property of a number the code depends on is whether it is falsy). Object values are
  association lists of own properties. \<open>JBuiltin name\<close> is the member of
  \<open>Object.prototype\<close> of that name: one of its functions, or for \<open>__proto__\<close> the prototype
  object itself. Such a value is truthy and not nullish, and it has no property \<open>type\<close> or
  \<open>defaultVal\<close>.
\<close>

datatype jsval =
    JUndefined
  | JNull
  | JBool bool
  | JNum int
  | JNaN
  | JStr string
  | JObj "(string \<times> jsval) list"
  | JBuiltin string

text \<open>\<open>a ?? b\<close> keeps \<open>a\<close> unless it is \<open>undefined\<close> or \<open>null\<close>.\<close>

fun nullish :: "jsval \<Rightarrow> bool" where
  "nullish JUndefined = True"
| "nullish JNull = True"
| "nullish _ = False"

definition coalesce :: "jsval \<Rightarrow> jsval \<Rightarrow> jsval" where
  "coalesce a b = (if nullish a then b else a)"

text \<open>\<open>a || b\<close> keeps \<open>a\<close> only when it is truthy; \<open>!a\<close> is \<open>\<not> truthy a\<close>.\<close>

fun truthy :: "jsval \<Rightarrow> bool" where
  "truthy JUndefined = False"
| "truthy JNull = False"
| "truthy (JBool b) = b"
| "truthy (JNum n) = (n \<noteq> 0)"
| "truthy JNaN = False"
| "truthy (JStr s) = (s \<noteq> [])"
| "truthy (JObj ps) = True"
| "truthy (JBuiltin name) = True"

definition logical_or :: "jsval \<Rightarrow> jsval \<Rightarrow> jsval" where
  "logical_or a b = (if truthy a then a else b)"

text \<open>
  What a \<open>throw\<close>, a failed property read or a rejected promise carries. An \<open>async\<close>
  function is modelled by the settled outcome of the promise it returns: \<open>Inl\<close> is a
  rejection (or a synchronous throw), \<open>Inr\<close> the value it resolves to. The \<open>await\<close> of a
  flag fetch is taken to settle within the step that issues it; the awaited \<open>identify\<close>
  and \<open>configure\<close> of client initialisation settle as events of their own.
\<close>

datatype error =
    Thrown string       \<comment> \<open>\<open>throw '...'\<close> with the string thrown\<close>
  | TypeError           \<comment> \<open>reading a property of \<open>undefined\<close>\<close>
  | Rejected string     \<comment> \<open>a rejection coming from the SDK client or from \<open>JSON.parse\<close>\<close>

text \<open>
  The registry and the snapshots are ordinary objects (an object literal, the result of an
  object spread), so \<open>obj[key]\<close> finds, after the object's own properties, the properties
  every object inherits from \<open>Object.prototype\<close>. These are its names, the accessor
  \<open>__proto__\<close> and the four legacy methods of the language's annex for web scripts
  included; the prototype is taken to be unmodified.
\<close>

definition Object_prototype :: "string list" where
  "Object_prototype =
     [''constructor'', ''hasOwnProperty'', ''isPrototypeOf'', ''propertyIsEnumerable'',
      ''toLocaleString'', ''toString'', ''valueOf'', ''__proto__'',
      ''__defineGetter__'', ''__defineSetter__'', ''__lookupGetter__'', ''__lookupSetter__'']"

definition inherited :: "string \<Rightarrow> bool" where
  "inherited key = (key \<in> set Object_prototype)"

text \<open>What \<open>obj[key]\<close> is when \<open>obj\<close> has no own property \<open>key\<close>.\<close>

definition inheritedProperty :: "string \<Rightarrow> jsval" where
  "inheritedProperty key = (if inherited key then JBuiltin key else JUndefined)"

section \<open>The flag registry (factory.types.ts)\<close>

datatype primitive_constructor = Boolean | Number | String | Object

record feature_flag =
  type :: primitive_constructor
  defaultVal :: jsval

text \<open>
  \<open>NamedFlags = Record<string, AnyFeatureFlag>\<close>: an object literal, kept as an association
  list in declaration order because \<open>Object.keys\<close> enumerates it in that order (names
  that look like array indices come first in JavaScript; nothing below depends on the
  order). The names of an object are distinct; no property below needs that.
\<close>

type_synonym named_flags = "(string \<times> feature_flag) list"

definition Object_keys :: "named_flags \<Rightarrow> string list" where
  "Object_keys featureFlags = map fst featureFlags"

text \<open>
  \<open>featureFlags[key]?.defaultVal\<close> and \<open>featureFlags[key]?.type\<close>. Both are \<open>undefined\<close>
  when the registry has no own entry for \<open>key\<close>: either \<open>featureFlags[key]\<close> is \<open>undefined\<close>, or
  it is an inherited member, which has neither property.
\<close>

definition registryDefault :: "named_flags \<Rightarrow> string \<Rightarrow> jsval" where
  "registryDefault featureFlags key =
     (case map_of featureFlags key of None \<Rightarrow> JUndefined | Some f \<Rightarrow> defaultVal f)"

definition registryType :: "named_flags \<Rightarrow> string \<Rightarrow> primitive_constructor option" where
  "registryType featureFlags key = map_option type (map_of featureFlags key)"

text \<open>The registry of the factory's doc comment and of both READMEs.\<close>

definition exampleFlags :: named_flags where
  "exampleFlags =
     [(''example-boolean-feature-flag'', \<lparr>type = Boolean, defaultVal = JBool False\<rparr>),
      (''example-number-feature-flag'', \<lparr>type = Number, defaultVal = JNum 123\<rparr>),
      (''example-string-feature-flag'', \<lparr>type = String, defaultVal = JStr ''asdf''\<rparr>),
      (''example-json-feature-flag'', \<lparr>type = Object, defaultVal = JObj []\<rparr>)]"

text \<open>
  The snapshot \<open>flags\<close>: an object from flag name to current value. The state variable
  holding it starts \<open>undefined\<close> (\<open>None\<close>); \<open>flags?.[key]\<close> is \<open>undefined\<close> when the snapshot
  is missing, and what the snapshot inherits under that name when it has no entry of its
  own.
\<close>

type_synonym snapshot = "string \<rightharpoonup> jsval"

definition opt_index :: "snapshot option \<Rightarrow> string \<Rightarrow> jsval" where
  "opt_index fl key =
     (case fl of None \<Rightarrow> JUndefined
      | Some m \<Rightarrow> (case m key of None \<Rightarrow> inheritedProperty key | Some v \<Rightarrow> v))"

text \<open>The snapshot's own properties; there are none while the state variable is \<open>undefined\<close>.\<close>

definition entries :: "snapshot option \<Rightarrow> snapshot" where
  "entries fl = (case fl of None \<Rightarrow> Map.empty | Some m \<Rightarrow> m)"

text \<open>\<open>{...oldFlags, [updatedKey]: newFlag}\<close>; spreading \<open>undefined\<close> contributes nothing.\<close>

definition spread :: "snapshot option \<Rightarrow> string \<Rightarrow> jsval \<Rightarrow> snapshot option" where
  "spread oldFlags updatedKey newFlag =
     Some ((case oldFlags of None \<Rightarrow> Map.empty | Some m \<Rightarrow> m)(updatedKey \<mapsto> newFlag))"

section \<open>The flag-evaluation client (external SDK)\<close>

text \<open>
  \<open>LDClient\<close> belongs to the SDK, not to this repository. A client handle is its identity
  together with what its four variation calls settle to for a key and a default. The
  handle's listener tables and the calls made on it are part of the world state below.
\<close>

record ld_client =
  clientId :: nat
  boolVariation :: "string \<Rightarrow> jsval \<Rightarrow> error + jsval"
  numberVariation :: "string \<Rightarrow> jsval \<Rightarrow> error + jsval"
  stringVariation :: "string \<Rightarrow> jsval \<Rightarrow> error + jsval"
  jsonVariation :: "string \<Rightarrow> jsval \<Rightarrow> error + jsval"

text \<open>\<open>useState<LDClient | 'loading...'>()\<close>: \<open>undefined\<close>, the string, or a handle.\<close>

datatype client_slot = NoClient | Loading | Client ld_client

datatype sdk_call =
    NewClient nat               \<comment> \<open>\<open>new LDClient()\<close>\<close>
  | Identify nat jsval          \<comment> \<open>\<open>identify(context)\<close>\<close>
  | Configure nat jsval jsval   \<comment> \<open>\<open>configure(config, context)\<close>\<close>

section \<open>State shared by both variants of the factory\<close>

text \<open>
  One record holds the factory closure's variable \<open>globalLdClient\<close>, the state of one
  mounted \<open>LaunchDarklyProvider\<close> (\<open>client\<close>, \<open>flags\<close>, the cleanup React keeps for its
  subscription effect), the state of one component using \<open>useAllFeatureFlags\<close>, and the
  SDK side: the calls made so far and the listener tables. A per-flag listener entry is
  (client id, flag key, closure id); an all-flags entry is (client id, listener id).
  \<open>nextListener\<close> numbers the listener closures the provider creates, so that each has an
  identity of its own. React ignores a state update of a component that is no longer
  mounted.
\<close>

record world =
  globalLdClient :: "ld_client option"
  client :: client_slot
  flags :: "snapshot option"
  mounted :: bool
  destructors :: "(ld_client \<times> string \<times> nat) list"
  allFlags :: snapshot
  hookMounted :: bool
  hookCleanup :: "(ld_client \<times> string) option"
  sdkCalls :: "sdk_call list"
  flagListeners :: "(nat \<times> string \<times> nat) list"
  allFlagsListeners :: "(nat \<times> string) list"
  nextListener :: nat

definition getGlobalLdClient :: "'a world_scheme \<Rightarrow> ld_client option" where
  "getGlobalLdClient w = globalLdClient w"

subsection \<open>useFeatureFlag (identical in both variants)\<close>

text \<open>
  \<open>flags?.[key] ?? defaultVal ?? featureFlags[key].defaultVal\<close>. The last operand is only
  evaluated when the first two are nullish. Reading \<open>.defaultVal\<close> of \<open>undefined\<close> throws;
  reading it of an inherited member gives \<open>undefined\<close>.
\<close>

definition useFeatureFlag ::
  "named_flags \<Rightarrow> 'a world_scheme \<Rightarrow> string \<Rightarrow> jsval \<Rightarrow> error + jsval" where
  "useFeatureFlag featureFlags w key defaultVal' =
     (if \<not> nullish (opt_index (flags w) key) then Inr (opt_index (flags w) key)
      else if \<not> nullish defaultVal' then Inr defaultVal'
      else (case map_of featureFlags key of
              None \<Rightarrow> if inherited key then Inr JUndefined else Inl TypeError
            | Some f \<Rightarrow> Inr (defaultVal f)))"

section \<open>The variant with the synchronous escape hatch\<close>

text \<open>
  The repository holds two revisions of the factory. This one (the source that defines
  \<open>getFeatureFlagAsync\<close> and \<open>getFeatureFlagEscapeHatch\<close>) adds the closure variable
  \<open>escapeHatchFlags\<close>. \<open>initTask\<close> is
  the in-flight asynchronous initialisation started by the provider's first effect: the new
  client, the context and config it was started with, and whether \<open>identify\<close> has settled.
\<close>

record hatch_world = world +
  escapeHatchFlags :: "snapshot option"
  initTask :: "(ld_client \<times> jsval \<times> jsval \<times> bool) option"

text \<open>
  \<open>getFeatureFlagAsync\<close>. The two guards throw inside the \<open>async\<close> function, so the promise
  rejects. The second guard is \<open>!featureFlags[key]\<close>: it lets through every key under which
  the registry has a truthy value, own (a flag declaration, which is an object) or
  inherited. For an inherited name \<open>featureFlags[key]?.defaultVal\<close> and
  \<open>featureFlags[key].type\<close> are \<open>undefined\<close>, so without a client the promise resolves to
  \<open>defaultVal ?? undefined\<close>, and with one the chain of comparisons ends in
  \<open>throw 'invalid type passed to getFeatureFlag: ' + type\<close>. For a flag declaration that
  \<open>throw\<close> is not reached, its \<open>type\<close> being one of the four constructors. The \<open>console.log\<close>
  of the branch without a client has no effect on any state or result and is not modelled.
\<close>

definition getFeatureFlagAsync ::
  "named_flags \<Rightarrow> 'a world_scheme \<Rightarrow> jsval \<Rightarrow> jsval \<Rightarrow> error + jsval" where
  "getFeatureFlagAsync featureFlags w key defaultVal' =
     (case key of
        JStr k \<Rightarrow>
          (case map_of featureFlags k of
             None \<Rightarrow>
               if \<not> inherited k then Inl (Thrown ''unregistered key passed to getFeatureFlag'')
               else (case getGlobalLdClient w of
                       None \<Rightarrow> Inr (coalesce defaultVal' JUndefined)
                     | Some ldClient \<Rightarrow>
                         Inl (Thrown ''invalid type passed to getFeatureFlag: undefined''))
           | Some f \<Rightarrow>
               (case getGlobalLdClient w of
                  None \<Rightarrow> Inr (coalesce defaultVal' (defaultVal f))
                | Some ldClient \<Rightarrow>
                    (case type f of
                       Boolean \<Rightarrow> boolVariation ldClient k (coalesce defaultVal' (defaultVal f))
                     | Number \<Rightarrow> numberVariation ldClient k (coalesce defaultVal' (defaultVal f))
                     | String \<Rightarrow> stringVariation ldClient k (coalesce defaultVal' (defaultVal f))
                     | Object \<Rightarrow> jsonVariation ldClient k (coalesce defaultVal' (defaultVal f)))))
      | _ \<Rightarrow> Inl (Thrown ''non string key passed to getFeatureFlag''))"

text \<open>
  \<open>getFeatureFlagEscapeHatch\<close> (exported as \<open>getFeatureFlag\<close>):
  \<open>escapeHatchFlags?.[key] || defaultVal || featureFlags[key].defaultVal\<close>.
\<close>

definition getFeatureFlagEscapeHatch ::
  "named_flags \<Rightarrow> 'a hatch_world_scheme \<Rightarrow> string \<Rightarrow> jsval \<Rightarrow> error + jsval" where
  "getFeatureFlagEscapeHatch featureFlags w key defaultVal' =
     (if truthy (opt_index (escapeHatchFlags w) key) then Inr (opt_index (escapeHatchFlags w) key)
      else if truthy defaultVal' then Inr defaultVal'
      else (case map_of featureFlags key of
              None \<Rightarrow> if inherited key then Inr JUndefined else Inl TypeError
            | Some f \<Rightarrow> Inr (defaultVal f)))"

section \<open>The variant of factory.tsx\<close>

text \<open>
  factory.tsx keeps, beside \<open>globalLdClient\<close>, the closure variable \<open>globalGetFeatureFlag\<close>:
  the function \<open>getFeatureFlag\<close> delegates to.
\<close>

record factory_world = world +
  globalGetFeatureFlag :: "string \<Rightarrow> jsval \<Rightarrow> error + jsval"

text \<open>The initial value of \<open>globalGetFeatureFlag\<close>.\<close>

definition initialGetFeatureFlag :: "named_flags \<Rightarrow> string \<Rightarrow> jsval \<Rightarrow> error + jsval" where
  "initialGetFeatureFlag featureFlags key defaultVal' =
     Inr (coalesce defaultVal' (registryDefault featureFlags key))"

text \<open>
  \<open>getGetFeatureFlag\<close>. \<open>JSON.parse\<close> is a builtin of the host and is taken as a parameter:
  what it returns or throws for the value \<open>jsonVariation\<close> resolved to.
\<close>

definition getGetFeatureFlag ::
  "(jsval \<Rightarrow> error + jsval) \<Rightarrow> named_flags \<Rightarrow> ld_client \<Rightarrow> string \<Rightarrow> jsval \<Rightarrow> error + jsval" where
  "getGetFeatureFlag JSON_parse featureFlags ldClient key defaultVal' =
     (let defaultVal2 = coalesce defaultVal' (registryDefault featureFlags key) in
      case registryType featureFlags key of
        Some Boolean \<Rightarrow> boolVariation ldClient key defaultVal2
      | Some Number \<Rightarrow> numberVariation ldClient key defaultVal2
      | Some String \<Rightarrow> stringVariation ldClient key defaultVal2
      | Some Object \<Rightarrow>
          (case jsonVariation ldClient key defaultVal2 of
             Inl e \<Rightarrow> Inl e
           | Inr serialized \<Rightarrow> JSON_parse serialized)
      | None \<Rightarrow> Inr JUndefined)"

text \<open>
  \<open>setGlobalLdClient\<close> of factory.tsx: it stores the client and rebinds
  \<open>globalGetFeatureFlag\<close>.
\<close>

definition factory_setGlobalLdClient ::
  "(jsval \<Rightarrow> error + jsval) \<Rightarrow> named_flags \<Rightarrow> ld_client \<Rightarrow>
     'a factory_world_scheme \<Rightarrow> 'a factory_world_scheme" where
  "factory_setGlobalLdClient JSON_parse featureFlags ldClient w =
     w\<lparr>globalLdClient := Some ldClient,
       globalGetFeatureFlag := getGetFeatureFlag JSON_parse featureFlags ldClient\<rparr>"

definition getFeatureFlag ::
  "'a factory_world_scheme \<Rightarrow> string \<Rightarrow> jsval \<Rightarrow> error + jsval" where
  "getFeatureFlag w key defaultVal' = globalGetFeatureFlag w key defaultVal'"

section \<open>React state updates and the SDK's listener tables\<close>

text \<open>
  \<open>setClient\<close>, \<open>setFlags\<close> (always called with an updater function) and the \<open>setFlags\<close> of
  \<open>useAllFeatureFlags\<close>. A component that has unmounted no longer has the state.
\<close>

definition setClient :: "client_slot \<Rightarrow> 'a world_scheme \<Rightarrow> 'a world_scheme" where
  "setClient c w = (if mounted w then w\<lparr>client := c\<rparr> else w)"

definition setFlags ::
  "(snapshot option \<Rightarrow> snapshot option) \<Rightarrow> 'a world_scheme \<Rightarrow> 'a world_scheme" where
  "setFlags update w = (if mounted w then w\<lparr>flags := update (flags w)\<rparr> else w)"

definition setAllFlags :: "(snapshot \<Rightarrow> snapshot) \<Rightarrow> 'a world_scheme \<Rightarrow> 'a world_scheme" where
  "setAllFlags update w = (if hookMounted w then w\<lparr>allFlags := update (allFlags w)\<rparr> else w)"

text \<open>
  The SDK's contract for listeners (external): a per-flag registration adds the pair of key
  and callback to the client's table and an unregistration removes that pair; the
  all-flags table holds one callback per listener id.
\<close>

definition registerFeatureFlagListener ::
  "ld_client \<Rightarrow> string \<Rightarrow> nat \<Rightarrow> 'a world_scheme \<Rightarrow> 'a world_scheme" where
  "registerFeatureFlagListener c key callback w =
     w\<lparr>flagListeners := flagListeners w @ [(clientId c, key, callback)]\<rparr>"

definition unregisterFeatureFlagListener ::
  "ld_client \<Rightarrow> string \<Rightarrow> nat \<Rightarrow> 'a world_scheme \<Rightarrow> 'a world_scheme" where
  "unregisterFeatureFlagListener c key callback w =
     w\<lparr>flagListeners := filter (\<lambda>e. e \<noteq> (clientId c, key, callback)) (flagListeners w)\<rparr>"

definition registerAllFlagsListener ::
  "ld_client \<Rightarrow> string \<Rightarrow> 'a world_scheme \<Rightarrow> 'a world_scheme" where
  "registerAllFlagsListener c listenerId w =
     w\<lparr>allFlagsListeners :=
         filter (\<lambda>e. e \<noteq> (clientId c, listenerId)) (allFlagsListeners w) @ [(clientId c, listenerId)]\<rparr>"

definition unregisterAllFlagsListener ::
  "ld_client \<Rightarrow> string \<Rightarrow> 'a world_scheme \<Rightarrow> 'a world_scheme" where
  "unregisterAllFlagsListener c listenerId w =
     w\<lparr>allFlagsListeners := filter (\<lambda>e. e \<noteq> (clientId c, listenerId)) (allFlagsListeners w)\<rparr>"

section \<open>What both providers and both hooks share\<close>

text \<open>
  The tail of the provider's \<open>listener\<close> after its \<open>await\<close>: a rejected fetch ends the
  listener before \<open>setFlags\<close>; a resolved one overwrites the entry of \<open>updatedKey\<close>.
\<close>

definition storeFlag :: "string \<Rightarrow> error + jsval \<Rightarrow> 'a world_scheme \<Rightarrow> 'a world_scheme" where
  "storeFlag updatedKey outcome w =
     (case outcome of
        Inl e \<Rightarrow> w
      | Inr newFlag \<Rightarrow> setFlags (\<lambda>oldFlags. spread oldFlags updatedKey newFlag) w)"

text \<open>
  \<open>Object.keys(featureFlags).map((key) => { ... })\<close> of the provider: per key, create the
  listener closure, call it once, register it, and return its destructor. The result is
  the world after the loop and the array of destructors (client, key, closure).
\<close>

fun subscribe ::
  "(string \<Rightarrow> 'a world_scheme \<Rightarrow> 'a world_scheme) \<Rightarrow> ld_client \<Rightarrow> string list \<Rightarrow>
     'a world_scheme \<Rightarrow> 'a world_scheme \<times> (ld_client \<times> string \<times> nat) list" where
  "subscribe listener c [] w = (w, [])"
| "subscribe listener c (key # keys) w =
     (let callback = nextListener w;
          w1 = listener key (w\<lparr>nextListener := Suc callback\<rparr>);
          w2 = registerFeatureFlagListener c key callback w1;
          (w3, ds) = subscribe listener c keys w2
      in (w3, (c, key, callback) # ds))"

text \<open>\<open>destructors.forEach((d) => d())\<close>.\<close>

definition runDestructors ::
  "(ld_client \<times> string \<times> nat) list \<Rightarrow> 'a world_scheme \<Rightarrow> 'a world_scheme" where
  "runDestructors ds w = fold (\<lambda>(c, key, callback). unregisterFeatureFlagListener c key callback) ds w"

text \<open>
  The SDK reports a change of flag \<open>key\<close> on client \<open>cid\<close>: every callback registered
  under that key is called with the key.
\<close>

definition notifyFlagListeners ::
  "(string \<Rightarrow> 'a world_scheme \<Rightarrow> 'a world_scheme) \<Rightarrow> nat \<Rightarrow> string \<Rightarrow>
     'a world_scheme \<Rightarrow> 'a world_scheme" where
  "notifyFlagListeners listener cid key w =
     fold (\<lambda>e. listener key) (filter (\<lambda>(c, k, callback). c = cid \<and> k = key) (flagListeners w)) w"

text \<open>
  The body of the all-flags listener of \<open>useAllFeatureFlags\<close>:
  \<open>updatedKeys.forEach(async (updatedKey) => { ... })\<close>, with the accessor it awaits as
  \<open>fetch\<close>.
\<close>

definition storeAllFlag :: "string \<Rightarrow> error + jsval \<Rightarrow> 'a world_scheme \<Rightarrow> 'a world_scheme" where
  "storeAllFlag updatedKey outcome w =
     (case outcome of
        Inl e \<Rightarrow> w
      | Inr flagVal \<Rightarrow> setAllFlags (\<lambda>oldFlags. oldFlags(updatedKey \<mapsto> flagVal)) w)"

definition allFlagsListener ::
  "('a world_scheme \<Rightarrow> string \<Rightarrow> error + jsval) \<Rightarrow> string list \<Rightarrow>
     'a world_scheme \<Rightarrow> 'a world_scheme" where
  "allFlagsListener fetch updatedKeys w =
     fold (\<lambda>updatedKey w'. storeAllFlag updatedKey (fetch w' updatedKey) w') updatedKeys w"

text \<open>
  The effect of \<open>useAllFeatureFlags\<close> (dependency: \<open>client\<close>) and the cleanup it returns.
  Without a client handle the effect returns early and leaves no cleanup.
\<close>

definition allFlagsEffect ::
  "('a world_scheme \<Rightarrow> string \<Rightarrow> error + jsval) \<Rightarrow> string list \<Rightarrow> string \<Rightarrow>
     'a world_scheme \<Rightarrow> 'a world_scheme" where
  "allFlagsEffect fetch keys listenerId w =
     (case client w of
        Client c \<Rightarrow>
          (allFlagsListener fetch keys (registerAllFlagsListener c listenerId w))
            \<lparr>hookCleanup := Some (c, listenerId)\<rparr>
      | _ \<Rightarrow> w\<lparr>hookCleanup := None\<rparr>)"

definition allFlagsCleanup :: "'a world_scheme \<Rightarrow> 'a world_scheme" where
  "allFlagsCleanup w =
     (case hookCleanup w of
        None \<Rightarrow> w
      | Some (c, listenerId) \<Rightarrow> (unregisterAllFlagsListener c listenerId w)\<lparr>hookCleanup := None\<rparr>)"

text \<open>The SDK reports a batch of changed keys to the all-flags callbacks of client \<open>cid\<close>.\<close>

definition notifyAllFlagsListeners ::
  "('a world_scheme \<Rightarrow> string \<Rightarrow> error + jsval) \<Rightarrow> nat \<Rightarrow> string list \<Rightarrow>
     'a world_scheme \<Rightarrow> 'a world_scheme" where
  "notifyAllFlagsListeners fetch cid updatedKeys w =
     fold (\<lambda>e. allFlagsListener fetch updatedKeys)
       (filter (\<lambda>(c, listenerId). c = cid) (allFlagsListeners w)) w"

text \<open>
  What the environment can do to a mounted provider: render it with (new) \<open>context\<close> and
  \<open>config\<close> props, so that the effect depending on them runs (the event carries the object
  \<open>new LDClient()\<close> yields should the effect evaluate it, and the string
  \<open>Date.now().toString()\<close> yields should a hook effect run); settle the awaited \<open>identify\<close>
  or \<open>configure\<close>, or reject the one that is pending; report flag changes; unmount the
  provider with its subtree.
\<close>

datatype event =
    Render jsval jsval ld_client string
  | IdentifySettled
  | ConfigureSettled string
  | InitRejected
  | FlagChanged nat string
  | AllFlagsChanged nat "string list"
  | Unmount

section \<open>LaunchDarklyProvider and useAllFeatureFlags, variant with the synchronous escape hatch\<close>

definition setGlobalLdClient :: "ld_client \<Rightarrow> 'a world_scheme \<Rightarrow> 'a world_scheme" where
  "setGlobalLdClient ldClient w = w\<lparr>globalLdClient := Some ldClient\<rparr>"

text \<open>
  First effect (dependencies \<open>context\<close>, \<open>config\<close>). Inside the \<open>async\<close> function,
  \<open>new LDClient()\<close> and the call of \<open>identify\<close> happen at once; the rest waits.
\<close>

definition initEffect ::
  "jsval \<Rightarrow> jsval \<Rightarrow> ld_client \<Rightarrow> 'a hatch_world_scheme \<Rightarrow> 'a hatch_world_scheme" where
  "initEffect context config newClient w =
     (if \<not> truthy context \<or> \<not> truthy config then w
      else if getGlobalLdClient w \<noteq> None \<or> client w \<noteq> NoClient then w
      else (setClient Loading w)
             \<lparr>sdkCalls := sdkCalls w @ [NewClient (clientId newClient),
                                        Identify (clientId newClient) context],
              initTask := Some (newClient, context, config, False)\<rparr>)"

text \<open>Second effect (dependency \<open>flags\<close>): \<open>escapeHatchFlags = flags\<close>.\<close>

definition escapeHatchEffect :: "'a hatch_world_scheme \<Rightarrow> 'a hatch_world_scheme" where
  "escapeHatchEffect w = (if mounted w then w\<lparr>escapeHatchFlags := flags w\<rparr> else w)"

text \<open>The provider's per-flag listener.\<close>

definition listener ::
  "named_flags \<Rightarrow> string \<Rightarrow> 'a hatch_world_scheme \<Rightarrow> 'a hatch_world_scheme" where
  "listener featureFlags updatedKey w =
     storeFlag updatedKey (getFeatureFlagAsync featureFlags w (JStr updatedKey) JUndefined) w"

text \<open>
  Third effect (dependency \<open>client\<close>) and its cleanup. The effect function is synchronous
  and returns the cleanup, which React keeps until the next run or the unmount.
\<close>

definition subscribeEffect ::
  "named_flags \<Rightarrow> 'a hatch_world_scheme \<Rightarrow> 'a hatch_world_scheme" where
  "subscribeEffect featureFlags w =
     (case client w of
        Client c \<Rightarrow>
          (let (w', ds) = subscribe (listener featureFlags) c (Object_keys featureFlags) w
           in w'\<lparr>destructors := ds\<rparr>)
      | _ \<Rightarrow> w\<lparr>destructors := []\<rparr>)"

definition subscribeCleanup :: "'a hatch_world_scheme \<Rightarrow> 'a hatch_world_scheme" where
  "subscribeCleanup w = (runDestructors (destructors w) w)\<lparr>destructors := []\<rparr>"

text \<open>The all-flags listener of the hook awaits \<open>getFeatureFlagAsync(updatedKey)\<close>.\<close>

definition useAllFeatureFlags_fetch ::
  "named_flags \<Rightarrow> 'a hatch_world_scheme \<Rightarrow> string \<Rightarrow> error + jsval" where
  "useAllFeatureFlags_fetch featureFlags w updatedKey =
     getFeatureFlagAsync featureFlags w (JStr updatedKey) JUndefined"

text \<open>
  A commit in which \<open>client\<close> changed, while mounted: the cleanups of the effects that
  depend on it run, then the effects (the hook's, in a child, before the provider's);
  the snapshot they produce is then copied by the second effect. The second effect is
  run after every step that may have called \<open>setFlags\<close>; where \<open>flags\<close> did not change
  it copies what \<open>escapeHatchFlags\<close> already holds in every state reachable from the
  initial one.
\<close>

definition clientChanged ::
  "named_flags \<Rightarrow> string \<Rightarrow> 'a hatch_world_scheme \<Rightarrow> 'a hatch_world_scheme" where
  "clientChanged featureFlags uniqueId w =
     (if mounted w then
        escapeHatchEffect
          (subscribeEffect featureFlags
            (allFlagsEffect (useAllFeatureFlags_fetch featureFlags) (Object_keys featureFlags) uniqueId
              (subscribeCleanup (allFlagsCleanup w))))
      else w)"

text \<open>The continuations of the \<open>async\<close> function of the first effect.\<close>

definition identifySettled :: "'a hatch_world_scheme \<Rightarrow> 'a hatch_world_scheme" where
  "identifySettled w =
     (case initTask w of
        Some (newClient, context, config, False) \<Rightarrow>
          w\<lparr>sdkCalls := sdkCalls w @ [Configure (clientId newClient) config context],
            initTask := Some (newClient, context, config, True)\<rparr>
      | _ \<Rightarrow> w)"

definition configureSettled ::
  "named_flags \<Rightarrow> string \<Rightarrow> 'a hatch_world_scheme \<Rightarrow> 'a hatch_world_scheme" where
  "configureSettled featureFlags uniqueId w =
     (case initTask w of
        Some (newClient, context, config, True) \<Rightarrow>
          clientChanged featureFlags uniqueId
            (setGlobalLdClient newClient (setClient (Client newClient) (w\<lparr>initTask := None\<rparr>)))
      | _ \<Rightarrow> w)"

text \<open>
  A rejected \<open>identify\<close> or \<open>configure\<close> ends the \<open>async\<close> function at its \<open>await\<close>; the
  rejection is not handled, and \<open>client\<close> stays \<open>'loading...'\<close>.
\<close>

definition initRejected :: "'a hatch_world_scheme \<Rightarrow> 'a hatch_world_scheme" where
  "initRejected w = w\<lparr>initTask := None\<rparr>"

definition unmount :: "'a hatch_world_scheme \<Rightarrow> 'a hatch_world_scheme" where
  "unmount w =
     (if mounted w then (subscribeCleanup (allFlagsCleanup w))\<lparr>mounted := False, hookMounted := False\<rparr>
      else w)"

fun step :: "named_flags \<Rightarrow> 'a hatch_world_scheme \<Rightarrow> event \<Rightarrow> 'a hatch_world_scheme" where
  "step featureFlags w (Render context config newClient uniqueId) =
     (if mounted w then
        (let w' = initEffect context config newClient w
         in if client w' = client w then w' else clientChanged featureFlags uniqueId w')
      else w)"
| "step featureFlags w IdentifySettled = identifySettled w"
| "step featureFlags w (ConfigureSettled uniqueId) = configureSettled featureFlags uniqueId w"
| "step featureFlags w InitRejected = initRejected w"
| "step featureFlags w (FlagChanged cid key) =
     escapeHatchEffect (notifyFlagListeners (listener featureFlags) cid key w)"
| "step featureFlags w (AllFlagsChanged cid updatedKeys) =
     notifyAllFlagsListeners (useAllFeatureFlags_fetch featureFlags) cid updatedKeys w"
| "step featureFlags w Unmount = unmount w"

definition run :: "named_flags \<Rightarrow> 'a hatch_world_scheme \<Rightarrow> event list \<Rightarrow> 'a hatch_world_scheme" where
  "run featureFlags w events = foldl (step featureFlags) w events"

section \<open>LaunchDarklyProvider and useAllFeatureFlags of factory.tsx\<close>

definition factory_listener :: "string \<Rightarrow> 'a factory_world_scheme \<Rightarrow> 'a factory_world_scheme" where
  "factory_listener updatedKey w = storeFlag updatedKey (getFeatureFlag w updatedKey JUndefined) w"

text \<open>
  The provider's only effect (dependencies \<open>context\<close>, \<open>config\<close>). Its callback invokes an
  \<open>async\<close> function and returns nothing: nothing in that function is awaited, so all of it
  runs at once, and the cleanup that function returns is the value of a promise nobody
  reads. React therefore holds no cleanup for this effect: \<open>destructors\<close> is left as it was.
\<close>

definition factory_providerEffect ::
  "(jsval \<Rightarrow> error + jsval) \<Rightarrow> named_flags \<Rightarrow> jsval \<Rightarrow> jsval \<Rightarrow> ld_client \<Rightarrow>
     'a factory_world_scheme \<Rightarrow> 'a factory_world_scheme" where
  "factory_providerEffect JSON_parse featureFlags context config newClient w =
     (if \<not> truthy context \<or> \<not> truthy config then w
      else
        (let w1 = w\<lparr>sdkCalls := sdkCalls w @ [NewClient (clientId newClient),
                                               Identify (clientId newClient) context,
                                               Configure (clientId newClient) config context]\<rparr>;
             w2 = setClient (Client newClient) w1;
             w3 = factory_setGlobalLdClient JSON_parse featureFlags newClient w2;
             (w4, ds) = subscribe factory_listener newClient (Object_keys featureFlags) w3
         in w4))"

text \<open>The hook of factory.tsx awaits \<open>getFeatureFlag(updatedKey)\<close> and registers as \<open>herpnerp\<close>.\<close>

definition factory_useAllFeatureFlags_fetch ::
  "'a factory_world_scheme \<Rightarrow> string \<Rightarrow> error + jsval" where
  "factory_useAllFeatureFlags_fetch w updatedKey = getFeatureFlag w updatedKey JUndefined"

definition factory_clientChanged ::
  "named_flags \<Rightarrow> 'a factory_world_scheme \<Rightarrow> 'a factory_world_scheme" where
  "factory_clientChanged featureFlags w =
     (if mounted w then
        allFlagsEffect factory_useAllFeatureFlags_fetch (Object_keys featureFlags) ''herpnerp''
          (allFlagsCleanup w)
      else w)"

definition factory_unmount :: "'a factory_world_scheme \<Rightarrow> 'a factory_world_scheme" where
  "factory_unmount w =
     (if mounted w then (allFlagsCleanup w)\<lparr>mounted := False, hookMounted := False\<rparr> else w)"

fun factory_step ::
  "(jsval \<Rightarrow> error + jsval) \<Rightarrow> named_flags \<Rightarrow> 'a factory_world_scheme \<Rightarrow> event \<Rightarrow>
     'a factory_world_scheme" where
  "factory_step JSON_parse featureFlags w (Render context config newClient uniqueId) =
     (if mounted w then
        (let w' = factory_providerEffect JSON_parse featureFlags context config newClient w
         in if client w' = client w then w' else factory_clientChanged featureFlags w')
      else w)"
| "factory_step JSON_parse featureFlags w IdentifySettled = w"
| "factory_step JSON_parse featureFlags w (ConfigureSettled uniqueId) = w"
| "factory_step JSON_parse featureFlags w InitRejected = w"
| "factory_step JSON_parse featureFlags w (FlagChanged cid key) =
     notifyFlagListeners factory_listener cid key w"
| "factory_step JSON_parse featureFlags w (AllFlagsChanged cid updatedKeys) =
     notifyAllFlagsListeners factory_useAllFeatureFlags_fetch cid updatedKeys w"
| "factory_step JSON_parse featureFlags w Unmount = factory_unmount w"

definition factory_run ::
  "(jsval \<Rightarrow> error + jsval) \<Rightarrow> named_flags \<Rightarrow> 'a factory_world_scheme \<Rightarrow> event list \<Rightarrow>
     'a factory_world_scheme" where
  "factory_run JSON_parse featureFlags w events = foldl (factory_step JSON_parse featureFlags) w events"

section \<open>Observations used in the properties\<close>

text \<open>Which kind of SDK call a log entry is.\<close>

fun isNewClient :: "sdk_call \<Rightarrow> bool" where
  "isNewClient (NewClient n) = True"
| "isNewClient _ = False"

fun isIdentify :: "sdk_call \<Rightarrow> bool" where
  "isIdentify (Identify n context) = True"
| "isIdentify _ = False"

fun isConfigure :: "sdk_call \<Rightarrow> bool" where
  "isConfigure (Configure n config context) = True"
| "isConfigure _ = False"

text \<open>The part of the state that client initialisation reads and writes.\<close>

definition initFields ::
  "'a hatch_world_scheme \<Rightarrow>
     ld_client option \<times> client_slot \<times> (ld_client \<times> jsval \<times> jsval \<times> bool) option \<times> sdk_call list" where
  "initFields w = (globalLdClient w, client w, initTask w, sdkCalls w)"

text \<open>
  The states client initialisation can be in: untouched; started, with \<open>identify\<close>
  pending or rejected; or past the call of \<open>configure\<close>.
\<close>

definition initLog :: "ld_client \<Rightarrow> jsval \<Rightarrow> jsval \<Rightarrow> sdk_call list" where
  "initLog c context config =
     [NewClient (clientId c), Identify (clientId c) context, Configure (clientId c) config context]"

definition initOnce :: "'a hatch_world_scheme \<Rightarrow> bool" where
  "initOnce w =
     ((client w = NoClient \<and> globalLdClient w = None \<and> initTask w = None \<and> sdkCalls w = [])
      \<or> (client w \<noteq> NoClient \<and>
           (\<exists>c context config.
              ((initTask w = Some (c, context, config, False) \<or> initTask w = None)
                \<and> sdkCalls w = take 2 (initLog c context config))
              \<or> ((initTask w = Some (c, context, config, True) \<or> initTask w = None)
                  \<and> sdkCalls w = initLog c context config))))"

text \<open>The part of the state of factory.tsx that the provider's effect writes.\<close>

definition factoryFields ::
  "'a factory_world_scheme \<Rightarrow>
     ld_client option \<times> (string \<Rightarrow> jsval \<Rightarrow> error + jsval) \<times> client_slot \<times> sdk_call list" where
  "factoryFields w = (globalLdClient w, globalGetFeatureFlag w, client w, sdkCalls w)"

text \<open>\<open>globalGetFeatureFlag\<close> is the fetcher of the client that \<open>globalLdClient\<close> holds.\<close>

definition fetcherBound ::
  "(jsval \<Rightarrow> error + jsval) \<Rightarrow> named_flags \<Rightarrow> 'a factory_world_scheme \<Rightarrow> bool" where
  "fetcherBound JSON_parse featureFlags w =
     (globalGetFeatureFlag w =
        (case globalLdClient w of
           None \<Rightarrow> initialGetFeatureFlag featureFlags
         | Some c \<Rightarrow> getGetFeatureFlag JSON_parse featureFlags c))"

text \<open>The table entry a destructor removes.\<close>

definition entryOf :: "ld_client \<times> string \<times> nat \<Rightarrow> nat \<times> string \<times> nat" where
  "entryOf d = (case d of (c, key, callback) \<Rightarrow> (clientId c, key, callback))"

text \<open>What a resolved or rejected fetch does to one snapshot.\<close>

definition stored :: "string \<Rightarrow> error + jsval \<Rightarrow> snapshot option \<Rightarrow> snapshot option" where
  "stored updatedKey outcome fl =
     (case outcome of Inl e \<Rightarrow> fl | Inr newFlag \<Rightarrow> spread fl updatedKey newFlag)"

definition storedAll :: "string \<Rightarrow> error + jsval \<Rightarrow> snapshot \<Rightarrow> snapshot" where
  "storedAll updatedKey outcome m =
     (case outcome of Inl e \<Rightarrow> m | Inr flagVal \<Rightarrow> m(updatedKey \<mapsto> flagVal))"

text \<open>
  What the SDK's all-flags table holds when its only entry is the one the hook's pending
  cleanup removes.
\<close>

definition hookListeners :: "'a world_scheme \<Rightarrow> (nat \<times> string) list" where
  "hookListeners w =
     (case hookCleanup w of None \<Rightarrow> [] | Some (c, listenerId) \<Rightarrow> [(clientId c, listenerId)])"

text \<open>
  The hook keeps step with the provider's client: the table holds the hook's listener and
  nothing else, the listener is registered with the client the provider holds, and there
  is one whenever a mounted provider holds a client.
\<close>

definition hookTracksClient :: "'a world_scheme \<Rightarrow> bool" where
  "hookTracksClient w =
     (hookMounted w = mounted w
      \<and> allFlagsListeners w = hookListeners w
      \<and> (case hookCleanup w of
            Some (c, listenerId) \<Rightarrow> mounted w \<and> client w = Client c
          | None \<Rightarrow> (case client w of Client c \<Rightarrow> \<not> mounted w | _ \<Rightarrow> True)))"

text \<open>The part of the state that \<open>hookTracksClient\<close> reads.\<close>

definition hookFields ::
  "'a world_scheme \<Rightarrow> bool \<times> bool \<times> client_slot \<times> (ld_client \<times> string) option \<times> (nat \<times> string) list" where
  "hookFields w = (mounted w, hookMounted w, client w, hookCleanup w, allFlagsListeners w)"

text \<open>The id under which the hook's pending cleanup unregisters.\<close>

definition hookListenerId :: "'a world_scheme \<Rightarrow> string option" where
  "hookListenerId w = map_option snd (hookCleanup w)"

section \<open>Initial states and test fixtures\<close>

text \<open>The state right after the factory has been called and a provider has mounted.\<close>

definition initialWorld :: hatch_world where
  "initialWorld =
     \<lparr>globalLdClient = None, client = NoClient, flags = None, mounted = True,
      destructors = [], allFlags = Map.empty, hookMounted = True, hookCleanup = None,
      sdkCalls = [], flagListeners = [], allFlagsListeners = [], nextListener = 0,
      escapeHatchFlags = None, initTask = None\<rparr>"

definition factory_initialWorld :: "named_flags \<Rightarrow> factory_world" where
  "factory_initialWorld featureFlags =
     \<lparr>globalLdClient = None, client = NoClient, flags = None, mounted = True,
      destructors = [], allFlags = Map.empty, hookMounted = True, hookCleanup = None,
      sdkCalls = [], flagListeners = [], allFlagsListeners = [], nextListener = 0,
      globalGetFeatureFlag = initialGetFeatureFlag featureFlags\<rparr>"

text \<open>
  A client for concrete runs: it serves one value per example flag and hands back the
  default it was given for any other key, and it delivers the JSON flag serialized.
\<close>

definition sampleClient :: ld_client where
  "sampleClient =
     \<lparr>clientId = 1,
      boolVariation = (\<lambda>key d. if key = ''example-boolean-feature-flag'' then Inr (JBool True) else Inr d),
      numberVariation = (\<lambda>key d. if key = ''example-number-feature-flag'' then Inr (JNum 7) else Inr d),
      stringVariation = (\<lambda>key d. if key = ''example-string-feature-flag'' then Inr (JStr ''on'') else Inr d),
      jsonVariation = (\<lambda>key d. if key = ''example-json-feature-flag'' then Inr (JStr ''{}'') else Inr d)\<rparr>"

definition sampleContext :: jsval where
  "sampleContext = JObj [(''kind'', JStr ''user''), (''key'', JStr ''user-1'')]"

definition sampleConfig :: jsval where
  "sampleConfig = JObj [(''mobileKey'', JStr ''mob-key'')]"

definition otherContext :: jsval where
  "otherContext = JObj [(''kind'', JStr ''user''), (''key'', JStr ''user-2'')]"

text \<open>A second client, as a later \<open>new LDClient()\<close> would yield.\<close>

definition otherClient :: ld_client where
  "otherClient = sampleClient\<lparr>clientId := 2\<rparr>"

text \<open>
  The provider after its first effect ran with the sample context and config and
  \<open>identify\<close> settled: \<open>configure\<close> has been called and is pending.
\<close>

definition configuringWorld :: hatch_world where
  "configuringWorld =
     initialWorld\<lparr>client := Loading,
                  sdkCalls := initLog sampleClient sampleContext sampleConfig,
                  initTask := Some (sampleClient, sampleContext, sampleConfig, True)\<rparr>"

text \<open>A stand-in for \<open>JSON.parse\<close> that agrees with it on the one text the sample client serves.\<close>

definition sampleParse :: "jsval \<Rightarrow> error + jsval" where
  "sampleParse v = (if v = JStr ''{}'' then Inr (JObj []) else Inl (Rejected ''SyntaxError''))"

section \<open>Properties of the accessors\<close>

lemma map_of_exampleFlags:
  "map_of exampleFlags ''example-boolean-feature-flag'' = Some \<lparr>type = Boolean, defaultVal = JBool False\<rparr>"
  "map_of exampleFlags ''example-number-feature-flag'' = Some \<lparr>type = Number, defaultVal = JNum 123\<rparr>"
  "map_of exampleFlags ''example-string-feature-flag'' = Some \<lparr>type = String, defaultVal = JStr ''asdf''\<rparr>"
  "map_of exampleFlags ''example-json-feature-flag'' = Some \<lparr>type = Object, defaultVal = JObj []\<rparr>"
  "map_of exampleFlags ''not-a-flag'' = None"
  "map_of exampleFlags [] = None"
  by (simp_all add: exampleFlags_def)

subsection \<open>Resolution order of useFeatureFlag\<close>



subsection \<open>Keys outside the registry\<close>

lemma inherited_examples:
  "\<not> inherited []"
  "\<not> inherited ''not-a-flag''"
  "inherited ''toString''"
  by (simp_all add: inherited_def Object_prototype_def)





subsection \<open>Reading a flag before a client exists\<close>

text \<open>
  For a registered key and no client, \<open>getFeatureFlagAsync\<close>, \<open>getFeatureFlag\<close> of
  factory.tsx and \<open>useFeatureFlag\<close> resolve to the caller's default, else the registry
  default, and none of them fails.
\<close>

lemma getFeatureFlagAsync_without_client:
  "map_of featureFlags k = Some f \<Longrightarrow> getGlobalLdClient w = None \<Longrightarrow>
     getFeatureFlagAsync featureFlags w (JStr k) dv = Inr (coalesce dv (defaultVal f))"
  by (simp add: getFeatureFlagAsync_def)

lemma getFeatureFlag_without_client:
  "map_of featureFlags k = Some f \<Longrightarrow>
     getFeatureFlag (factory_initialWorld featureFlags) k dv = Inr (coalesce dv (defaultVal f))"
  by (simp add: getFeatureFlag_def factory_initialWorld_def initialGetFeatureFlag_def registryDefault_def)

lemma useFeatureFlag_without_snapshot:
  "map_of featureFlags k = Some f \<Longrightarrow> flags w = None \<Longrightarrow>
     useFeatureFlag featureFlags w k dv = Inr (coalesce dv (defaultVal f))"
  by (simp add: useFeatureFlag_def opt_index_def coalesce_def)

text \<open>
  The synchronous escape hatch does not fail either, but it chooses with \<open>||\<close>: a caller's
  default that is falsy is passed over.
\<close>

lemma getFeatureFlagEscapeHatch_without_snapshot:
  "map_of featureFlags k = Some f \<Longrightarrow> escapeHatchFlags w = None \<Longrightarrow>
     getFeatureFlagEscapeHatch featureFlags w k dv = Inr (logical_or dv (defaultVal f))"
  by (simp add: getFeatureFlagEscapeHatch_def opt_index_def logical_or_def)

text \<open>
  Claim C3, at the input where the code departs from it: before any client exists,
  \<open>getFeatureFlag("example-number-feature-flag", 0)\<close> of the synchronous escape hatch yields
  the registry default 123, not the caller's 0; likewise the caller's empty string.
\<close>

theorem escape_hatch_drops_falsy_caller_default:
  "getGlobalLdClient initialWorld = None
   \<and> escapeHatchFlags initialWorld = None
   \<and> getFeatureFlagEscapeHatch exampleFlags initialWorld ''example-number-feature-flag'' (JNum 0)
       = Inr (JNum 123)
   \<and> getFeatureFlagEscapeHatch exampleFlags initialWorld ''example-string-feature-flag'' (JStr [])
       = Inr (JStr ''asdf'')"
  by (simp add: getFeatureFlagEscapeHatch_def initialWorld_def getGlobalLdClient_def opt_index_def
      map_of_exampleFlags)

subsection \<open>The synchronous escape hatch and falsy snapshot values\<close>

text \<open>
  Claim C7, at the inputs where the code departs from it: an observed snapshot value
  \<open>false\<close>, \<open>0\<close> or \<open>''\<close> is passed over in favour of the caller's default or the registry
  default.
\<close>

theorem escape_hatch_drops_falsy_snapshot_value:
  "getFeatureFlagEscapeHatch exampleFlags
      (initialWorld\<lparr>escapeHatchFlags := Some [''example-boolean-feature-flag'' \<mapsto> JBool False]\<rparr>)
      ''example-boolean-feature-flag'' (JBool True) = Inr (JBool True)
   \<and> getFeatureFlagEscapeHatch exampleFlags
      (initialWorld\<lparr>escapeHatchFlags := Some [''example-number-feature-flag'' \<mapsto> JNum 0]\<rparr>)
      ''example-number-feature-flag'' JUndefined = Inr (JNum 123)
   \<and> getFeatureFlagEscapeHatch exampleFlags
      (initialWorld\<lparr>escapeHatchFlags := Some [''example-string-feature-flag'' \<mapsto> JStr []]\<rparr>)
      ''example-string-feature-flag'' JUndefined = Inr (JStr ''asdf'')"
  by (simp add: getFeatureFlagEscapeHatch_def initialWorld_def opt_index_def map_of_exampleFlags)

subsection \<open>Dispatch on the declared type\<close>

text \<open>
  Claim C8 as stated fails for \<open>getFeatureFlagAsync\<close>: for an \<open>Object\<close> flag it returns what
  \<open>jsonVariation\<close> resolved to as it is (here the text \<open>{}\<close>), where \<open>getGetFeatureFlag\<close> of
  factory.tsx returns the parsed object.
\<close>

theorem getFeatureFlagAsync_json_unparsed_counterexample:
  "getFeatureFlagAsync exampleFlags (setGlobalLdClient sampleClient initialWorld)
      (JStr ''example-json-feature-flag'') JUndefined = Inr (JStr ''{}'')
   \<and> jsonVariation sampleClient ''example-json-feature-flag'' (JObj []) = Inr (JStr ''{}'')
   \<and> sampleParse (JStr ''{}'') = Inr (JObj [])
   \<and> getGetFeatureFlag sampleParse exampleFlags sampleClient ''example-json-feature-flag'' JUndefined
       = Inr (JObj [])"
  by (simp add: getFeatureFlagAsync_def setGlobalLdClient_def getGlobalLdClient_def initialWorld_def
      sampleClient_def sampleParse_def map_of_exampleFlags coalesce_def getGetFeatureFlag_def
      registryType_def registryDefault_def)

text \<open>
  Claim C8, amended. For a registered key and an existing client, both asynchronous
  accessors call \<open>boolVariation\<close>, \<open>numberVariation\<close>, \<open>stringVariation\<close> or \<open>jsonVariation\<close>
  according to the declared type, passing the key and the resolved default (the caller's,
  else the registry's). \<open>getGetFeatureFlag\<close> of factory.tsx passes what \<open>jsonVariation\<close>
  resolved to through \<open>JSON.parse\<close>; \<open>getFeatureFlagAsync\<close> returns it unparsed.
\<close>

theorem accessor_dispatches_on_declared_type:
  "map_of featureFlags key = Some f \<and> getGlobalLdClient w = Some c \<longrightarrow>
     (type f = Boolean \<longrightarrow>
        getFeatureFlagAsync featureFlags w (JStr key) dv = boolVariation c key (coalesce dv (defaultVal f))
        \<and> getGetFeatureFlag JSON_parse featureFlags c key dv = boolVariation c key (coalesce dv (defaultVal f)))
   \<and> (type f = Number \<longrightarrow>
        getFeatureFlagAsync featureFlags w (JStr key) dv = numberVariation c key (coalesce dv (defaultVal f))
        \<and> getGetFeatureFlag JSON_parse featureFlags c key dv = numberVariation c key (coalesce dv (defaultVal f)))
   \<and> (type f = String \<longrightarrow>
        getFeatureFlagAsync featureFlags w (JStr key) dv = stringVariation c key (coalesce dv (defaultVal f))
        \<and> getGetFeatureFlag JSON_parse featureFlags c key dv = stringVariation c key (coalesce dv (defaultVal f)))
   \<and> (type f = Object \<longrightarrow>
        getFeatureFlagAsync featureFlags w (JStr key) dv = jsonVariation c key (coalesce dv (defaultVal f))
        \<and> getGetFeatureFlag JSON_parse featureFlags c key dv =
            (case jsonVariation c key (coalesce dv (defaultVal f)) of
               Inl e \<Rightarrow> Inl e
             | Inr serialized \<Rightarrow> JSON_parse serialized))"
  by (simp add: getFeatureFlagAsync_def getGetFeatureFlag_def registryType_def registryDefault_def)

theorem accessor_dispatches_on_declared_type_witness:
  "getGlobalLdClient (setGlobalLdClient sampleClient initialWorld) = Some sampleClient
   \<and> getFeatureFlagAsync exampleFlags (setGlobalLdClient sampleClient initialWorld)
        (JStr ''example-boolean-feature-flag'') JUndefined = Inr (JBool True)
   \<and> getGetFeatureFlag sampleParse exampleFlags sampleClient ''example-boolean-feature-flag'' JUndefined
        = Inr (JBool True)
   \<and> getFeatureFlagAsync exampleFlags (setGlobalLdClient sampleClient initialWorld)
        (JStr ''example-number-feature-flag'') JUndefined = Inr (JNum 7)
   \<and> getGetFeatureFlag sampleParse exampleFlags sampleClient ''example-number-feature-flag'' JUndefined
        = Inr (JNum 7)
   \<and> getFeatureFlagAsync exampleFlags (setGlobalLdClient sampleClient initialWorld)
        (JStr ''example-string-feature-flag'') JUndefined = Inr (JStr ''on'')
   \<and> getGetFeatureFlag sampleParse exampleFlags sampleClient ''example-string-feature-flag'' JUndefined
        = Inr (JStr ''on'')
   \<and> getFeatureFlagAsync exampleFlags (setGlobalLdClient sampleClient initialWorld)
        (JStr ''example-json-feature-flag'') JUndefined = Inr (JStr ''{}'')
   \<and> getGetFeatureFlag sampleParse exampleFlags sampleClient ''example-json-feature-flag'' JUndefined
        = Inr (JObj [])"
  using accessor_dispatches_on_declared_type
    [where featureFlags = exampleFlags and key = "''example-boolean-feature-flag''"
       and f = "\<lparr>type = Boolean, defaultVal = JBool False\<rparr>"
       and w = "setGlobalLdClient sampleClient initialWorld" and c = sampleClient
       and dv = JUndefined and JSON_parse = sampleParse]
    accessor_dispatches_on_declared_type
    [where featureFlags = exampleFlags and key = "''example-number-feature-flag''"
       and f = "\<lparr>type = Number, defaultVal = JNum 123\<rparr>"
       and w = "setGlobalLdClient sampleClient initialWorld" and c = sampleClient
       and dv = JUndefined and JSON_parse = sampleParse]
    accessor_dispatches_on_declared_type
    [where featureFlags = exampleFlags and key = "''example-string-feature-flag''"
       and f = "\<lparr>type = String, defaultVal = JStr ''asdf''\<rparr>"
       and w = "setGlobalLdClient sampleClient initialWorld" and c = sampleClient
       and dv = JUndefined and JSON_parse = sampleParse]
    accessor_dispatches_on_declared_type
    [where featureFlags = exampleFlags and key = "''example-json-feature-flag''"
       and f = "\<lparr>type = Object, defaultVal = JObj []\<rparr>"
       and w = "setGlobalLdClient sampleClient initialWorld" and c = sampleClient
       and dv = JUndefined and JSON_parse = sampleParse]
  by (simp add: map_of_exampleFlags setGlobalLdClient_def getGlobalLdClient_def coalesce_def
      sampleClient_def sampleParse_def)

section \<open>What each operation leaves unchanged\<close>

text \<open>
  The loops of the model are folds or recursions over key lists; a property that every
  step preserves is preserved by the loop. These rules are instantiated below with the
  fields an argument needs.
\<close>

lemma subscribe_invariant:
  assumes l: "\<And>k u. Q u \<Longrightarrow> Q (lsn k u)"
    and n: "\<And>u n. Q u \<Longrightarrow> Q (u\<lparr>nextListener := n\<rparr>)"
    and r: "\<And>u l. Q u \<Longrightarrow> Q (u\<lparr>flagListeners := l\<rparr>)"
  shows "Q w \<Longrightarrow> Q (fst (subscribe lsn c keys w))"
proof (induction keys arbitrary: w)
  case Nil
  then show ?case by simp
next
  case (Cons key keys)
  have "Q (registerFeatureFlagListener c key (nextListener w)
            (lsn key (w\<lparr>nextListener := Suc (nextListener w)\<rparr>)))"
    using Cons.prems l n r by (simp add: registerFeatureFlagListener_def)
  from Cons.IH [OF this] show ?case
    by (simp add: Let_def case_prod_beta)
qed

lemma initFields_storeFlag: "initFields (storeFlag k outcome w) = initFields w"
  by (simp add: initFields_def storeFlag_def setFlags_def split: sum.split)

lemma initFields_listener: "initFields (listener featureFlags k w) = initFields w"
  by (simp add: listener_def initFields_storeFlag)

lemma initFields_subscribe:
  "initFields (fst (subscribe (listener featureFlags) c keys w)) = initFields w"
  by (rule subscribe_invariant [where Q = "\<lambda>u. initFields u = initFields w"])
    (simp_all add: initFields_listener, simp_all add: initFields_def)

lemma initFields_runDestructors: "initFields (runDestructors ds w) = initFields w"
  unfolding runDestructors_def
  by (rule fold_invariant [where Q = "\<lambda>x. True" and P = "\<lambda>u. initFields u = initFields w"])
    (auto simp: initFields_def unregisterFeatureFlagListener_def)

lemma initFields_notifyFlagListeners:
  "initFields (notifyFlagListeners (listener featureFlags) cid key w) = initFields w"
  unfolding notifyFlagListeners_def
  by (rule fold_invariant [where Q = "\<lambda>x. True" and P = "\<lambda>u. initFields u = initFields w"])
    (simp_all add: initFields_listener)

lemma initFields_allFlagsListener:
  "initFields (allFlagsListener fetch updatedKeys w) = initFields w"
  unfolding allFlagsListener_def
  by (rule fold_invariant [where Q = "\<lambda>x. True" and P = "\<lambda>u. initFields u = initFields w"])
    (simp_all add: initFields_def storeAllFlag_def setAllFlags_def split: sum.split)

lemma initFields_notifyAllFlagsListeners:
  "initFields (notifyAllFlagsListeners fetch cid updatedKeys w) = initFields w"
  unfolding notifyAllFlagsListeners_def
  by (rule fold_invariant [where Q = "\<lambda>x. True" and P = "\<lambda>u. initFields u = initFields w"])
    (simp_all add: initFields_allFlagsListener)

lemma initFields_allFlagsEffect:
  "initFields (allFlagsEffect fetch keys listenerId w) = initFields w"
proof (cases "client w")
  case (Client c)
  have "initFields (allFlagsListener fetch keys (registerAllFlagsListener c listenerId w))
          = initFields (registerAllFlagsListener c listenerId w)"
    by (rule initFields_allFlagsListener)
  then show ?thesis
    using Client by (simp add: allFlagsEffect_def initFields_def registerAllFlagsListener_def)
qed (simp_all add: allFlagsEffect_def initFields_def)

lemma initFields_allFlagsCleanup: "initFields (allFlagsCleanup w) = initFields w"
  by (simp add: allFlagsCleanup_def initFields_def unregisterAllFlagsListener_def split: option.split)

lemma initFields_subscribeCleanup: "initFields (subscribeCleanup w) = initFields w"
  using initFields_runDestructors [of "destructors w" w]
  by (simp add: subscribeCleanup_def initFields_def)

lemma initFields_subscribeEffect: "initFields (subscribeEffect featureFlags w) = initFields w"
proof (cases "client w")
  case (Client c)
  then show ?thesis
    using initFields_subscribe [of featureFlags c "Object_keys featureFlags" w]
    by (simp add: subscribeEffect_def initFields_def case_prod_beta)
qed (simp_all add: subscribeEffect_def initFields_def)

lemma initFields_escapeHatchEffect: "initFields (escapeHatchEffect w) = initFields w"
  by (simp add: escapeHatchEffect_def initFields_def)

lemma initFields_clientChanged: "initFields (clientChanged featureFlags uniqueId w) = initFields w"
  by (simp add: clientChanged_def initFields_escapeHatchEffect initFields_subscribeEffect
      initFields_allFlagsEffect initFields_subscribeCleanup initFields_allFlagsCleanup)

lemma initFields_unmount: "initFields (unmount w) = initFields w"
  using initFields_subscribeCleanup [of "allFlagsCleanup w"] initFields_allFlagsCleanup [of w]
  by (simp add: unmount_def initFields_def)

lemma runDestructors_invariant:
  assumes "\<And>u l. Q u \<Longrightarrow> Q (u\<lparr>flagListeners := l\<rparr>)"
  shows "Q w \<Longrightarrow> Q (runDestructors ds w)"
  unfolding runDestructors_def
  by (rule fold_invariant [where Q = "\<lambda>x. True" and P = Q])
    (auto simp: unregisterFeatureFlagListener_def assms)

lemma storeAllFlag_invariant:
  assumes "\<And>u m. Q u \<Longrightarrow> Q (u\<lparr>allFlags := m\<rparr>)"
  shows "Q w \<Longrightarrow> Q (storeAllFlag k outcome w)"
  by (simp add: storeAllFlag_def setAllFlags_def assms split: sum.split)

lemma allFlagsListener_invariant:
  assumes "\<And>u m. Q u \<Longrightarrow> Q (u\<lparr>allFlags := m\<rparr>)"
  shows "Q w \<Longrightarrow> Q (allFlagsListener fetch keys w)"
  unfolding allFlagsListener_def
  by (rule fold_invariant [where Q = "\<lambda>x. True" and P = Q])
    (simp_all add: storeAllFlag_invariant assms)

lemma allFlagsEffect_invariant:
  assumes a: "\<And>u m. Q u \<Longrightarrow> Q (u\<lparr>allFlags := m\<rparr>)"
    and l: "\<And>u l. Q u \<Longrightarrow> Q (u\<lparr>allFlagsListeners := l\<rparr>)"
    and h: "\<And>u h. Q u \<Longrightarrow> Q (u\<lparr>hookCleanup := h\<rparr>)"
  shows "Q w \<Longrightarrow> Q (allFlagsEffect fetch keys listenerId w)"
proof -
  assume q: "Q w"
  show ?thesis
  proof (cases "client w")
    case (Client c)
    have "Q (registerAllFlagsListener c listenerId w)"
      using q by (simp add: registerAllFlagsListener_def l)
    then have "Q (allFlagsListener fetch keys (registerAllFlagsListener c listenerId w))"
      using a by (rule allFlagsListener_invariant [rotated])
    then show ?thesis using Client by (simp add: allFlagsEffect_def h)
  qed (simp_all add: allFlagsEffect_def h q)
qed

lemma allFlagsCleanup_invariant:
  assumes l: "\<And>u l. Q u \<Longrightarrow> Q (u\<lparr>allFlagsListeners := l\<rparr>)"
    and h: "\<And>u h. Q u \<Longrightarrow> Q (u\<lparr>hookCleanup := h\<rparr>)"
  shows "Q w \<Longrightarrow> Q (allFlagsCleanup w)"
  by (simp add: allFlagsCleanup_def unregisterAllFlagsListener_def l h split: option.split)

lemma notifyAllFlagsListeners_invariant:
  assumes "\<And>u m. Q u \<Longrightarrow> Q (u\<lparr>allFlags := m\<rparr>)"
  shows "Q w \<Longrightarrow> Q (notifyAllFlagsListeners fetch cid keys w)"
  unfolding notifyAllFlagsListeners_def
  by (rule fold_invariant [where Q = "\<lambda>x. True" and P = Q])
    (simp_all add: allFlagsListener_invariant assms)

lemma storeFlag_invariant:
  assumes "\<And>u fl. Q u \<Longrightarrow> Q (u\<lparr>flags := fl\<rparr>)"
  shows "Q w \<Longrightarrow> Q (storeFlag k outcome w)"
  by (simp add: storeFlag_def setFlags_def assms split: sum.split)

lemma notifyFlagListeners_invariant:
  assumes "\<And>k u. Q u \<Longrightarrow> Q (lsn k u)"
  shows "Q w \<Longrightarrow> Q (notifyFlagListeners lsn cid key w)"
  unfolding notifyFlagListeners_def
  by (rule fold_invariant [where Q = "\<lambda>x. True" and P = Q]) (simp_all add: assms)

lemma runDestructors_flagListeners:
  "flagListeners (runDestructors ds w) = filter (\<lambda>e. e \<notin> entryOf ` set ds) (flagListeners w)"
proof (induction ds arbitrary: w)
  case Nil
  show ?case by (simp add: runDestructors_def)
next
  case (Cons d ds)
  obtain c k r where d: "d = (c, k, r)" by (cases d)
  have "runDestructors (d # ds) w = runDestructors ds (unregisterFeatureFlagListener c k r w)"
    by (simp add: runDestructors_def d)
  then show ?case
    using Cons.IH [of "unregisterFeatureFlagListener c k r w"]
    by (simp add: unregisterFeatureFlagListener_def d entryOf_def conj_commute)
qed

lemma getFeatureFlagAsync_cong:
  "getGlobalLdClient u = getGlobalLdClient w \<Longrightarrow>
     getFeatureFlagAsync featureFlags u key dv = getFeatureFlagAsync featureFlags w key dv"
  by (simp add: getFeatureFlagAsync_def split: jsval.split option.split)

section \<open>Client initialisation happens once (variant with the escape hatch)\<close>

lemma initOnce_cong: "initFields w' = initFields w \<Longrightarrow> initOnce w' = initOnce w"
  by (simp add: initFields_def initOnce_def)

lemma initEffect_gated:
  "getGlobalLdClient w \<noteq> None \<or> client w \<noteq> NoClient \<Longrightarrow> initEffect context config newClient w = w"
  by (auto simp: initEffect_def)

lemma step_after_client:
  assumes "globalLdClient w \<noteq> None \<or> client w \<noteq> NoClient" and "initTask w = None"
  shows "initFields (step featureFlags w e) = initFields w"
proof (cases e)
  case (Render x g newClient uniqueId)
  have "initEffect x g newClient w = w"
    using assms(1) by (intro initEffect_gated) (simp add: getGlobalLdClient_def)
  then show ?thesis using Render by simp
next
  case IdentifySettled
  then show ?thesis using assms(2) by (simp add: identifySettled_def)
next
  case (ConfigureSettled uniqueId)
  then show ?thesis using assms(2) by (simp add: configureSettled_def)
next
  case InitRejected
  then show ?thesis using assms(2) by (simp add: initRejected_def initFields_def)
next
  case (FlagChanged cid key)
  then show ?thesis by (simp add: initFields_escapeHatchEffect initFields_notifyFlagListeners)
next
  case (AllFlagsChanged cid updatedKeys)
  then show ?thesis by (simp add: initFields_notifyAllFlagsListeners)
next
  case Unmount
  then show ?thesis by (simp add: initFields_unmount)
qed

lemma run_after_client:
  "globalLdClient w \<noteq> None \<or> client w \<noteq> NoClient \<Longrightarrow> initTask w = None \<Longrightarrow>
     initFields (run featureFlags w events) = initFields w"
proof (induction events rule: rev_induct)
  case Nil
  then show ?case by (simp add: run_def)
next
  case (snoc e events)
  then have eq: "initFields (run featureFlags w events) = initFields w" by simp
  with snoc.prems have "globalLdClient (run featureFlags w events) \<noteq> None
      \<or> client (run featureFlags w events) \<noteq> NoClient"
    and "initTask (run featureFlags w events) = None"
    by (simp_all add: initFields_def)
  then have "initFields (step featureFlags (run featureFlags w events) e)
      = initFields (run featureFlags w events)"
    by (rule step_after_client)
  with eq show ?case by (simp add: run_def)
qed

lemma initOnce_started:
  "client w \<noteq> NoClient \<Longrightarrow> initTask w = Some (c, x, g, False) \<or> initTask w = None \<Longrightarrow>
     sdkCalls w = take 2 (initLog c x g) \<Longrightarrow> initOnce w"
  unfolding initOnce_def by blast

lemma initOnce_configured:
  "client w \<noteq> NoClient \<Longrightarrow> initTask w = Some (c, x, g, True) \<or> initTask w = None \<Longrightarrow>
     sdkCalls w = initLog c x g \<Longrightarrow> initOnce w"
  unfolding initOnce_def by blast

lemma initOnce_initEffect:
  assumes "mounted w" and "initOnce w"
  shows "initOnce (initEffect x g newClient w)"
proof (cases "\<not> truthy x \<or> \<not> truthy g \<or> getGlobalLdClient w \<noteq> None \<or> client w \<noteq> NoClient")
  case True
  then have "initEffect x g newClient w = w" by (auto simp: initEffect_def)
  with assms(2) show ?thesis by simp
next
  case False
  then have fresh: "client w = NoClient" "globalLdClient w = None" "truthy x" "truthy g"
    by (simp_all add: getGlobalLdClient_def)
  with assms(2) have "sdkCalls w = []" by (simp add: initOnce_def)
  with fresh assms(1) have
    "client (initEffect x g newClient w) = Loading"
    "initTask (initEffect x g newClient w) = Some (newClient, x, g, False)"
    "sdkCalls (initEffect x g newClient w) = take 2 (initLog newClient x g)"
    by (simp_all add: initEffect_def getGlobalLdClient_def setClient_def initLog_def)
  then show ?thesis
    by (intro initOnce_started [where c = newClient and x = x and g = g]) simp_all
qed

lemma initOnce_identifySettled:
  assumes "initOnce w"
  shows "initOnce (identifySettled w)"
proof (cases "\<exists>c x g. initTask w = Some (c, x, g, False)")
  case True
  then obtain c x g where t: "initTask w = Some (c, x, g, False)" by blast
  with assms have cl: "client w \<noteq> NoClient" and "\<exists>c' x' g'.
      ((initTask w = Some (c', x', g', False) \<or> initTask w = None)
        \<and> sdkCalls w = take 2 (initLog c' x' g'))
      \<or> ((initTask w = Some (c', x', g', True) \<or> initTask w = None) \<and> sdkCalls w = initLog c' x' g')"
    by (auto simp: initOnce_def)
  with t have calls: "sdkCalls w = take 2 (initLog c x g)" by auto
  have "client (identifySettled w) \<noteq> NoClient"
    "initTask (identifySettled w) = Some (c, x, g, True)"
    "sdkCalls (identifySettled w) = initLog c x g"
    using t cl calls by (simp_all add: identifySettled_def initLog_def)
  then show ?thesis
    by (intro initOnce_configured [where c = c and x = x and g = g]) simp_all
next
  case False
  then have "identifySettled w = w"
    by (cases "initTask w") (auto simp: identifySettled_def split: bool.split)
  with assms show ?thesis by simp
qed

lemma initOnce_configureSettled:
  assumes "initOnce w"
  shows "initOnce (configureSettled featureFlags uniqueId w)"
proof (cases "\<exists>c x g. initTask w = Some (c, x, g, True)")
  case True
  then obtain c x g where t: "initTask w = Some (c, x, g, True)" by blast
  with assms have cl: "client w \<noteq> NoClient" and "\<exists>c' x' g'.
      ((initTask w = Some (c', x', g', False) \<or> initTask w = None)
        \<and> sdkCalls w = take 2 (initLog c' x' g'))
      \<or> ((initTask w = Some (c', x', g', True) \<or> initTask w = None) \<and> sdkCalls w = initLog c' x' g')"
    by (auto simp: initOnce_def)
  with t have calls: "sdkCalls w = initLog c x g" by auto
  let ?u = "setGlobalLdClient c (setClient (Client c) (w\<lparr>initTask := None\<rparr>))"
  have "client ?u \<noteq> NoClient" "initTask ?u = None" "sdkCalls ?u = initLog c x g"
    using cl calls by (simp_all add: setGlobalLdClient_def setClient_def)
  then have "initOnce ?u"
    by (intro initOnce_configured [where c = c and x = x and g = g]) simp_all
  then show ?thesis
    using t by (simp add: configureSettled_def initOnce_cong [OF initFields_clientChanged])
next
  case False
  then have "configureSettled featureFlags uniqueId w = w"
    by (cases "initTask w") (auto simp: configureSettled_def split: bool.split)
  with assms show ?thesis by simp
qed

lemma initOnce_initRejected:
  assumes "initOnce w"
  shows "initOnce (initRejected w)"
proof (cases "client w = NoClient")
  case True
  with assms have "initTask w = None" by (auto simp: initOnce_def)
  then have "initFields (initRejected w) = initFields w"
    by (simp add: initRejected_def initFields_def)
  from initOnce_cong [OF this] assms show ?thesis by simp
next
  case False
  with assms consider c x g where "sdkCalls w = take 2 (initLog c x g)"
    | c x g where "sdkCalls w = initLog c x g"
    unfolding initOnce_def by blast
  then show ?thesis
  proof cases
    case 1
    with False show ?thesis
      by (intro initOnce_started [where c = c and x = x and g = g])
        (simp_all add: initRejected_def)
  next
    case 2
    with False show ?thesis
      by (intro initOnce_configured [where c = c and x = x and g = g])
        (simp_all add: initRejected_def)
  qed
qed

lemma initOnce_step:
  assumes "initOnce w"
  shows "initOnce (step featureFlags w e)"
proof (cases e)
  case (Render x g newClient uniqueId)
  show ?thesis
  proof (cases "mounted w")
    case True
    then have a: "initOnce (initEffect x g newClient w)"
      using assms by (rule initOnce_initEffect)
    then have b: "initOnce (clientChanged featureFlags uniqueId (initEffect x g newClient w))"
      by (simp only: initOnce_cong [OF initFields_clientChanged])
    show ?thesis
      unfolding Render step.simps Let_def using True a b by (simp only: if_True split: if_split) blast
  next
    case False
    then show ?thesis using assms Render by simp
  qed
next
  case IdentifySettled
  then show ?thesis using assms by (simp add: initOnce_identifySettled)
next
  case (ConfigureSettled uniqueId)
  then show ?thesis using assms by (simp add: initOnce_configureSettled)
next
  case InitRejected
  then show ?thesis using assms by (simp add: initOnce_initRejected)
next
  case (FlagChanged cid key)
  have eq: "initFields (step featureFlags w e) = initFields w"
    using FlagChanged by (simp add: initFields_escapeHatchEffect initFields_notifyFlagListeners)
  show ?thesis using assms initOnce_cong [OF eq] by simp
next
  case (AllFlagsChanged cid updatedKeys)
  have eq: "initFields (step featureFlags w e) = initFields w"
    using AllFlagsChanged by (simp add: initFields_notifyAllFlagsListeners)
  show ?thesis using assms initOnce_cong [OF eq] by simp
next
  case Unmount
  have eq: "initFields (step featureFlags w e) = initFields w"
    using Unmount by (simp add: initFields_unmount)
  show ?thesis using assms initOnce_cong [OF eq] by simp
qed

lemma initOnce_run: "initOnce w \<Longrightarrow> initOnce (run featureFlags w events)"
  by (induction events rule: rev_induct) (simp_all add: run_def initOnce_step)

lemma initOnce_initialWorld: "initOnce initialWorld"
  by (simp add: initOnce_def initialWorld_def)

lemma initOnce_counts:
  assumes "initOnce w"
  shows "length (filter isNewClient (sdkCalls w)) \<le> 1
     \<and> length (filter isIdentify (sdkCalls w)) \<le> 1
     \<and> length (filter isConfigure (sdkCalls w)) \<le> 1"
proof -
  from assms consider "sdkCalls w = []"
    | c x g where "sdkCalls w = take 2 (initLog c x g)"
    | c x g where "sdkCalls w = initLog c x g"
    unfolding initOnce_def by blast
  then show ?thesis
    by cases (simp_all add: initLog_def)
qed

section \<open>What the subscription loop stores and registers\<close>

lemma subscribe_nextListener:
  assumes "\<And>k u. nextListener (lsn k u) = nextListener u"
  shows "nextListener (fst (subscribe lsn c keys w)) = nextListener w + length keys"
proof (induction keys arbitrary: w)
  case Nil
  show ?case by simp
next
  case (Cons key keys)
  show ?case
    by (simp add: Let_def case_prod_beta Cons.IH assms registerFeatureFlagListener_def)
qed

lemma subscribe_destructors:
  assumes "\<And>k u. nextListener (lsn k u) = nextListener u"
  shows "snd (subscribe lsn c keys w) =
           map (\<lambda>(k, callback). (c, k, callback))
             (zip keys [nextListener w ..< nextListener w + length keys])"
proof (induction keys arbitrary: w)
  case Nil
  show ?case by simp
next
  case (Cons key keys)
  have "[nextListener w ..< nextListener w + length (key # keys)]
          = nextListener w # [Suc (nextListener w) ..< Suc (nextListener w) + length keys]"
    using upt_conv_Cons [of "nextListener w" "nextListener w + length (key # keys)"] by simp
  then show ?case
    by (simp add: Let_def case_prod_beta Cons.IH assms registerFeatureFlagListener_def)
qed

lemma subscribe_flagListeners:
  assumes "\<And>k u. flagListeners (lsn k u) = flagListeners u"
  shows "flagListeners (fst (subscribe lsn c keys w)) =
           flagListeners w @ map entryOf (snd (subscribe lsn c keys w))"
proof (induction keys arbitrary: w)
  case Nil
  show ?case by simp
next
  case (Cons key keys)
  show ?case
    by (simp add: Let_def case_prod_beta Cons.IH assms registerFeatureFlagListener_def entryOf_def)
qed

lemma subscribe_flags:
  assumes lsn: "\<And>k u. Q u \<Longrightarrow> lsn k u = storeFlag k (fetch k) u"
    and m: "\<And>u. Q u \<Longrightarrow> mounted u"
    and f: "\<And>u fl. Q u \<Longrightarrow> Q (u\<lparr>flags := fl\<rparr>)"
    and n: "\<And>u n. Q u \<Longrightarrow> Q (u\<lparr>nextListener := n\<rparr>)"
    and r: "\<And>u l. Q u \<Longrightarrow> Q (u\<lparr>flagListeners := l\<rparr>)"
  shows "Q w \<Longrightarrow>
    flags (fst (subscribe lsn c keys w)) = fold (\<lambda>k. stored k (fetch k)) keys (flags w)"
proof (induction keys arbitrary: w)
  case Nil
  show ?case by simp
next
  case (Cons key keys)
  let ?w0 = "w\<lparr>nextListener := Suc (nextListener w)\<rparr>"
  let ?w1 = "lsn key ?w0"
  let ?w2 = "registerFeatureFlagListener c key (nextListener w) ?w1"
  have q0: "Q ?w0" using Cons.prems by (rule n)
  then have w1: "?w1 = storeFlag key (fetch key) ?w0" by (rule lsn)
  have m0: "mounted ?w0" using q0 by (rule m)
  have fl1: "flags ?w1 = stored key (fetch key) (flags w)"
    using m0 by (simp add: w1 storeFlag_def stored_def setFlags_def split: sum.split)
  have q1: "Q ?w1"
    using q0 f [OF q0] by (simp add: w1 storeFlag_def setFlags_def split: sum.split)
  have q2: "Q ?w2" using r [OF q1] by (simp add: registerFeatureFlagListener_def)
  have fl2: "flags ?w2 = stored key (fetch key) (flags w)"
    using fl1 by (simp add: registerFeatureFlagListener_def)
  show ?case
    using Cons.IH [OF q2] fl2 by (simp add: Let_def case_prod_beta)
qed

lemma entries_stored_other:
  "k' \<noteq> k \<Longrightarrow> entries (stored k outcome fl) k' = entries fl k'"
  by (simp add: stored_def spread_def entries_def split: sum.split option.split)

lemma entries_stored_same: "entries (stored k (Inr v) fl) k = Some v"
  by (simp add: stored_def spread_def entries_def)

lemma opt_index_entries: "entries fl k = Some v \<Longrightarrow> opt_index fl k = v"
  by (cases fl) (simp_all add: entries_def opt_index_def)

lemma opt_index_stored_other:
  "k' \<noteq> k \<Longrightarrow> fl \<noteq> None \<or> \<not> inherited k' \<Longrightarrow>
     opt_index (stored k outcome fl) k' = opt_index fl k'"
  by (auto simp: stored_def spread_def opt_index_def inheritedProperty_def
      split: sum.split option.split)

lemma opt_index_stored_same: "opt_index (stored k (Inr v) fl) k = v"
  by (simp add: stored_def spread_def opt_index_def)

lemma fold_stored_other:
  "k \<notin> set keys \<Longrightarrow> entries (fold (\<lambda>k. stored k (fetch k)) keys fl) k = entries fl k"
  by (induction keys arbitrary: fl) (auto simp: entries_stored_other)

lemma fold_stored_lookup:
  "k \<in> set keys \<Longrightarrow> fetch k = Inr v \<Longrightarrow>
     opt_index (fold (\<lambda>k. stored k (fetch k)) keys fl) k = v"
proof (induction keys arbitrary: fl)
  case Nil
  then show ?case by simp
next
  case (Cons key keys)
  show ?case
  proof (cases "k \<in> set keys")
    case True
    then show ?thesis using Cons.IH Cons.prems(2) by simp
  next
    case False
    with Cons.prems have "key = k" by simp
    with False Cons.prems(2) show ?thesis
      by (simp add: opt_index_entries fold_stored_other entries_stored_same)
  qed
qed

lemma stored_idem: "stored k outcome (stored k outcome fl) = stored k outcome fl"
  by (simp add: stored_def spread_def split: sum.split)

lemma fold_same:
  assumes "h (h u) = h u"
  shows "fold (\<lambda>e. h) es u = (if es = [] then u else h u)"
proof (induction es)
  case Nil
  show ?case by simp
next
  case (Cons e es)
  have "fold (\<lambda>e. h) es (h u) = h u"
  proof (induction es)
    case Nil
    show ?case by simp
  next
    case (Cons e' es')
    then show ?case using assms by simp
  qed
  then show ?case by simp
qed

lemma storeFlag_tables:
  "nextListener (storeFlag k outcome u) = nextListener u"
  "flagListeners (storeFlag k outcome u) = flagListeners u"
  "mounted (storeFlag k outcome u) = mounted u"
  "globalLdClient (storeFlag k outcome u) = globalLdClient u"
  "world.more (storeFlag k outcome u) = world.more u"
  by (simp_all add: storeFlag_def setFlags_def split: sum.split)

lemma storeFlag_flags:
  "flags (storeFlag k outcome u) = (if mounted u then stored k outcome (flags u) else flags u)"
  by (simp add: storeFlag_def setFlags_def stored_def split: sum.split)

lemma subscribeEffect_flags:
  fixes w :: "'a hatch_world_scheme"
  assumes "client w = Client c" and "mounted w"
  shows "flags (subscribeEffect featureFlags w) =
     fold (\<lambda>k. stored k (getFeatureFlagAsync featureFlags w (JStr k) JUndefined))
       (Object_keys featureFlags) (flags w)"
proof -
  let ?Q = "\<lambda>u::'a hatch_world_scheme. getGlobalLdClient u = getGlobalLdClient w \<and> mounted u"
  have "flags (fst (subscribe (listener featureFlags) c (Object_keys featureFlags) w)) =
      fold (\<lambda>k. stored k (getFeatureFlagAsync featureFlags w (JStr k) JUndefined))
        (Object_keys featureFlags) (flags w)"
  proof (rule subscribe_flags [where Q = ?Q])
    fix k u
    assume "?Q u"
    then show "listener featureFlags k u
        = storeFlag k (getFeatureFlagAsync featureFlags w (JStr k) JUndefined) u"
      by (simp add: listener_def getFeatureFlagAsync_cong [of u w])
  qed (simp_all add: assms getGlobalLdClient_def)
  then show ?thesis
    using assms(1) by (simp add: subscribeEffect_def case_prod_beta)
qed

lemma subscribeEffect_destructors:
  assumes "client w = Client c"
  shows "destructors (subscribeEffect featureFlags w) =
     map (\<lambda>(k, callback). (c, k, callback))
       (zip (Object_keys featureFlags)
          [nextListener w ..< nextListener w + length (Object_keys featureFlags)])"
  using assms subscribe_destructors [of "listener featureFlags" c "Object_keys featureFlags" w]
  by (simp add: subscribeEffect_def case_prod_beta listener_def storeFlag_tables)

lemma subscribeEffect_flagListeners:
  assumes "client w = Client c"
  shows "flagListeners (subscribeEffect featureFlags w) =
     flagListeners w @ map entryOf (destructors (subscribeEffect featureFlags w))"
  using assms subscribe_flagListeners [of "listener featureFlags" c "Object_keys featureFlags" w]
  by (simp add: subscribeEffect_def case_prod_beta listener_def storeFlag_tables)

lemma hookPhase_frame:
  fixes w :: "'a hatch_world_scheme" and featureFlags :: named_flags and uniqueId :: string
  defines "w2 \<equiv> allFlagsEffect (useAllFeatureFlags_fetch featureFlags) (Object_keys featureFlags) uniqueId
                  (subscribeCleanup (allFlagsCleanup w))"
  shows "client w2 = client w \<and> mounted w2 = mounted w \<and> globalLdClient w2 = globalLdClient w
     \<and> flags w2 = flags w \<and> nextListener w2 = nextListener w
     \<and> flagListeners w2 = filter (\<lambda>e. e \<notin> entryOf ` set (destructors w)) (flagListeners w)"
proof -
  let ?Q = "\<lambda>u::'a hatch_world_scheme. client u = client w \<and> mounted u = mounted w
      \<and> globalLdClient u = globalLdClient w \<and> flags u = flags w \<and> nextListener u = nextListener w"
  let ?R = "\<lambda>u::'a hatch_world_scheme. flagListeners u = flagListeners w \<and> destructors u = destructors w"
  have q1: "?Q (allFlagsCleanup w)"
    by (rule allFlagsCleanup_invariant [where Q = ?Q]) simp_all
  have r1: "?R (allFlagsCleanup w)"
    by (rule allFlagsCleanup_invariant [where Q = ?R]) simp_all
  have "?Q (runDestructors (destructors (allFlagsCleanup w)) (allFlagsCleanup w))"
    using q1 by (intro runDestructors_invariant [where Q = ?Q]) simp_all
  then have q2: "?Q (subscribeCleanup (allFlagsCleanup w))"
    by (simp add: subscribeCleanup_def)
  have l2: "flagListeners (subscribeCleanup (allFlagsCleanup w))
      = filter (\<lambda>e. e \<notin> entryOf ` set (destructors w)) (flagListeners w)"
    using r1 by (simp add: subscribeCleanup_def runDestructors_flagListeners)
  have q3: "?Q w2"
    unfolding w2_def using q2 by (intro allFlagsEffect_invariant [where Q = ?Q]) simp_all
  let ?S = "\<lambda>u::'a hatch_world_scheme. flagListeners u
      = filter (\<lambda>e. e \<notin> entryOf ` set (destructors w)) (flagListeners w)"
  have "?S w2"
    unfolding w2_def using l2 by (intro allFlagsEffect_invariant [where Q = ?S]) simp_all
  with q3 show ?thesis by simp
qed

lemma clientChanged_ready:
  fixes w :: "'a hatch_world_scheme"
  assumes "client w = Client c" and "mounted w"
  shows "flags (clientChanged featureFlags uniqueId w) =
       fold (\<lambda>k. stored k (getFeatureFlagAsync featureFlags w (JStr k) JUndefined))
         (Object_keys featureFlags) (flags w)"
    and "flagListeners (clientChanged featureFlags uniqueId w) =
       filter (\<lambda>e. e \<notin> entryOf ` set (destructors w)) (flagListeners w)
       @ map (\<lambda>(k, callback). (clientId c, k, callback))
           (zip (Object_keys featureFlags)
              [nextListener w ..< nextListener w + length (Object_keys featureFlags)])"
    and "escapeHatchFlags (clientChanged featureFlags uniqueId w)
       = flags (clientChanged featureFlags uniqueId w)"
proof -
  define w2 where "w2 = allFlagsEffect (useAllFeatureFlags_fetch featureFlags)
      (Object_keys featureFlags) uniqueId (subscribeCleanup (allFlagsCleanup w))"
  have fr: "client w2 = client w \<and> mounted w2 = mounted w \<and> globalLdClient w2 = globalLdClient w
     \<and> flags w2 = flags w \<and> nextListener w2 = nextListener w
     \<and> flagListeners w2 = filter (\<lambda>e. e \<notin> entryOf ` set (destructors w)) (flagListeners w)"
    unfolding w2_def by (rule hookPhase_frame)
  have cc: "clientChanged featureFlags uniqueId w = escapeHatchEffect (subscribeEffect featureFlags w2)"
    using assms(2) by (simp add: clientChanged_def w2_def)
  have c2: "client w2 = Client c" and m2: "mounted w2" using fr assms by simp_all
  have g2: "getGlobalLdClient w2 = getGlobalLdClient w" using fr by (simp add: getGlobalLdClient_def)
  have f: "flags (subscribeEffect featureFlags w2) =
      fold (\<lambda>k. stored k (getFeatureFlagAsync featureFlags w (JStr k) JUndefined))
        (Object_keys featureFlags) (flags w)"
    using subscribeEffect_flags [OF c2 m2, of featureFlags] fr
    by (simp add: getFeatureFlagAsync_cong [OF g2])
  show "flags (clientChanged featureFlags uniqueId w) =
       fold (\<lambda>k. stored k (getFeatureFlagAsync featureFlags w (JStr k) JUndefined))
         (Object_keys featureFlags) (flags w)"
    using f by (simp add: cc escapeHatchEffect_def)
  have "map entryOf (map (\<lambda>(k, callback). (c, k, callback)) zs)
      = map (\<lambda>(k, callback). (clientId c, k, callback)) zs" for zs :: "(string \<times> nat) list"
    by (simp add: entryOf_def case_prod_beta)
  then show "flagListeners (clientChanged featureFlags uniqueId w) =
       filter (\<lambda>e. e \<notin> entryOf ` set (destructors w)) (flagListeners w)
       @ map (\<lambda>(k, callback). (clientId c, k, callback))
           (zip (Object_keys featureFlags)
              [nextListener w ..< nextListener w + length (Object_keys featureFlags)])"
    using subscribeEffect_flagListeners [OF c2, of featureFlags]
      subscribeEffect_destructors [OF c2, of featureFlags] fr
    by (simp add: cc escapeHatchEffect_def)
  have "mounted (subscribeEffect featureFlags w2)"
    using c2 m2
      subscribe_invariant [where Q = mounted and lsn = "listener featureFlags" and w = w2
        and c = c and keys = "Object_keys featureFlags"]
    by (simp add: subscribeEffect_def case_prod_beta listener_def storeFlag_tables)
  then show "escapeHatchFlags (clientChanged featureFlags uniqueId w)
       = flags (clientChanged featureFlags uniqueId w)"
    by (simp add: cc escapeHatchEffect_def)
qed

lemma configureSettled_ready:
  fixes w :: "'a hatch_world_scheme"
  assumes t: "initTask w = Some (c, x, g, True)" and m: "mounted w"
  shows "client (configureSettled featureFlags uniqueId w) = Client c"
    and "getGlobalLdClient (configureSettled featureFlags uniqueId w) = Some c"
    and "flags (configureSettled featureFlags uniqueId w) =
       fold (\<lambda>k. stored k (getFeatureFlagAsync featureFlags
                (configureSettled featureFlags uniqueId w) (JStr k) JUndefined))
         (Object_keys featureFlags) (flags w)"
    and "flagListeners (configureSettled featureFlags uniqueId w) =
       filter (\<lambda>e. e \<notin> entryOf ` set (destructors w)) (flagListeners w)
       @ map (\<lambda>(k, callback). (clientId c, k, callback))
           (zip (Object_keys featureFlags)
              [nextListener w ..< nextListener w + length (Object_keys featureFlags)])"
    and "escapeHatchFlags (configureSettled featureFlags uniqueId w)
       = flags (configureSettled featureFlags uniqueId w)"
proof -
  define w1 where "w1 = setGlobalLdClient c (setClient (Client c) (w\<lparr>initTask := None\<rparr>))"
  have cs: "configureSettled featureFlags uniqueId w = clientChanged featureFlags uniqueId w1"
    using t by (simp add: configureSettled_def w1_def)
  have w1: "client w1 = Client c" "mounted w1" "globalLdClient w1 = Some c" "flags w1 = flags w"
    "destructors w1 = destructors w" "flagListeners w1 = flagListeners w"
    "nextListener w1 = nextListener w"
    using m by (simp_all add: w1_def setGlobalLdClient_def setClient_def)
  have fields: "initFields (clientChanged featureFlags uniqueId w1) = initFields w1"
    by (rule initFields_clientChanged)
  show "client (configureSettled featureFlags uniqueId w) = Client c"
    using fields w1 by (simp add: cs initFields_def)
  show g: "getGlobalLdClient (configureSettled featureFlags uniqueId w) = Some c"
    using fields w1 by (simp add: cs initFields_def getGlobalLdClient_def)
  have "getGlobalLdClient (configureSettled featureFlags uniqueId w) = getGlobalLdClient w1"
    using g w1 by (simp add: getGlobalLdClient_def)
  then have same: "getFeatureFlagAsync featureFlags (configureSettled featureFlags uniqueId w) key dv
      = getFeatureFlagAsync featureFlags w1 key dv" for key dv
    by (rule getFeatureFlagAsync_cong)
  show "flags (configureSettled featureFlags uniqueId w) =
       fold (\<lambda>k. stored k (getFeatureFlagAsync featureFlags
                (configureSettled featureFlags uniqueId w) (JStr k) JUndefined))
         (Object_keys featureFlags) (flags w)"
    unfolding same using clientChanged_ready(1) [OF w1(1) w1(2), of featureFlags uniqueId] w1
    by (simp add: cs)
  show "flagListeners (configureSettled featureFlags uniqueId w) =
       filter (\<lambda>e. e \<notin> entryOf ` set (destructors w)) (flagListeners w)
       @ map (\<lambda>(k, callback). (clientId c, k, callback))
           (zip (Object_keys featureFlags)
              [nextListener w ..< nextListener w + length (Object_keys featureFlags)])"
    using clientChanged_ready(2) [OF w1(1) w1(2), of featureFlags uniqueId] w1 by (simp add: cs)
  show "escapeHatchFlags (configureSettled featureFlags uniqueId w)
       = flags (configureSettled featureFlags uniqueId w)"
    using clientChanged_ready(3) [OF w1(1) w1(2), of featureFlags uniqueId] by (simp add: cs)
qed

lemma registered_key:
  assumes "k \<in> set keys"
  shows "\<exists>callback. (cid, k, callback)
     \<in> set (old @ map (\<lambda>(k, callback). (cid, k, callback)) (zip keys [n ..< n + length keys]))"
proof -
  have "length keys = length [n ..< n + length keys]" by simp
  then obtain r where "(k, r) \<in> set (zip keys [n ..< n + length keys])"
    using assms in_set_impl_in_set_zip1 by metis
  then have "(cid, k, r) \<in> (\<lambda>(k, callback). (cid, k, callback)) ` set (zip keys [n ..< n + length keys])"
    by force
  then show ?thesis by auto
qed

lemma listener_idem:
  "listener featureFlags k (listener featureFlags k u) = listener featureFlags k u"
proof -
  have "getGlobalLdClient (listener featureFlags k u) = getGlobalLdClient u"
    by (simp add: listener_def getGlobalLdClient_def storeFlag_tables)
  then have "getFeatureFlagAsync featureFlags (listener featureFlags k u) (JStr k) JUndefined
      = getFeatureFlagAsync featureFlags u (JStr k) JUndefined"
    by (rule getFeatureFlagAsync_cong)
  then show ?thesis
    by (simp add: listener_def storeFlag_def setFlags_def spread_def split: sum.split)
qed

lemma notifyFlagListeners_flags:
  "flags (notifyFlagListeners (listener featureFlags) cid k u) =
     (if mounted u \<and> (\<exists>callback. (cid, k, callback) \<in> set (flagListeners u))
      then stored k (getFeatureFlagAsync featureFlags u (JStr k) JUndefined) (flags u)
      else flags u)"
proof -
  let ?es = "filter (\<lambda>(c, k', callback). c = cid \<and> k' = k) (flagListeners u)"
  have e: "(?es = []) = (\<not> (\<exists>callback. (cid, k, callback) \<in> set (flagListeners u)))"
    by (auto simp: filter_empty_conv)
  have "notifyFlagListeners (listener featureFlags) cid k u
      = (if ?es = [] then u else listener featureFlags k u)"
    unfolding notifyFlagListeners_def by (rule fold_same) (rule listener_idem)
  then show ?thesis
    unfolding e by (auto simp: listener_def storeFlag_flags)
qed

lemma step_FlagChanged_flags:
  "flags (step featureFlags u (FlagChanged cid k)) =
     (if mounted u \<and> (\<exists>callback. (cid, k, callback) \<in> set (flagListeners u))
      then stored k (getFeatureFlagAsync featureFlags u (JStr k) JUndefined) (flags u)
      else flags u)"
  using notifyFlagListeners_flags [of featureFlags cid k u]
  by (auto simp: escapeHatchEffect_def)

section \<open>The provider of factory.tsx\<close>

lemma storeFlag_globalGetFeatureFlag:
  "globalGetFeatureFlag (storeFlag k outcome u) = globalGetFeatureFlag u"
  by (simp add: storeFlag_def setFlags_def split: sum.split)

lemma factory_listener_idem:
  "factory_listener k (factory_listener k u) = factory_listener k u"
  by (simp add: factory_listener_def getFeatureFlag_def storeFlag_globalGetFeatureFlag)
    (simp add: storeFlag_def setFlags_def spread_def split: sum.split)

lemma factory_notifyFlagListeners_flags:
  "flags (notifyFlagListeners factory_listener cid k u) =
     (if mounted u \<and> (\<exists>callback. (cid, k, callback) \<in> set (flagListeners u))
      then stored k (getFeatureFlag u k JUndefined) (flags u)
      else flags u)"
proof -
  let ?es = "filter (\<lambda>(c, k', callback). c = cid \<and> k' = k) (flagListeners u)"
  have e: "(?es = []) = (\<not> (\<exists>callback. (cid, k, callback) \<in> set (flagListeners u)))"
    by (auto simp: filter_empty_conv)
  have "notifyFlagListeners factory_listener cid k u
      = (if ?es = [] then u else factory_listener k u)"
    unfolding notifyFlagListeners_def by (rule fold_same) (rule factory_listener_idem)
  then show ?thesis
    unfolding e by (auto simp: factory_listener_def storeFlag_flags)
qed

lemma factoryFields_factory_listener: "factoryFields (factory_listener k u) = factoryFields u"
  by (simp add: factoryFields_def factory_listener_def storeFlag_def setFlags_def split: sum.split)

lemma factoryFields_notifyFlagListeners:
  "factoryFields (notifyFlagListeners factory_listener cid key w) = factoryFields w"
  by (rule notifyFlagListeners_invariant [where Q = "\<lambda>u. factoryFields u = factoryFields w"])
    (simp_all add: factoryFields_factory_listener)

lemma factoryFields_allFlagsCleanup: "factoryFields (allFlagsCleanup w) = factoryFields w"
  by (rule allFlagsCleanup_invariant [where Q = "\<lambda>u. factoryFields u = factoryFields w"])
    (simp_all add: factoryFields_def)

lemma factoryFields_allFlagsEffect:
  "factoryFields (allFlagsEffect fetch keys listenerId w) = factoryFields w"
  by (rule allFlagsEffect_invariant [where Q = "\<lambda>u. factoryFields u = factoryFields w"])
    (simp_all add: factoryFields_def)

lemma factoryFields_notifyAllFlagsListeners:
  "factoryFields (notifyAllFlagsListeners fetch cid keys w) = factoryFields w"
  by (rule notifyAllFlagsListeners_invariant [where Q = "\<lambda>u. factoryFields u = factoryFields w"])
    (simp_all add: factoryFields_def)

lemma factoryFields_factory_clientChanged:
  "factoryFields (factory_clientChanged featureFlags w) = factoryFields w"
  by (simp add: factory_clientChanged_def factoryFields_allFlagsEffect factoryFields_allFlagsCleanup)

lemma factoryFields_factory_unmount: "factoryFields (factory_unmount w) = factoryFields w"
  using factoryFields_allFlagsCleanup [of w] by (simp add: factory_unmount_def factoryFields_def)

lemma factory_providerEffect_ready:
  fixes w :: "'a factory_world_scheme" and JSON_parse :: "jsval \<Rightarrow> error + jsval"
    and featureFlags :: named_flags and x g :: jsval and c :: ld_client
  assumes "truthy x" and "truthy g" and m: "mounted w"
  defines "w' \<equiv> factory_providerEffect JSON_parse featureFlags x g c w"
  shows "factoryFields w' =
       (Some c, getGetFeatureFlag JSON_parse featureFlags c, Client c, sdkCalls w @ initLog c x g)"
    and "flags w' =
       fold (\<lambda>k. stored k (getGetFeatureFlag JSON_parse featureFlags c k JUndefined))
         (Object_keys featureFlags) (flags w)"
    and "flagListeners w' =
       flagListeners w
       @ map (\<lambda>(k, callback). (clientId c, k, callback))
           (zip (Object_keys featureFlags)
              [nextListener w ..< nextListener w + length (Object_keys featureFlags)])"
    and "destructors w' = destructors w"
    and "mounted w'"
proof -
  define w3 where "w3 = factory_setGlobalLdClient JSON_parse featureFlags c
      (setClient (Client c) (w\<lparr>sdkCalls := sdkCalls w @ initLog c x g\<rparr>))"
  have w': "w' = fst (subscribe factory_listener c (Object_keys featureFlags) w3)"
    using assms(1,2)
    by (simp add: w'_def factory_providerEffect_def w3_def Let_def case_prod_beta initLog_def)
  have w3: "factoryFields w3 =
      (Some c, getGetFeatureFlag JSON_parse featureFlags c, Client c, sdkCalls w @ initLog c x g)"
    "mounted w3" "flags w3 = flags w" "flagListeners w3 = flagListeners w"
    "nextListener w3 = nextListener w" "destructors w3 = destructors w"
    using m by (simp_all add: w3_def factory_setGlobalLdClient_def setClient_def factoryFields_def)
  have "factoryFields w' = factoryFields w3"
    unfolding w'
    by (rule subscribe_invariant [where Q = "\<lambda>u. factoryFields u = factoryFields w3"])
      (simp_all add: factoryFields_factory_listener, simp_all add: factoryFields_def)
  with w3 show "factoryFields w' =
      (Some c, getGetFeatureFlag JSON_parse featureFlags c, Client c, sdkCalls w @ initLog c x g)"
    by simp
  let ?Q = "\<lambda>u::'a factory_world_scheme. globalGetFeatureFlag u = globalGetFeatureFlag w3 \<and> mounted u"
  have g3: "globalGetFeatureFlag w3 = getGetFeatureFlag JSON_parse featureFlags c"
    using w3(1) by (simp add: factoryFields_def)
  have "flags (fst (subscribe factory_listener c (Object_keys featureFlags) w3)) =
      fold (\<lambda>k. stored k (getGetFeatureFlag JSON_parse featureFlags c k JUndefined))
        (Object_keys featureFlags) (flags w3)"
    by (rule subscribe_flags [where Q = ?Q])
      (simp_all add: factory_listener_def getFeatureFlag_def g3 w3)
  then show "flags w' =
       fold (\<lambda>k. stored k (getGetFeatureFlag JSON_parse featureFlags c k JUndefined))
         (Object_keys featureFlags) (flags w)"
    by (simp add: w' w3)
  have nl: "nextListener (factory_listener k u) = nextListener u"
    and fl: "flagListeners (factory_listener k u) = flagListeners u"
    for k and u :: "'a factory_world_scheme"
    by (simp_all add: factory_listener_def storeFlag_tables)
  have "map entryOf (map (\<lambda>(k, callback). (c, k, callback)) zs)
      = map (\<lambda>(k, callback). (clientId c, k, callback)) zs" for zs :: "(string \<times> nat) list"
    by (simp add: entryOf_def case_prod_beta)
  then show "flagListeners w' =
       flagListeners w
       @ map (\<lambda>(k, callback). (clientId c, k, callback))
           (zip (Object_keys featureFlags)
              [nextListener w ..< nextListener w + length (Object_keys featureFlags)])"
    using subscribe_flagListeners [of factory_listener c "Object_keys featureFlags" w3, OF fl]
      subscribe_destructors [of factory_listener c "Object_keys featureFlags" w3, OF nl]
    by (simp add: w' w3)
  have "destructors w' = destructors w3"
    unfolding w'
    by (rule subscribe_invariant [where Q = "\<lambda>u. destructors u = destructors w3"])
      (simp_all add: factory_listener_def storeFlag_def setFlags_def split: sum.split)
  then show "destructors w' = destructors w" by (simp add: w3)
  show "mounted w'"
    unfolding w'
    by (rule subscribe_invariant [where Q = mounted])
      (simp_all add: factory_listener_def storeFlag_tables w3)
qed

lemma factory_clientChanged_provider:
  fixes w :: "'a factory_world_scheme"
  shows "flags (factory_clientChanged featureFlags w) = flags w
     \<and> flagListeners (factory_clientChanged featureFlags w) = flagListeners w
     \<and> destructors (factory_clientChanged featureFlags w) = destructors w
     \<and> mounted (factory_clientChanged featureFlags w) = mounted w"
proof -
  let ?Q = "\<lambda>u::'a factory_world_scheme. flags u = flags w \<and> flagListeners u = flagListeners w
      \<and> destructors u = destructors w \<and> mounted u = mounted w"
  have "?Q (allFlagsCleanup w)"
    by (rule allFlagsCleanup_invariant [where Q = ?Q]) simp_all
  then have "?Q (allFlagsEffect factory_useAllFeatureFlags_fetch (Object_keys featureFlags)
      ''herpnerp'' (allFlagsCleanup w))"
    by (intro allFlagsEffect_invariant [where Q = ?Q]) simp_all
  then show ?thesis by (simp add: factory_clientChanged_def)
qed

lemma factory_step_Render:
  fixes w :: "'a factory_world_scheme" and JSON_parse :: "jsval \<Rightarrow> error + jsval"
    and featureFlags :: named_flags and x g :: jsval and c :: ld_client and uniqueId :: string
  assumes "truthy x" and "truthy g" and m: "mounted w"
  defines "w' \<equiv> factory_step JSON_parse featureFlags w (Render x g c uniqueId)"
  shows "factoryFields w' =
       (Some c, getGetFeatureFlag JSON_parse featureFlags c, Client c, sdkCalls w @ initLog c x g)"
    and "flags w' =
       fold (\<lambda>k. stored k (getGetFeatureFlag JSON_parse featureFlags c k JUndefined))
         (Object_keys featureFlags) (flags w)"
    and "flagListeners w' =
       flagListeners w
       @ map (\<lambda>(k, callback). (clientId c, k, callback))
           (zip (Object_keys featureFlags)
              [nextListener w ..< nextListener w + length (Object_keys featureFlags)])"
    and "destructors w' = destructors w"
    and "mounted w'"
proof -
  define w1 where "w1 = factory_providerEffect JSON_parse featureFlags x g c w"
  have cases: "w' = w1 \<or> w' = factory_clientChanged featureFlags w1"
    using m by (simp add: w'_def w1_def Let_def)
  note r = factory_providerEffect_ready [OF assms(1,2) m, of JSON_parse featureFlags c, folded w1_def]
  note cc = factory_clientChanged_provider [of featureFlags w1]
    factoryFields_factory_clientChanged [of featureFlags w1]
  show "factoryFields w' =
       (Some c, getGetFeatureFlag JSON_parse featureFlags c, Client c, sdkCalls w @ initLog c x g)"
    using cases r(1) cc by auto
  show "flags w' =
       fold (\<lambda>k. stored k (getGetFeatureFlag JSON_parse featureFlags c k JUndefined))
         (Object_keys featureFlags) (flags w)"
    using cases r(2) cc by auto
  show "flagListeners w' =
       flagListeners w
       @ map (\<lambda>(k, callback). (clientId c, k, callback))
           (zip (Object_keys featureFlags)
              [nextListener w ..< nextListener w + length (Object_keys featureFlags)])"
    using cases r(3) cc by auto
  show "destructors w' = destructors w"
    using cases r(4) cc by auto
  show "mounted w'"
    using cases r(5) cc by auto
qed

lemma fetcherBound_cong:
  "factoryFields w' = factoryFields w \<Longrightarrow>
     fetcherBound JSON_parse featureFlags w' = fetcherBound JSON_parse featureFlags w"
  by (simp add: factoryFields_def fetcherBound_def)

lemma fetcherBound_step:
  assumes b: "fetcherBound JSON_parse featureFlags w"
  shows "fetcherBound JSON_parse featureFlags (factory_step JSON_parse featureFlags w e)"
proof (cases e)
  case (Render x g c uniqueId)
  show ?thesis
  proof (cases "mounted w \<and> truthy x \<and> truthy g")
    case True
    then have "factoryFields (factory_step JSON_parse featureFlags w (Render x g c uniqueId)) =
       (Some c, getGetFeatureFlag JSON_parse featureFlags c, Client c, sdkCalls w @ initLog c x g)"
      by (intro factory_step_Render(1)) simp_all
    then show ?thesis
      unfolding Render by (simp add: factoryFields_def fetcherBound_def)
  next
    case False
    then have "factory_step JSON_parse featureFlags w e = w"
      unfolding Render by (auto simp: factory_providerEffect_def)
    with b show ?thesis by simp
  qed
next
  case IdentifySettled
  with b show ?thesis by simp
next
  case (ConfigureSettled uniqueId)
  with b show ?thesis by simp
next
  case InitRejected
  with b show ?thesis by simp
next
  case (FlagChanged cid key)
  have "factoryFields (factory_step JSON_parse featureFlags w e) = factoryFields w"
    unfolding FlagChanged by (simp add: factoryFields_notifyFlagListeners)
  from fetcherBound_cong [OF this] b show ?thesis by simp
next
  case (AllFlagsChanged cid updatedKeys)
  have "factoryFields (factory_step JSON_parse featureFlags w e) = factoryFields w"
    unfolding AllFlagsChanged by (simp add: factoryFields_notifyAllFlagsListeners)
  from fetcherBound_cong [OF this] b show ?thesis by simp
next
  case Unmount
  have "factoryFields (factory_step JSON_parse featureFlags w e) = factoryFields w"
    unfolding Unmount by (simp add: factoryFields_factory_unmount)
  from fetcherBound_cong [OF this] b show ?thesis by simp
qed

lemma fetcherBound_run:
  "fetcherBound JSON_parse featureFlags w \<Longrightarrow>
     fetcherBound JSON_parse featureFlags (factory_run JSON_parse featureFlags w events)"
  by (induction events rule: rev_induct) (simp_all add: factory_run_def fetcherBound_step)

lemma fetcherBound_initial: "fetcherBound JSON_parse featureFlags (factory_initialWorld featureFlags)"
  by (simp add: fetcherBound_def factory_initialWorld_def)

lemma fetcherBound_getFeatureFlag:
  "fetcherBound JSON_parse featureFlags w \<Longrightarrow>
     getFeatureFlag w key dv =
       (case getGlobalLdClient w of
          None \<Rightarrow> Inr (coalesce dv (registryDefault featureFlags key))
        | Some c \<Rightarrow> getGetFeatureFlag JSON_parse featureFlags c key dv)"
  by (simp add: fetcherBound_def getFeatureFlag_def getGlobalLdClient_def initialGetFeatureFlag_def
      split: option.split)

text \<open>
  Claim C10. In factory.tsx, \<open>getGlobalLdClient()\<close> is \<open>undefined\<close> at first and
  \<open>getFeatureFlag\<close> then resolves to the caller's default or the registry default, from
  the registry alone; after \<open>setGlobalLdClient(c)\<close> the getter returns \<open>c\<close> and
  \<open>getFeatureFlag\<close> is the fetcher built over \<open>c\<close>; and in every state the provider and
  the hook can reach from the initial one, \<open>globalGetFeatureFlag\<close> is the fetcher of the
  client that \<open>globalLdClient\<close> holds.
\<close>

theorem global_fetcher_bound_to_held_client:
  "getGlobalLdClient (factory_initialWorld featureFlags) = None
   \<and> getFeatureFlag (factory_initialWorld featureFlags) key dv
       = Inr (coalesce dv (registryDefault featureFlags key))
   \<and> getGlobalLdClient (factory_setGlobalLdClient JSON_parse featureFlags c w) = Some c
   \<and> getFeatureFlag (factory_setGlobalLdClient JSON_parse featureFlags c w) key dv
       = getGetFeatureFlag JSON_parse featureFlags c key dv
   \<and> fetcherBound JSON_parse featureFlags
       (factory_run JSON_parse featureFlags (factory_initialWorld featureFlags) events)
   \<and> getFeatureFlag (factory_run JSON_parse featureFlags (factory_initialWorld featureFlags) events) key dv =
       (case getGlobalLdClient
               (factory_run JSON_parse featureFlags (factory_initialWorld featureFlags) events) of
          None \<Rightarrow> Inr (coalesce dv (registryDefault featureFlags key))
        | Some c' \<Rightarrow> getGetFeatureFlag JSON_parse featureFlags c' key dv)"
proof -
  have b: "fetcherBound JSON_parse featureFlags
       (factory_run JSON_parse featureFlags (factory_initialWorld featureFlags) events)"
    by (rule fetcherBound_run) (rule fetcherBound_initial)
  show ?thesis
    using b fetcherBound_getFeatureFlag [OF b, of key dv]
    by (simp add: getGlobalLdClient_def getFeatureFlag_def factory_initialWorld_def
        initialGetFeatureFlag_def factory_setGlobalLdClient_def)
qed

theorem global_fetcher_bound_to_held_client_witness:
  "getFeatureFlag (factory_initialWorld exampleFlags) ''example-number-feature-flag'' JUndefined
     = Inr (JNum 123)
   \<and> getGlobalLdClient (factory_run sampleParse exampleFlags (factory_initialWorld exampleFlags)
        [Render sampleContext sampleConfig sampleClient ''1'']) = Some sampleClient
   \<and> getFeatureFlag (factory_run sampleParse exampleFlags (factory_initialWorld exampleFlags)
        [Render sampleContext sampleConfig sampleClient ''1''])
        ''example-number-feature-flag'' JUndefined = Inr (JNum 7)"
proof -
  let ?w0 = "factory_initialWorld exampleFlags"
  let ?ev = "Render sampleContext sampleConfig sampleClient ''1''"
  have "truthy sampleContext" "truthy sampleConfig" "mounted ?w0"
    by (simp_all add: sampleContext_def sampleConfig_def factory_initialWorld_def)
  then have "factoryFields (factory_step sampleParse exampleFlags ?w0 ?ev) =
      (Some sampleClient, getGetFeatureFlag sampleParse exampleFlags sampleClient,
       Client sampleClient, sdkCalls ?w0 @ initLog sampleClient sampleContext sampleConfig)"
    by (intro factory_step_Render(1)) simp_all
  then have g: "getGlobalLdClient (factory_run sampleParse exampleFlags ?w0 [?ev]) = Some sampleClient"
    by (simp add: factory_run_def factoryFields_def getGlobalLdClient_def del: factory_step.simps)
  have v: "getGetFeatureFlag sampleParse exampleFlags sampleClient ''example-number-feature-flag'' JUndefined
      = Inr (JNum 7)"
    "registryDefault exampleFlags ''example-number-feature-flag'' = JNum 123"
    by (simp_all add: getGetFeatureFlag_def registryType_def registryDefault_def map_of_exampleFlags
        sampleClient_def coalesce_def)
  show ?thesis
    using global_fetcher_bound_to_held_client
        [where featureFlags = exampleFlags and key = "''example-number-feature-flag''"
           and dv = JUndefined and JSON_parse = sampleParse and c = sampleClient and w = ?w0
           and events = "[?ev]"]
      g v
    by (simp add: coalesce_def)
qed

section \<open>How often a client is initialised\<close>

text \<open>
  Claim C4 as stated fails for factory.tsx, whose effect has no gate: after the first
  render with context and config a client is held globally and locally, and a second
  render with a new context constructs, identifies and configures a second client.
\<close>

theorem factory_reinitialises_counterexample:
  "getGlobalLdClient (factory_run sampleParse exampleFlags (factory_initialWorld exampleFlags)
       [Render sampleContext sampleConfig sampleClient ''1'']) = Some sampleClient
   \<and> client (factory_run sampleParse exampleFlags (factory_initialWorld exampleFlags)
       [Render sampleContext sampleConfig sampleClient ''1'']) = Client sampleClient
   \<and> sdkCalls (factory_run sampleParse exampleFlags (factory_initialWorld exampleFlags)
       [Render sampleContext sampleConfig sampleClient ''1'',
        Render otherContext sampleConfig otherClient ''2''])
       = [NewClient 1, Identify 1 sampleContext, Configure 1 sampleConfig sampleContext,
          NewClient 2, Identify 2 otherContext, Configure 2 sampleConfig otherContext]"
proof -
  let ?w0 = "factory_initialWorld exampleFlags"
  let ?w1 = "factory_step sampleParse exampleFlags ?w0 (Render sampleContext sampleConfig sampleClient ''1'')"
  let ?w2 = "factory_step sampleParse exampleFlags ?w1 (Render otherContext sampleConfig otherClient ''2'')"
  have t: "truthy sampleContext" "truthy sampleConfig" "truthy otherContext"
    by (simp_all add: sampleContext_def sampleConfig_def otherContext_def)
  have m0: "mounted ?w0" by (simp add: factory_initialWorld_def)
  have f1: "factoryFields ?w1 = (Some sampleClient, getGetFeatureFlag sampleParse exampleFlags sampleClient,
      Client sampleClient, sdkCalls ?w0 @ initLog sampleClient sampleContext sampleConfig)"
    using t m0 by (intro factory_step_Render(1)) simp_all
  have m1: "mounted ?w1" using t m0 by (intro factory_step_Render(5)) simp_all
  have f2: "factoryFields ?w2 = (Some otherClient, getGetFeatureFlag sampleParse exampleFlags otherClient,
      Client otherClient, sdkCalls ?w1 @ initLog otherClient otherContext sampleConfig)"
    using t m1 by (intro factory_step_Render(1)) simp_all
  have "sdkCalls ?w0 = []" by (simp add: factory_initialWorld_def)
  with f1 f2 show ?thesis
    by (simp add: factory_run_def factoryFields_def getGlobalLdClient_def initLog_def
        sampleClient_def otherClient_def)
qed

text \<open>
  Claim C4, amended. In the variant with the \<open>'loading...'\<close> state the first effect is
  gated: while \<open>globalLdClient\<close> is set or the provider's \<open>client\<close> state is
  \<open>'loading...'\<close> or a handle, the effect does nothing; with no initialisation in flight
  no later event adds an SDK call; and over every sequence of events from the initial
  state at most one client is constructed, one \<open>identify\<close> and one \<open>configure\<close> issued.
  In factory.tsx every run of the effect with context and config present constructs,
  identifies and configures the new client and makes it the global one.
\<close>

theorem client_initialised_at_most_once:
  "((getGlobalLdClient w \<noteq> None \<or> client w \<noteq> NoClient) \<longrightarrow> initEffect x g c w = w)
   \<and> ((getGlobalLdClient w \<noteq> None \<or> client w \<noteq> NoClient) \<and> initTask w = None \<longrightarrow>
        sdkCalls (run featureFlags w events) = sdkCalls w)
   \<and> length (filter isNewClient (sdkCalls (run featureFlags initialWorld events))) \<le> 1
   \<and> length (filter isIdentify (sdkCalls (run featureFlags initialWorld events))) \<le> 1
   \<and> length (filter isConfigure (sdkCalls (run featureFlags initialWorld events))) \<le> 1
   \<and> (truthy x \<and> truthy g \<and> mounted fw \<longrightarrow>
        sdkCalls (factory_step JSON_parse featureFlags fw (Render x g c uniqueId))
          = sdkCalls fw @ initLog c x g
        \<and> getGlobalLdClient (factory_step JSON_parse featureFlags fw (Render x g c uniqueId)) = Some c)"
proof -
  have a: "(getGlobalLdClient w \<noteq> None \<or> client w \<noteq> NoClient) \<longrightarrow> initEffect x g c w = w"
    using initEffect_gated by blast
  have b: "(getGlobalLdClient w \<noteq> None \<or> client w \<noteq> NoClient) \<and> initTask w = None \<longrightarrow>
        sdkCalls (run featureFlags w events) = sdkCalls w"
  proof
    assume h: "(getGlobalLdClient w \<noteq> None \<or> client w \<noteq> NoClient) \<and> initTask w = None"
    then have "initFields (run featureFlags w events) = initFields w"
      by (intro run_after_client) (simp_all add: getGlobalLdClient_def)
    then show "sdkCalls (run featureFlags w events) = sdkCalls w"
      by (simp add: initFields_def)
  qed
  have "initOnce (run featureFlags initialWorld events)"
    by (rule initOnce_run) (rule initOnce_initialWorld)
  note c = initOnce_counts [OF this]
  have d: "truthy x \<and> truthy g \<and> mounted fw \<longrightarrow>
        sdkCalls (factory_step JSON_parse featureFlags fw (Render x g c uniqueId))
          = sdkCalls fw @ initLog c x g
        \<and> getGlobalLdClient (factory_step JSON_parse featureFlags fw (Render x g c uniqueId)) = Some c"
  proof
    assume h: "truthy x \<and> truthy g \<and> mounted fw"
    then have "factoryFields (factory_step JSON_parse featureFlags fw (Render x g c uniqueId)) =
       (Some c, getGetFeatureFlag JSON_parse featureFlags c, Client c, sdkCalls fw @ initLog c x g)"
      by (intro factory_step_Render(1)) simp_all
    then show "sdkCalls (factory_step JSON_parse featureFlags fw (Render x g c uniqueId))
          = sdkCalls fw @ initLog c x g
        \<and> getGlobalLdClient (factory_step JSON_parse featureFlags fw (Render x g c uniqueId)) = Some c"
      by (simp add: factoryFields_def getGlobalLdClient_def)
  qed
  from a b c d show ?thesis by blast
qed

theorem client_initialised_at_most_once_witness:
  "initEffect otherContext sampleConfig otherClient (setGlobalLdClient sampleClient initialWorld)
     = setGlobalLdClient sampleClient initialWorld
   \<and> sdkCalls (run exampleFlags (initialWorld\<lparr>client := Loading\<rparr>)
        [Render otherContext sampleConfig otherClient ''2'', FlagChanged 1 ''example-boolean-feature-flag''])
     = []
   \<and> sdkCalls (factory_step sampleParse exampleFlags (factory_initialWorld exampleFlags)
        (Render sampleContext sampleConfig sampleClient ''1''))
     = initLog sampleClient sampleContext sampleConfig"
  using client_initialised_at_most_once
      [where w = "setGlobalLdClient sampleClient initialWorld" and x = otherContext
         and g = sampleConfig and c = otherClient and featureFlags = exampleFlags and events = "[]"
         and fw = "factory_initialWorld exampleFlags" and JSON_parse = sampleParse
         and uniqueId = "''1''"]
    client_initialised_at_most_once
      [where w = "initialWorld\<lparr>client := Loading\<rparr>" and x = sampleContext
         and g = sampleConfig and c = sampleClient and featureFlags = exampleFlags
         and events = "[Render otherContext sampleConfig otherClient ''2'',
                        FlagChanged 1 ''example-boolean-feature-flag'']"
         and fw = "factory_initialWorld exampleFlags" and JSON_parse = sampleParse
         and uniqueId = "''1''"]
  by (simp add: setGlobalLdClient_def getGlobalLdClient_def initialWorld_def factory_initialWorld_def
      sampleContext_def sampleConfig_def)

lemma factory_unmount_flagListeners:
  fixes w :: "'a factory_world_scheme"
  shows "flagListeners (factory_unmount w) = flagListeners w"
proof -
  have "flagListeners (allFlagsCleanup w) = flagListeners w"
    by (rule allFlagsCleanup_invariant [where Q = "\<lambda>u::'a factory_world_scheme. flagListeners u = flagListeners w"])
      simp_all
  then show ?thesis by (simp add: factory_unmount_def)
qed

lemma unmount_flagListeners:
  fixes w :: "'a hatch_world_scheme"
  assumes "mounted w"
  shows "flagListeners (unmount w) = filter (\<lambda>e. e \<notin> entryOf ` set (destructors w)) (flagListeners w)"
proof -
  let ?R = "\<lambda>u::'a hatch_world_scheme. flagListeners u = flagListeners w \<and> destructors u = destructors w"
  have "?R (allFlagsCleanup w)"
    by (rule allFlagsCleanup_invariant [where Q = ?R]) simp_all
  then show ?thesis
    using assms by (simp add: unmount_def subscribeCleanup_def runDestructors_flagListeners)
qed

section \<open>Unmounting the provider\<close>

text \<open>
  Claim C5, at the input where the code departs from it: in factory.tsx the cleanup that
  unregisters the listeners is returned by the \<open>async\<close> function inside the effect, not
  by the effect, so React holds no cleanup; after the unmount the four listeners of the
  README registry are still registered with the client.
\<close>

theorem factory_unmount_leaves_listeners_registered:
  "flagListeners (factory_run sampleParse exampleFlags (factory_initialWorld exampleFlags)
       [Render sampleContext sampleConfig sampleClient ''1'', Unmount])
     = [(1, ''example-boolean-feature-flag'', 0), (1, ''example-number-feature-flag'', 1),
        (1, ''example-string-feature-flag'', 2), (1, ''example-json-feature-flag'', 3)]
   \<and> destructors (factory_run sampleParse exampleFlags (factory_initialWorld exampleFlags)
       [Render sampleContext sampleConfig sampleClient ''1'']) = []
   \<and> \<not> mounted (factory_run sampleParse exampleFlags (factory_initialWorld exampleFlags)
       [Render sampleContext sampleConfig sampleClient ''1'', Unmount])"
proof -
  let ?w0 = "factory_initialWorld exampleFlags"
  let ?w1 = "factory_step sampleParse exampleFlags ?w0 (Render sampleContext sampleConfig sampleClient ''1'')"
  have t: "truthy sampleContext" "truthy sampleConfig"
    by (simp_all add: sampleContext_def sampleConfig_def)
  have m0: "mounted ?w0" by (simp add: factory_initialWorld_def)
  have keys: "zip (Object_keys exampleFlags) [0 ..< length (Object_keys exampleFlags)] =
      [(''example-boolean-feature-flag'', 0), (''example-number-feature-flag'', 1),
       (''example-string-feature-flag'', 2), (''example-json-feature-flag'', 3)]"
    by (simp add: Object_keys_def exampleFlags_def upt_rec)
  have "flagListeners ?w1 = flagListeners ?w0
       @ map (\<lambda>(k, callback). (clientId sampleClient, k, callback))
           (zip (Object_keys exampleFlags)
              [nextListener ?w0 ..< nextListener ?w0 + length (Object_keys exampleFlags)])"
    using t m0 by (intro factory_step_Render(3)) simp_all
  moreover have "nextListener ?w0 = 0" "flagListeners ?w0 = []" "destructors ?w0 = []"
    by (simp_all add: factory_initialWorld_def)
  ultimately have l1: "flagListeners ?w1 =
      [(1, ''example-boolean-feature-flag'', 0), (1, ''example-number-feature-flag'', 1),
       (1, ''example-string-feature-flag'', 2), (1, ''example-json-feature-flag'', 3)]"
    by (simp add: keys sampleClient_def del: factory_step.simps)
  have d1: "destructors ?w1 = destructors ?w0"
    using t m0 by (intro factory_step_Render(4)) simp_all
  have m1: "mounted ?w1" using t m0 by (intro factory_step_Render(5)) simp_all
  have "\<not> mounted (factory_unmount ?w1)"
    using m1 by (simp add: factory_unmount_def)
  moreover have "destructors ?w0 = []" by (simp add: factory_initialWorld_def)
  ultimately show ?thesis
    using l1 d1
    by (simp add: factory_run_def factory_unmount_flagListeners del: factory_step.simps(1))
qed

text \<open>
  In the variant with the escape hatch the effect returns its cleanup: the unmount removes
  every listener the provider registered, a second unmount does nothing, and no event after
  the unmount changes the snapshot or its escape-hatch copy.
\<close>

lemma unmount_idempotent: "unmount (unmount w) = unmount w"
  by (simp add: unmount_def)

lemma unmount_removes_destructors:
  fixes w :: "'a hatch_world_scheme"
  assumes "mounted w" and "d \<in> set (destructors w)"
  shows "entryOf d \<notin> set (flagListeners (unmount w))"
  using assms by (simp add: unmount_flagListeners)

lemma unmounted_step_flags:
  fixes u :: "'a hatch_world_scheme"
  assumes "\<not> mounted u"
  shows "flags (step featureFlags u e) = flags u
     \<and> escapeHatchFlags (step featureFlags u e) = escapeHatchFlags u
     \<and> \<not> mounted (step featureFlags u e)"
proof -
  let ?Q = "\<lambda>v::'a hatch_world_scheme. flags v = flags u \<and> escapeHatchFlags v = escapeHatchFlags u \<and> \<not> mounted v"
  show ?thesis
  proof (cases e)
    case (Render x g c uniqueId)
    then show ?thesis using assms by simp
  next
    case IdentifySettled
    then show ?thesis using assms
      by (simp add: identifySettled_def split: option.split bool.split)
  next
    case (ConfigureSettled uniqueId)
    then show ?thesis using assms
      by (simp add: configureSettled_def clientChanged_def setGlobalLdClient_def setClient_def
          split: option.split bool.split)
  next
    case InitRejected
    then show ?thesis using assms by (simp add: initRejected_def)
  next
    case (FlagChanged cid key)
    have "?Q (notifyFlagListeners (listener featureFlags) cid key u)"
      using assms
      by (intro notifyFlagListeners_invariant [where Q = ?Q])
        (simp_all add: listener_def storeFlag_def setFlags_def split: sum.split)
    then show ?thesis unfolding FlagChanged by (simp add: escapeHatchEffect_def)
  next
    case (AllFlagsChanged cid updatedKeys)
    have "?Q (notifyAllFlagsListeners (useAllFeatureFlags_fetch featureFlags) cid updatedKeys u)"
      using assms by (intro notifyAllFlagsListeners_invariant [where Q = ?Q]) simp_all
    then show ?thesis unfolding AllFlagsChanged by simp
  next
    case Unmount
    then show ?thesis using assms by (simp add: unmount_def)
  qed
qed

section \<open>The escape hatch's copy of the snapshot\<close>

text \<open>
  While the provider is mounted, \<open>escapeHatchFlags\<close> is the provider's snapshot in every
  state reachable from the initial one: the synchronous escape hatch and \<open>useFeatureFlag\<close>
  read the same values.
\<close>

lemma inSync_escapeHatchEffect:
  "mounted (escapeHatchEffect v) \<longrightarrow> escapeHatchFlags (escapeHatchEffect v) = flags (escapeHatchEffect v)"
  by (simp add: escapeHatchEffect_def)

lemma inSync_clientChanged:
  assumes "mounted v \<longrightarrow> escapeHatchFlags v = flags v"
  shows "mounted (clientChanged featureFlags uniqueId v)
     \<longrightarrow> escapeHatchFlags (clientChanged featureFlags uniqueId v)
         = flags (clientChanged featureFlags uniqueId v)"
proof (cases "mounted v")
  case True
  then show ?thesis
    unfolding clientChanged_def by (simp only: if_True) (rule inSync_escapeHatchEffect)
next
  case False
  then show ?thesis using assms by (simp add: clientChanged_def)
qed

lemma inSync_step:
  fixes w :: "'a hatch_world_scheme"
  assumes i: "mounted w \<longrightarrow> escapeHatchFlags w = flags w"
  shows "mounted (step featureFlags w e)
     \<longrightarrow> escapeHatchFlags (step featureFlags w e) = flags (step featureFlags w e)"
proof (cases e)
  case (Render x g c uniqueId)
  have "mounted (initEffect x g c w) \<longrightarrow> escapeHatchFlags (initEffect x g c w) = flags (initEffect x g c w)"
    using i by (simp add: initEffect_def setClient_def)
  from this inSync_clientChanged [OF this, of featureFlags uniqueId] i show ?thesis
    unfolding Render by (simp add: Let_def)
next
  case IdentifySettled
  then show ?thesis using i by (simp add: identifySettled_def split: option.split bool.split)
next
  case (ConfigureSettled uniqueId)
  show ?thesis
  proof (cases "\<exists>c x g. initTask w = Some (c, x, g, True)")
    case True
    then obtain c x g where t: "initTask w = Some (c, x, g, True)" by blast
    let ?v = "setGlobalLdClient c (setClient (Client c) (w\<lparr>initTask := None\<rparr>))"
    have "mounted ?v \<longrightarrow> escapeHatchFlags ?v = flags ?v"
      using i by (simp add: setGlobalLdClient_def setClient_def)
    from inSync_clientChanged [OF this, of featureFlags uniqueId] show ?thesis
      unfolding ConfigureSettled using t by (simp add: configureSettled_def)
  next
    case False
    then have "configureSettled featureFlags uniqueId w = w"
      by (cases "initTask w") (auto simp: configureSettled_def split: bool.split)
    then show ?thesis unfolding ConfigureSettled using i by simp
  qed
next
  case InitRejected
  then show ?thesis using i by (simp add: initRejected_def)
next
  case (FlagChanged cid key)
  show ?thesis unfolding FlagChanged step.simps by (rule inSync_escapeHatchEffect)
next
  case (AllFlagsChanged cid updatedKeys)
  let ?Q = "\<lambda>u::'a hatch_world_scheme. mounted u = mounted w
      \<and> escapeHatchFlags u = escapeHatchFlags w \<and> flags u = flags w"
  have "?Q (notifyAllFlagsListeners (useAllFeatureFlags_fetch featureFlags) cid updatedKeys w)"
    by (rule notifyAllFlagsListeners_invariant [where Q = ?Q]) simp_all
  then show ?thesis unfolding AllFlagsChanged using i by simp
next
  case Unmount
  then show ?thesis using i by (simp add: unmount_def)
qed

lemma escapeHatchFlags_in_sync:
  "mounted (run featureFlags initialWorld events)
     \<longrightarrow> escapeHatchFlags (run featureFlags initialWorld events)
         = flags (run featureFlags initialWorld events)"
proof (induction events rule: rev_induct)
  case Nil
  show ?case by (simp add: run_def initialWorld_def)
next
  case (snoc e events)
  from inSync_step [OF snoc.IH, of featureFlags e] show ?case by (simp add: run_def)
qed

section \<open>The provider on becoming ready, and on flag changes\<close>

lemma configuringWorld_reached:
  "run exampleFlags initialWorld [Render sampleContext sampleConfig sampleClient ''1'', IdentifySettled]
     = configuringWorld"
  by (simp add: run_def initialWorld_def initEffect_def setClient_def getGlobalLdClient_def
      clientChanged_def allFlagsCleanup_def subscribeCleanup_def runDestructors_def
      allFlagsEffect_def subscribeEffect_def escapeHatchEffect_def identifySettled_def
      configuringWorld_def initLog_def sampleContext_def sampleConfig_def Let_def)

text \<open>
  Claim C6. When the provider becomes ready (in the variant with the escape hatch: when
  the awaited \<open>configure\<close> settles; in factory.tsx: when the effect runs with context and
  config), then for every key of the registry the value its fetch resolves to is the
  snapshot's entry for the key, and a listener is registered with the new client under the
  key. A flag-change event for a key leaves the entry of every other key as it was and,
  when a listener is registered under the key and the fetch resolves, makes the fetched
  value the entry of that key. With the entries, what \<open>flags?.[key]\<close> reads for any other
  key stays as it was; only the names every object inherits start to read as the
  inherited members when the first entry turns the snapshot from \<open>undefined\<close> into an
  object.
\<close>

theorem provider_ready_fetches_and_subscribes:
  "(initTask w = Some (c, x, g, True) \<and> mounted w \<and> k \<in> set (Object_keys featureFlags) \<longrightarrow>
      client (configureSettled featureFlags uniqueId w) = Client c
      \<and> (getFeatureFlagAsync featureFlags (configureSettled featureFlags uniqueId w) (JStr k) JUndefined
            = Inr v \<longrightarrow>
          opt_index (flags (configureSettled featureFlags uniqueId w)) k = v)
      \<and> (\<exists>callback. (clientId c, k, callback)
            \<in> set (flagListeners (configureSettled featureFlags uniqueId w))))
   \<and> (truthy x \<and> truthy g \<and> mounted fw \<and> k \<in> set (Object_keys featureFlags) \<longrightarrow>
      client (factory_step JSON_parse featureFlags fw (Render x g c uniqueId)) = Client c
      \<and> (getFeatureFlag (factory_step JSON_parse featureFlags fw (Render x g c uniqueId)) k JUndefined
            = Inr v \<longrightarrow>
          opt_index (flags (factory_step JSON_parse featureFlags fw (Render x g c uniqueId))) k = v)
      \<and> (\<exists>callback. (clientId c, k, callback)
            \<in> set (flagListeners (factory_step JSON_parse featureFlags fw (Render x g c uniqueId)))))
   \<and> (k' \<noteq> k \<longrightarrow>
      entries (flags (step featureFlags u (FlagChanged cid k))) k' = entries (flags u) k'
      \<and> entries (flags (factory_step JSON_parse featureFlags fu (FlagChanged cid k))) k'
          = entries (flags fu) k'
      \<and> (flags u \<noteq> None \<or> \<not> inherited k' \<longrightarrow>
          opt_index (flags (step featureFlags u (FlagChanged cid k))) k' = opt_index (flags u) k')
      \<and> (flags fu \<noteq> None \<or> \<not> inherited k' \<longrightarrow>
          opt_index (flags (factory_step JSON_parse featureFlags fu (FlagChanged cid k))) k'
            = opt_index (flags fu) k'))
   \<and> ((cid, k, cb) \<in> set (flagListeners u) \<and> mounted u
        \<and> getFeatureFlagAsync featureFlags u (JStr k) JUndefined = Inr v \<longrightarrow>
      opt_index (flags (step featureFlags u (FlagChanged cid k))) k = v)
   \<and> ((cid, k, cb) \<in> set (flagListeners fu) \<and> mounted fu
        \<and> getFeatureFlag fu k JUndefined = Inr v \<longrightarrow>
      opt_index (flags (factory_step JSON_parse featureFlags fu (FlagChanged cid k))) k = v)"
proof (intro conjI impI)
  assume h: "initTask w = Some (c, x, g, True) \<and> mounted w \<and> k \<in> set (Object_keys featureFlags)"
  then have t: "initTask w = Some (c, x, g, True)" and m: "mounted w"
    and k: "k \<in> set (Object_keys featureFlags)" by simp_all
  note r = configureSettled_ready [OF t m, of featureFlags uniqueId]
  show "client (configureSettled featureFlags uniqueId w) = Client c" by (rule r(1))
  show "\<exists>callback. (clientId c, k, callback)
      \<in> set (flagListeners (configureSettled featureFlags uniqueId w))"
    unfolding r(4) using k by (rule registered_key)
  assume "getFeatureFlagAsync featureFlags (configureSettled featureFlags uniqueId w) (JStr k) JUndefined
      = Inr v"
  with k show "opt_index (flags (configureSettled featureFlags uniqueId w)) k = v"
    by (subst r(3)) (rule fold_stored_lookup)
next
  assume h: "truthy x \<and> truthy g \<and> mounted fw \<and> k \<in> set (Object_keys featureFlags)"
  then have x: "truthy x" and g: "truthy g" and m: "mounted fw"
    and k: "k \<in> set (Object_keys featureFlags)" by simp_all
  note r = factory_step_Render [OF x g m, of JSON_parse featureFlags c uniqueId]
  show "client (factory_step JSON_parse featureFlags fw (Render x g c uniqueId)) = Client c"
    using r(1) by (simp add: factoryFields_def del: factory_step.simps)
  show "\<exists>callback. (clientId c, k, callback)
      \<in> set (flagListeners (factory_step JSON_parse featureFlags fw (Render x g c uniqueId)))"
    unfolding r(3) using k by (rule registered_key)
  assume "getFeatureFlag (factory_step JSON_parse featureFlags fw (Render x g c uniqueId)) k JUndefined
      = Inr v"
  then have "getGetFeatureFlag JSON_parse featureFlags c k JUndefined = Inr v"
    using r(1) by (simp add: getFeatureFlag_def factoryFields_def del: factory_step.simps)
  with k show "opt_index (flags (factory_step JSON_parse featureFlags fw (Render x g c uniqueId))) k = v"
    by (subst r(2)) (rule fold_stored_lookup)
next
  assume "k' \<noteq> k"
  then show "entries (flags (step featureFlags u (FlagChanged cid k))) k' = entries (flags u) k'"
    by (simp add: step_FlagChanged_flags entries_stored_other del: step.simps)
next
  assume "k' \<noteq> k"
  then show "entries (flags (factory_step JSON_parse featureFlags fu (FlagChanged cid k))) k'
      = entries (flags fu) k'"
    by (simp add: factory_notifyFlagListeners_flags entries_stored_other)
next
  assume "k' \<noteq> k" and "flags u \<noteq> None \<or> \<not> inherited k'"
  then show "opt_index (flags (step featureFlags u (FlagChanged cid k))) k' = opt_index (flags u) k'"
    by (simp add: step_FlagChanged_flags opt_index_stored_other del: step.simps)
next
  assume "k' \<noteq> k" and "flags fu \<noteq> None \<or> \<not> inherited k'"
  then show "opt_index (flags (factory_step JSON_parse featureFlags fu (FlagChanged cid k))) k'
      = opt_index (flags fu) k'"
    by (simp add: factory_notifyFlagListeners_flags opt_index_stored_other)
next
  assume "(cid, k, cb) \<in> set (flagListeners u) \<and> mounted u
      \<and> getFeatureFlagAsync featureFlags u (JStr k) JUndefined = Inr v"
  then show "opt_index (flags (step featureFlags u (FlagChanged cid k))) k = v"
    by (auto simp: step_FlagChanged_flags opt_index_stored_same simp del: step.simps)
next
  assume "(cid, k, cb) \<in> set (flagListeners fu) \<and> mounted fu
      \<and> getFeatureFlag fu k JUndefined = Inr v"
  then show "opt_index (flags (factory_step JSON_parse featureFlags fu (FlagChanged cid k))) k = v"
    by (auto simp: factory_notifyFlagListeners_flags opt_index_stored_same)
qed

theorem provider_ready_fetches_and_subscribes_witness:
  "client (configureSettled exampleFlags ''1'' configuringWorld) = Client sampleClient
   \<and> opt_index (flags (configureSettled exampleFlags ''1'' configuringWorld))
        ''example-number-feature-flag'' = JNum 7
   \<and> (\<exists>callback. (1, ''example-number-feature-flag'', callback)
         \<in> set (flagListeners (configureSettled exampleFlags ''1'' configuringWorld)))
   \<and> opt_index (flags (factory_step sampleParse exampleFlags (factory_initialWorld exampleFlags)
          (Render sampleContext sampleConfig sampleClient ''1''))) ''example-number-feature-flag'' = JNum 7
   \<and> opt_index (flags (step exampleFlags
          (initialWorld\<lparr>globalLdClient := Some sampleClient,
                        flags := Some [''example-boolean-feature-flag'' \<mapsto> JBool False],
                        flagListeners := [(1, ''example-number-feature-flag'', 0)]\<rparr>)
          (FlagChanged 1 ''example-number-feature-flag''))) ''example-number-feature-flag'' = JNum 7
   \<and> opt_index (flags (step exampleFlags
          (initialWorld\<lparr>globalLdClient := Some sampleClient,
                        flags := Some [''example-boolean-feature-flag'' \<mapsto> JBool False],
                        flagListeners := [(1, ''example-number-feature-flag'', 0)]\<rparr>)
          (FlagChanged 1 ''example-number-feature-flag''))) ''example-boolean-feature-flag'' = JBool False
   \<and> opt_index (flags (factory_step sampleParse exampleFlags
          (factory_step sampleParse exampleFlags (factory_initialWorld exampleFlags)
            (Render sampleContext sampleConfig sampleClient ''1''))
          (FlagChanged 1 ''example-number-feature-flag''))) ''example-number-feature-flag'' = JNum 7"
proof -
  let ?k = "''example-number-feature-flag''"
  let ?w' = "configureSettled exampleFlags ''1'' configuringWorld"
  let ?fw' = "factory_step sampleParse exampleFlags (factory_initialWorld exampleFlags)
      (Render sampleContext sampleConfig sampleClient ''1'')"
  let ?u = "initialWorld\<lparr>globalLdClient := Some sampleClient,
      flags := Some [''example-boolean-feature-flag'' \<mapsto> JBool False],
      flagListeners := [(1, ''example-number-feature-flag'', 0)]\<rparr>"
  have t: "initTask configuringWorld = Some (sampleClient, sampleContext, sampleConfig, True)"
    and m: "mounted configuringWorld"
    by (simp_all add: configuringWorld_def initialWorld_def)
  have k: "?k \<in> set (Object_keys exampleFlags)"
    by (simp add: Object_keys_def exampleFlags_def)
  have tr: "truthy sampleContext" "truthy sampleConfig"
    by (simp_all add: sampleContext_def sampleConfig_def)
  have fm: "mounted (factory_initialWorld exampleFlags)"
    by (simp add: factory_initialWorld_def)
  have g: "getGlobalLdClient ?w' = Some sampleClient"
    by (rule configureSettled_ready(2) [OF t m])
  have fetch: "getFeatureFlagAsync exampleFlags ?w' (JStr ?k) JUndefined = Inr (JNum 7)"
    by (simp add: getFeatureFlagAsync_def g map_of_exampleFlags sampleClient_def coalesce_def)
  have "factoryFields ?fw' = (Some sampleClient, getGetFeatureFlag sampleParse exampleFlags sampleClient,
      Client sampleClient,
      sdkCalls (factory_initialWorld exampleFlags) @ initLog sampleClient sampleContext sampleConfig)"
    using tr fm by (intro factory_step_Render(1)) simp_all
  then have "getFeatureFlag ?fw' ?k JUndefined
      = getGetFeatureFlag sampleParse exampleFlags sampleClient ?k JUndefined"
    by (simp add: getFeatureFlag_def factoryFields_def del: factory_step.simps)
  then have ffetch: "getFeatureFlag ?fw' ?k JUndefined = Inr (JNum 7)"
    by (simp add: getGetFeatureFlag_def registryType_def registryDefault_def map_of_exampleFlags
        sampleClient_def coalesce_def del: factory_step.simps)
  have u: "(1, ?k, 0) \<in> set (flagListeners ?u)" "mounted ?u"
    "getFeatureFlagAsync exampleFlags ?u (JStr ?k) JUndefined = Inr (JNum 7)"
    "opt_index (flags ?u) ''example-boolean-feature-flag'' = JBool False"
    "flags ?u \<noteq> None \<or> \<not> inherited ''example-boolean-feature-flag''"
    by (simp_all add: initialWorld_def getFeatureFlagAsync_def getGlobalLdClient_def
        map_of_exampleFlags sampleClient_def coalesce_def opt_index_def)
  have ne: "''example-boolean-feature-flag'' \<noteq> ?k" by simp
  have fm': "mounted ?fw'" using tr fm by (intro factory_step_Render(5)) simp_all
  note first = provider_ready_fetches_and_subscribes
      [where w = configuringWorld and c = sampleClient and x = sampleContext and g = sampleConfig
         and k = ?k and featureFlags = exampleFlags and uniqueId = "''1''" and v = "JNum 7"
         and fw = "factory_initialWorld exampleFlags" and JSON_parse = sampleParse
         and k' = "''example-boolean-feature-flag''" and u = ?u and cid = 1 and cb = 0
         and fu = "factory_initialWorld exampleFlags"]
  from first [THEN conjunct2, THEN conjunct1] tr fm k
  obtain cb where cb: "(1, ?k, cb) \<in> set (flagListeners ?fw')"
    by (auto simp: sampleClient_def simp del: factory_step.simps)
  note second = provider_ready_fetches_and_subscribes
      [where w = configuringWorld and c = sampleClient and x = sampleContext and g = sampleConfig
         and k = ?k and featureFlags = exampleFlags and uniqueId = "''1''" and v = "JNum 7"
         and fw = "factory_initialWorld exampleFlags" and JSON_parse = sampleParse
         and k' = "''example-boolean-feature-flag''" and u = ?u and cid = 1 and cb = cb
         and fu = ?fw']
  have a1: "client ?w' = Client sampleClient"
    and a2: "opt_index (flags ?w') ?k = JNum 7"
    and a3: "\<exists>callback. (1, ?k, callback) \<in> set (flagListeners ?w')"
    using first [THEN conjunct1] t m k fetch by (simp_all add: sampleClient_def)
  have a4: "opt_index (flags ?fw') ?k = JNum 7"
    using first [THEN conjunct2, THEN conjunct1] tr fm k ffetch by simp
  have a5: "opt_index (flags (step exampleFlags ?u (FlagChanged 1 ?k))) ?k = JNum 7"
    using first [THEN conjunct2, THEN conjunct2, THEN conjunct2, THEN conjunct1] u(1-3)
    by (simp del: step.simps)
  have a6: "opt_index (flags (step exampleFlags ?u (FlagChanged 1 ?k))) ''example-boolean-feature-flag''
      = JBool False"
    using first [THEN conjunct2, THEN conjunct2, THEN conjunct1] u(4,5) ne
    by (simp del: step.simps)
  have a7: "opt_index (flags (factory_step sampleParse exampleFlags ?fw' (FlagChanged 1 ?k))) ?k = JNum 7"
    using second [THEN conjunct2, THEN conjunct2, THEN conjunct2, THEN conjunct2] cb fm' ffetch
    by (simp del: factory_step.simps)
  from a1 a2 a3 a4 a5 a6 a7 show ?thesis by (simp only: simp_thms)
qed

section \<open>useAllFeatureFlags\<close>

lemma fold_storedAll_lookup:
  "fold (\<lambda>k. storedAll k (f k)) keys m k =
     (if k \<in> set keys then (case f k of Inl e \<Rightarrow> m k | Inr v \<Rightarrow> Some v) else m k)"
proof (induction keys arbitrary: m)
  case Nil
  show ?case by simp
next
  case (Cons key keys)
  show ?case
    by (simp add: Cons.IH) (auto simp: storedAll_def split: sum.split)
qed

lemma fold_storedAll_idem:
  "fold (\<lambda>k. storedAll k (f k)) keys (fold (\<lambda>k. storedAll k (f k)) keys m)
     = fold (\<lambda>k. storedAll k (f k)) keys m"
  by (rule ext) (simp add: fold_storedAll_lookup split: sum.split)

lemma allFlagsListener_eq:
  assumes stable: "\<And>u m k. fetch (u\<lparr>allFlags := m\<rparr>) k = fetch u k"
  shows "allFlagsListener fetch keys w =
     (if hookMounted w
      then w\<lparr>allFlags := fold (\<lambda>k. storedAll k (fetch w k)) keys (allFlags w)\<rparr>
      else w)"
proof (induction keys arbitrary: w)
  case Nil
  show ?case by (simp add: allFlagsListener_def)
next
  case (Cons key keys)
  have step: "allFlagsListener fetch (key # keys) w
      = allFlagsListener fetch keys (storeAllFlag key (fetch w key) w)"
    by (simp add: allFlagsListener_def)
  show ?case
  proof (cases "hookMounted w")
    case True
    then have s: "storeAllFlag key (fetch w key) w
        = w\<lparr>allFlags := storedAll key (fetch w key) (allFlags w)\<rparr>"
      by (simp add: storeAllFlag_def storedAll_def setAllFlags_def split: sum.split)
    show ?thesis
      unfolding step s Cons.IH using True by (simp add: stable)
  next
    case False
    then have s: "storeAllFlag key (fetch w key) w = w"
      by (simp add: storeAllFlag_def setAllFlags_def split: sum.split)
    show ?thesis
      unfolding step s Cons.IH using False by simp
  qed
qed

lemma allFlagsListener_idem:
  assumes stable: "\<And>u m k. fetch (u\<lparr>allFlags := m\<rparr>) k = fetch u k"
  shows "allFlagsListener fetch keys (allFlagsListener fetch keys w) = allFlagsListener fetch keys w"
  by (simp add: allFlagsListener_eq [of fetch, OF stable] stable fold_storedAll_idem)

lemma notifyAllFlagsListeners_allFlags:
  assumes stable: "\<And>u m k. fetch (u\<lparr>allFlags := m\<rparr>) k = fetch u k"
  shows "allFlags (notifyAllFlagsListeners fetch cid updatedKeys u) k =
     (if hookMounted u \<and> (\<exists>listenerId. (cid, listenerId) \<in> set (allFlagsListeners u))
         \<and> k \<in> set updatedKeys
      then (case fetch u k of Inl e \<Rightarrow> allFlags u k | Inr v \<Rightarrow> Some v)
      else allFlags u k)"
proof -
  let ?es = "filter (\<lambda>(c, listenerId). c = cid) (allFlagsListeners u)"
  have e: "(?es = []) = (\<not> (\<exists>listenerId. (cid, listenerId) \<in> set (allFlagsListeners u)))"
    by (auto simp: filter_empty_conv)
  have "notifyAllFlagsListeners fetch cid updatedKeys u
      = (if ?es = [] then u else allFlagsListener fetch updatedKeys u)"
    unfolding notifyAllFlagsListeners_def
    by (rule fold_same) (rule allFlagsListener_idem [OF stable])
  then show ?thesis
    unfolding e
    by (auto simp: allFlagsListener_eq [of fetch, OF stable] fold_storedAll_lookup)
qed

lemma useAllFeatureFlags_fetch_stable:
  "useAllFeatureFlags_fetch featureFlags (u\<lparr>allFlags := m\<rparr>) k = useAllFeatureFlags_fetch featureFlags u k"
  by (simp add: useAllFeatureFlags_fetch_def getFeatureFlagAsync_cong [of "u\<lparr>allFlags := m\<rparr>" u]
      getGlobalLdClient_def)

lemma factory_useAllFeatureFlags_fetch_stable:
  "factory_useAllFeatureFlags_fetch (u\<lparr>allFlags := m\<rparr>) k = factory_useAllFeatureFlags_fetch u k"
  by (simp add: factory_useAllFeatureFlags_fetch_def getFeatureFlag_def)

lemma allFlagsEffect_ready:
  assumes stable: "\<And>u m k. fetch (u\<lparr>allFlags := m\<rparr>) k = fetch u k"
    and tbl: "\<And>u l k. fetch (u\<lparr>allFlagsListeners := l\<rparr>) k = fetch u k"
    and c: "client w = Client c" and h: "hookMounted w"
  shows "hookCleanup (allFlagsEffect fetch keys listenerId w) = Some (c, listenerId)"
    and "allFlagsListeners (allFlagsEffect fetch keys listenerId w) =
       filter (\<lambda>e. e \<noteq> (clientId c, listenerId)) (allFlagsListeners w) @ [(clientId c, listenerId)]"
    and "allFlags (allFlagsEffect fetch keys listenerId w) =
       fold (\<lambda>k. storedAll k (fetch w k)) keys (allFlags w)"
  using c h
  by (simp_all add: allFlagsEffect_def allFlagsListener_eq [of fetch, OF stable]
      registerAllFlagsListener_def tbl)

lemma allFlagsCleanup_unregisters:
  "hookCleanup w = Some (c, listenerId) \<Longrightarrow>
     allFlagsListeners (allFlagsCleanup w)
       = filter (\<lambda>e. e \<noteq> (clientId c, listenerId)) (allFlagsListeners w)
     \<and> hookCleanup (allFlagsCleanup w) = None"
  by (simp add: allFlagsCleanup_def unregisterAllFlagsListener_def)

lemma subscribeEffect_invariant:
  fixes w :: "'a hatch_world_scheme"
  assumes f: "\<And>u fl. Q u \<Longrightarrow> Q (u\<lparr>flags := fl\<rparr>)"
    and n: "\<And>u n. Q u \<Longrightarrow> Q (u\<lparr>nextListener := n\<rparr>)"
    and r: "\<And>u l. Q u \<Longrightarrow> Q (u\<lparr>flagListeners := l\<rparr>)"
    and d: "\<And>u ds. Q u \<Longrightarrow> Q (u\<lparr>destructors := ds\<rparr>)"
  shows "Q w \<Longrightarrow> Q (subscribeEffect featureFlags w)"
proof -
  assume q: "Q w"
  show ?thesis
  proof (cases "client w")
    case (Client c)
    have "Q (fst (subscribe (listener featureFlags) c (Object_keys featureFlags) w))"
      using q
      by (intro subscribe_invariant [where Q = Q])
        (simp_all add: listener_def storeFlag_invariant f n r)
    then show ?thesis using Client by (simp add: subscribeEffect_def case_prod_beta d)
  qed (simp_all add: subscribeEffect_def d q)
qed

lemma subscribeCleanup_invariant:
  assumes r: "\<And>u l. Q u \<Longrightarrow> Q (u\<lparr>flagListeners := l\<rparr>)"
    and d: "\<And>u ds. Q u \<Longrightarrow> Q (u\<lparr>destructors := ds\<rparr>)"
  shows "Q w \<Longrightarrow> Q (subscribeCleanup w)"
  by (simp add: subscribeCleanup_def d runDestructors_invariant [where Q = Q] r)

lemma clientChanged_hook:
  fixes w :: "'a hatch_world_scheme"
  assumes c: "client w = Client c" and m: "mounted w" and h: "hookMounted w"
  shows "hookCleanup (clientChanged featureFlags uniqueId w) = Some (c, uniqueId)"
    and "allFlagsListeners (clientChanged featureFlags uniqueId w) =
       filter (\<lambda>e. e \<noteq> (clientId c, uniqueId)) (allFlagsListeners (allFlagsCleanup w))
       @ [(clientId c, uniqueId)]"
    and "allFlags (clientChanged featureFlags uniqueId w) =
       fold (\<lambda>k. storedAll k (getFeatureFlagAsync featureFlags w (JStr k) JUndefined))
         (Object_keys featureFlags) (allFlags w)"
proof -
  define wb where "wb = subscribeCleanup (allFlagsCleanup w)"
  define wc where "wc = allFlagsEffect (useAllFeatureFlags_fetch featureFlags)
      (Object_keys featureFlags) uniqueId wb"
  let ?P = "\<lambda>u::'a hatch_world_scheme. client u = client w \<and> hookMounted u = hookMounted w
      \<and> globalLdClient u = globalLdClient w \<and> allFlags u = allFlags w"
  have "?P (allFlagsCleanup w)"
    by (rule allFlagsCleanup_invariant [where Q = ?P]) simp_all
  then have pb: "?P wb"
    unfolding wb_def by (intro subscribeCleanup_invariant [where Q = ?P]) simp_all
  have lb: "allFlagsListeners wb = allFlagsListeners (allFlagsCleanup w)"
    unfolding wb_def
    by (rule subscribeCleanup_invariant
        [where Q = "\<lambda>u::'a hatch_world_scheme. allFlagsListeners u = allFlagsListeners (allFlagsCleanup w)"])
      simp_all
  have cb: "client wb = Client c" and hb: "hookMounted wb" using pb c h by simp_all
  note e = allFlagsEffect_ready [where fetch = "useAllFeatureFlags_fetch featureFlags"
      and w = wb and c = c and keys = "Object_keys featureFlags" and listenerId = uniqueId,
      OF useAllFeatureFlags_fetch_stable _ cb hb, folded wc_def]
  have tbl: "useAllFeatureFlags_fetch featureFlags (u\<lparr>allFlagsListeners := l\<rparr>) k
      = useAllFeatureFlags_fetch featureFlags u k" for u :: "'a hatch_world_scheme" and l k
    by (simp add: useAllFeatureFlags_fetch_def
        getFeatureFlagAsync_cong [of "u\<lparr>allFlagsListeners := l\<rparr>" u] getGlobalLdClient_def)
  have fetch: "useAllFeatureFlags_fetch featureFlags wb k
      = getFeatureFlagAsync featureFlags w (JStr k) JUndefined" for k
    using pb by (simp add: useAllFeatureFlags_fetch_def getFeatureFlagAsync_cong [of wb w]
        getGlobalLdClient_def)
  let ?H = "\<lambda>u::'a hatch_world_scheme. hookCleanup u = hookCleanup wc
      \<and> allFlagsListeners u = allFlagsListeners wc \<and> allFlags u = allFlags wc"
  have "?H (subscribeEffect featureFlags wc)"
    by (rule subscribeEffect_invariant [where Q = ?H]) simp_all
  then have "?H (escapeHatchEffect (subscribeEffect featureFlags wc))"
    by (simp add: escapeHatchEffect_def)
  then have all: "?H (clientChanged featureFlags uniqueId w)"
    using m by (simp add: clientChanged_def wc_def wb_def)
  show "hookCleanup (clientChanged featureFlags uniqueId w) = Some (c, uniqueId)"
    using all e(1) [OF tbl] by simp
  show "allFlagsListeners (clientChanged featureFlags uniqueId w) =
       filter (\<lambda>e. e \<noteq> (clientId c, uniqueId)) (allFlagsListeners (allFlagsCleanup w))
       @ [(clientId c, uniqueId)]"
    using all e(2) [OF tbl] lb by simp
  show "allFlags (clientChanged featureFlags uniqueId w) =
       fold (\<lambda>k. storedAll k (getFeatureFlagAsync featureFlags w (JStr k) JUndefined))
         (Object_keys featureFlags) (allFlags w)"
    using all e(3) [OF tbl] pb by (simp add: fetch)
qed

lemma configureSettled_hook:
  fixes w :: "'a hatch_world_scheme"
  assumes t: "initTask w = Some (c, x, g, True)" and m: "mounted w" and h: "hookMounted w"
  shows "hookCleanup (configureSettled featureFlags uniqueId w) = Some (c, uniqueId)"
    and "allFlagsListeners (configureSettled featureFlags uniqueId w) =
       filter (\<lambda>e. e \<noteq> (clientId c, uniqueId)) (allFlagsListeners (allFlagsCleanup w))
       @ [(clientId c, uniqueId)]"
    and "allFlags (configureSettled featureFlags uniqueId w) =
       fold (\<lambda>k. storedAll k (getFeatureFlagAsync featureFlags
                (configureSettled featureFlags uniqueId w) (JStr k) JUndefined))
         (Object_keys featureFlags) (allFlags w)"
proof -
  define w1 where "w1 = setGlobalLdClient c (setClient (Client c) (w\<lparr>initTask := None\<rparr>))"
  have cs: "configureSettled featureFlags uniqueId w = clientChanged featureFlags uniqueId w1"
    using t by (simp add: configureSettled_def w1_def)
  have w1: "client w1 = Client c" "mounted w1" "hookMounted w1" "allFlags w1 = allFlags w"
    "allFlagsCleanup w1 = setGlobalLdClient c (setClient (Client c) ((allFlagsCleanup w)\<lparr>initTask := None\<rparr>))"
    using m h
    by (simp_all add: w1_def setGlobalLdClient_def setClient_def allFlagsCleanup_def
        unregisterAllFlagsListener_def split: option.split)
  have l1: "allFlagsListeners (allFlagsCleanup w1) = allFlagsListeners (allFlagsCleanup w)"
    by (simp add: w1(5) setGlobalLdClient_def setClient_def)
  have g: "getGlobalLdClient (configureSettled featureFlags uniqueId w) = getGlobalLdClient w1"
    using configureSettled_ready(2) [OF t m, of featureFlags uniqueId]
    by (simp add: w1_def setGlobalLdClient_def getGlobalLdClient_def)
  note r = clientChanged_hook [OF w1(1) w1(2) w1(3), of featureFlags uniqueId]
  show "hookCleanup (configureSettled featureFlags uniqueId w) = Some (c, uniqueId)"
    using r(1) by (simp add: cs)
  show "allFlagsListeners (configureSettled featureFlags uniqueId w) =
       filter (\<lambda>e. e \<noteq> (clientId c, uniqueId)) (allFlagsListeners (allFlagsCleanup w))
       @ [(clientId c, uniqueId)]"
    using r(2) l1 by (simp add: cs)
  show "allFlags (configureSettled featureFlags uniqueId w) =
       fold (\<lambda>k. storedAll k (getFeatureFlagAsync featureFlags
                (configureSettled featureFlags uniqueId w) (JStr k) JUndefined))
         (Object_keys featureFlags) (allFlags w)"
    unfolding getFeatureFlagAsync_cong [OF g] using r(3) w1(4) by (simp add: cs)
qed

lemma factory_providerEffect_hook:
  fixes w :: "'a factory_world_scheme"
  shows "hookCleanup (factory_providerEffect JSON_parse featureFlags x g c w) = hookCleanup w
     \<and> allFlagsListeners (factory_providerEffect JSON_parse featureFlags x g c w) = allFlagsListeners w
     \<and> allFlags (factory_providerEffect JSON_parse featureFlags x g c w) = allFlags w
     \<and> hookMounted (factory_providerEffect JSON_parse featureFlags x g c w) = hookMounted w"
proof (cases "truthy x \<and> truthy g")
  case True
  let ?Q = "\<lambda>u::'a factory_world_scheme. hookCleanup u = hookCleanup w
      \<and> allFlagsListeners u = allFlagsListeners w \<and> allFlags u = allFlags w
      \<and> hookMounted u = hookMounted w"
  define w3 where "w3 = factory_setGlobalLdClient JSON_parse featureFlags c
      (setClient (Client c) (w\<lparr>sdkCalls := sdkCalls w @ initLog c x g\<rparr>))"
  have e: "factory_providerEffect JSON_parse featureFlags x g c w
      = fst (subscribe factory_listener c (Object_keys featureFlags) w3)"
    using True
    by (simp add: factory_providerEffect_def w3_def Let_def case_prod_beta initLog_def)
  have "?Q w3" by (simp add: w3_def factory_setGlobalLdClient_def setClient_def)
  then have "?Q (fst (subscribe factory_listener c (Object_keys featureFlags) w3))"
    by (intro subscribe_invariant [where Q = ?Q])
      (simp_all add: factory_listener_def storeFlag_def setFlags_def split: sum.split)
  then show ?thesis by (simp add: e)
next
  case False
  then show ?thesis by (auto simp: factory_providerEffect_def)
qed

lemma factory_step_Render_hook:
  fixes w :: "'a factory_world_scheme" and JSON_parse :: "jsval \<Rightarrow> error + jsval"
    and featureFlags :: named_flags and x g :: jsval and c :: ld_client and uniqueId :: string
  assumes x: "truthy x" and g: "truthy g" and m: "mounted w" and h: "hookMounted w"
    and new: "client w \<noteq> Client c"
  defines "w' \<equiv> factory_step JSON_parse featureFlags w (Render x g c uniqueId)"
  shows "hookCleanup w' = Some (c, ''herpnerp'')"
    and "allFlagsListeners w' =
       filter (\<lambda>e. e \<noteq> (clientId c, ''herpnerp'')) (allFlagsListeners (allFlagsCleanup w))
       @ [(clientId c, ''herpnerp'')]"
    and "allFlags w' =
       fold (\<lambda>k. storedAll k (getFeatureFlag w' k JUndefined)) (Object_keys featureFlags) (allFlags w)"
proof -
  define w1 where "w1 = factory_providerEffect JSON_parse featureFlags x g c w"
  note r = factory_providerEffect_ready [OF x g m, of JSON_parse featureFlags c, folded w1_def]
  note hk = factory_providerEffect_hook [of JSON_parse featureFlags x g c w, folded w1_def]
  have c1: "client w1 = Client c" and g1: "globalGetFeatureFlag w1 = getGetFeatureFlag JSON_parse featureFlags c"
    using r(1) by (simp_all add: factoryFields_def)
  have w': "w' = factory_clientChanged featureFlags w1"
    using m new c1 by (simp add: w'_def w1_def Let_def)
  have gw': "globalGetFeatureFlag w' = getGetFeatureFlag JSON_parse featureFlags c"
    using factoryFields_factory_clientChanged [of featureFlags w1] g1
    by (simp add: w' factoryFields_def)
  define wa where "wa = allFlagsCleanup w1"
  let ?P = "\<lambda>u::'a factory_world_scheme. client u = client w1 \<and> hookMounted u = hookMounted w1
      \<and> globalGetFeatureFlag u = globalGetFeatureFlag w1 \<and> allFlags u = allFlags w1"
  have pa: "?P wa"
    unfolding wa_def by (rule allFlagsCleanup_invariant [where Q = ?P]) simp_all
  have la: "allFlagsListeners wa = allFlagsListeners (allFlagsCleanup w)"
    using hk by (simp add: wa_def allFlagsCleanup_def unregisterAllFlagsListener_def split: option.split)
  have ca: "client wa = Client c" and ha: "hookMounted wa"
    using pa c1 hk h by simp_all
  have tbl: "factory_useAllFeatureFlags_fetch (u\<lparr>allFlagsListeners := l\<rparr>) k
      = factory_useAllFeatureFlags_fetch u k" for u :: "'a factory_world_scheme" and l k
    by (simp add: factory_useAllFeatureFlags_fetch_def getFeatureFlag_def)
  note e = allFlagsEffect_ready [where fetch = factory_useAllFeatureFlags_fetch
      and w = wa and c = c and keys = "Object_keys featureFlags" and listenerId = "''herpnerp''",
      OF factory_useAllFeatureFlags_fetch_stable tbl ca ha]
  have w'': "w' = allFlagsEffect factory_useAllFeatureFlags_fetch (Object_keys featureFlags) ''herpnerp'' wa"
    using r(5) by (simp add: w' factory_clientChanged_def wa_def)
  have fetch: "factory_useAllFeatureFlags_fetch wa k = getFeatureFlag w' k JUndefined" for k
    using pa g1 gw' by (simp add: factory_useAllFeatureFlags_fetch_def getFeatureFlag_def)
  show "hookCleanup w' = Some (c, ''herpnerp'')" using e(1) by (simp add: w'')
  show "allFlagsListeners w' =
       filter (\<lambda>e. e \<noteq> (clientId c, ''herpnerp'')) (allFlagsListeners (allFlagsCleanup w))
       @ [(clientId c, ''herpnerp'')]"
    using e(2) la by (simp add: w'')
  show "allFlags w' =
       fold (\<lambda>k. storedAll k (getFeatureFlag w' k JUndefined)) (Object_keys featureFlags) (allFlags w)"
    using e(3) pa hk by (simp add: w''[symmetric] fetch)
qed

lemma unmount_hook:
  fixes w :: "'a hatch_world_scheme"
  assumes "mounted w" and "hookCleanup w = Some (c, listenerId)"
  shows "allFlagsListeners (unmount w)
       = filter (\<lambda>e. e \<noteq> (clientId c, listenerId)) (allFlagsListeners w)"
proof -
  let ?Q = "\<lambda>u::'a hatch_world_scheme. allFlagsListeners u = allFlagsListeners (allFlagsCleanup w)"
  have "?Q (subscribeCleanup (allFlagsCleanup w))"
    by (rule subscribeCleanup_invariant [where Q = ?Q]) simp_all
  then show ?thesis
    using assms allFlagsCleanup_unregisters [OF assms(2)] by (simp add: unmount_def)
qed

lemma factory_unmount_hook:
  assumes "mounted w" and "hookCleanup w = Some (c, listenerId)"
  shows "allFlagsListeners (factory_unmount w)
       = filter (\<lambda>e. e \<noteq> (clientId c, listenerId)) (allFlagsListeners w)"
  using assms allFlagsCleanup_unregisters [OF assms(2)] by (simp add: factory_unmount_def)

lemma hookMounted_clientChanged:
  fixes w :: "'a hatch_world_scheme"
  shows "hookMounted (clientChanged featureFlags uniqueId w) = hookMounted w"
proof -
  let ?Q = "\<lambda>u::'a hatch_world_scheme. hookMounted u = hookMounted w"
  have "?Q (allFlagsCleanup w)"
    by (rule allFlagsCleanup_invariant [where Q = ?Q]) simp_all
  then have "?Q (subscribeCleanup (allFlagsCleanup w))"
    by (intro subscribeCleanup_invariant [where Q = ?Q]) simp_all
  then have "?Q (allFlagsEffect (useAllFeatureFlags_fetch featureFlags) (Object_keys featureFlags)
      uniqueId (subscribeCleanup (allFlagsCleanup w)))"
    by (intro allFlagsEffect_invariant [where Q = ?Q]) simp_all
  then have "?Q (subscribeEffect featureFlags
      (allFlagsEffect (useAllFeatureFlags_fetch featureFlags) (Object_keys featureFlags)
        uniqueId (subscribeCleanup (allFlagsCleanup w))))"
    by (intro subscribeEffect_invariant [where Q = ?Q]) simp_all
  then show ?thesis by (simp add: clientChanged_def escapeHatchEffect_def)
qed

lemma hookMounted_configureSettled:
  "hookMounted (configureSettled featureFlags uniqueId w) = hookMounted w"
  by (simp add: configureSettled_def hookMounted_clientChanged setGlobalLdClient_def setClient_def
      split: option.split bool.split)

lemma hookMounted_factory_step_Render:
  fixes w :: "'a factory_world_scheme"
  shows "hookMounted (factory_step JSON_parse featureFlags w (Render x g c uniqueId)) = hookMounted w"
proof -
  let ?Q = "\<lambda>u::'a factory_world_scheme. hookMounted u = hookMounted w"
  define w1 where "w1 = factory_providerEffect JSON_parse featureFlags x g c w"
  have q1: "?Q w1"
    using factory_providerEffect_hook [of JSON_parse featureFlags x g c w] by (simp add: w1_def)
  then have "?Q (allFlagsCleanup w1)"
    by (intro allFlagsCleanup_invariant [where Q = ?Q]) simp_all
  then have "?Q (allFlagsEffect factory_useAllFeatureFlags_fetch (Object_keys featureFlags)
      ''herpnerp'' (allFlagsCleanup w1))"
    by (intro allFlagsEffect_invariant [where Q = ?Q]) simp_all
  then have "?Q (factory_clientChanged featureFlags w1)"
    using q1 by (simp add: factory_clientChanged_def)
  with q1 show ?thesis
    by (simp add: Let_def w1_def [symmetric])
qed

subsection \<open>One listener, registered with the provider's client\<close>

lemma hookTracksClient_cong:
  "hookFields w' = hookFields w \<Longrightarrow> hookTracksClient w' = hookTracksClient w"
  by (simp add: hookFields_def hookTracksClient_def hookListeners_def
      cong: option.case_cong client_slot.case_cong)

lemma hookFields_allFlagsCleanup:
  assumes "allFlagsListeners w = hookListeners w"
  shows "hookFields (allFlagsCleanup w) = (mounted w, hookMounted w, client w, None, [])"
  using assms
  by (simp add: hookFields_def allFlagsCleanup_def unregisterAllFlagsListener_def hookListeners_def
      split: option.split)

lemma hookFields_allFlagsEffect:
  assumes "hookFields w = (m, h, cl, None, [])"
  shows "hookFields (allFlagsEffect fetch keys listenerId w) =
     (m, h, cl,
      (case cl of Client c \<Rightarrow> Some (c, listenerId) | _ \<Rightarrow> None),
      (case cl of Client c \<Rightarrow> [(clientId c, listenerId)] | _ \<Rightarrow> []))"
proof (cases cl)
  case (Client c)
  let ?r = "registerAllFlagsListener c listenerId w"
  have "hookFields (allFlagsListener fetch keys ?r) = hookFields ?r"
    by (rule allFlagsListener_invariant [where Q = "\<lambda>u. hookFields u = hookFields ?r"])
      (simp_all add: hookFields_def)
  then show ?thesis
    using assms Client
    by (simp add: allFlagsEffect_def hookFields_def registerAllFlagsListener_def)
qed (use assms in \<open>simp_all add: allFlagsEffect_def hookFields_def\<close>)

lemma hookTracksClient_fields:
  assumes "hookFields w =
     (True, True, cl,
      (case cl of Client c \<Rightarrow> Some (c, listenerId) | _ \<Rightarrow> None),
      (case cl of Client c \<Rightarrow> [(clientId c, listenerId)] | _ \<Rightarrow> []))"
  shows "hookTracksClient w"
  using assms
  by (cases cl) (simp_all add: hookFields_def hookTracksClient_def hookListeners_def)

lemma hookFields_subscribeCleanup:
  fixes w :: "'a hatch_world_scheme"
  shows "hookFields (subscribeCleanup w) = hookFields w"
  by (rule subscribeCleanup_invariant [where Q = "\<lambda>u. hookFields u = hookFields w"])
    (simp_all add: hookFields_def)

lemma hookFields_subscribeEffect:
  fixes w :: "'a hatch_world_scheme"
  shows "hookFields (subscribeEffect featureFlags w) = hookFields w"
  by (rule subscribeEffect_invariant [where Q = "\<lambda>u. hookFields u = hookFields w"])
    (simp_all add: hookFields_def)

lemma hookFields_escapeHatchEffect: "hookFields (escapeHatchEffect w) = hookFields w"
  by (simp add: escapeHatchEffect_def hookFields_def)

lemma hookTracksClient_clientChanged:
  fixes w :: "'a hatch_world_scheme"
  assumes l: "allFlagsListeners w = hookListeners w" and h: "hookMounted w" and m: "mounted w"
  shows "hookTracksClient (clientChanged featureFlags uniqueId w)"
    and "hookCleanup (clientChanged featureFlags uniqueId w) =
       (case client w of Client c \<Rightarrow> Some (c, uniqueId) | _ \<Rightarrow> None)"
proof -
  define wb where "wb = subscribeCleanup (allFlagsCleanup w)"
  define wc where "wc = allFlagsEffect (useAllFeatureFlags_fetch featureFlags)
      (Object_keys featureFlags) uniqueId wb"
  have "hookFields wb = (True, True, client w, None, [])"
    using hookFields_allFlagsCleanup [OF l] h m by (simp add: wb_def hookFields_subscribeCleanup)
  then have c: "hookFields wc =
     (True, True, client w,
      (case client w of Client c \<Rightarrow> Some (c, uniqueId) | _ \<Rightarrow> None),
      (case client w of Client c \<Rightarrow> [(clientId c, uniqueId)] | _ \<Rightarrow> []))"
    unfolding wc_def by (rule hookFields_allFlagsEffect)
  have e: "clientChanged featureFlags uniqueId w = escapeHatchEffect (subscribeEffect featureFlags wc)"
    using m by (simp add: clientChanged_def wc_def wb_def)
  have f: "hookFields (clientChanged featureFlags uniqueId w) = hookFields wc"
    by (simp add: e hookFields_escapeHatchEffect hookFields_subscribeEffect)
  show "hookTracksClient (clientChanged featureFlags uniqueId w)"
    using hookTracksClient_fields [OF c] hookTracksClient_cong [OF f] by simp
  show "hookCleanup (clientChanged featureFlags uniqueId w) =
       (case client w of Client c \<Rightarrow> Some (c, uniqueId) | _ \<Rightarrow> None)"
    using f c by (simp add: hookFields_def)
qed

lemma hookFields_listener: "hookFields (listener featureFlags k w) = hookFields w"
  by (simp add: listener_def storeFlag_def setFlags_def hookFields_def split: sum.split)

lemma hookTracksClient_step:
  fixes w :: "'a hatch_world_scheme"
  assumes i: "hookTracksClient w"
  shows "hookTracksClient (step featureFlags w e)"
proof (cases e)
  case (Render x g newClient uniqueId)
  define w1 where "w1 = initEffect x g newClient w"
  have f: "mounted w1 = mounted w" "hookMounted w1 = hookMounted w"
    "hookCleanup w1 = hookCleanup w" "allFlagsListeners w1 = allFlagsListeners w"
    by (simp_all add: w1_def initEffect_def setClient_def)
  show ?thesis
  proof (cases "mounted w")
    case True
    show ?thesis
    proof (cases "client w1 = client w")
      case same: True
      with f have "hookFields w1 = hookFields w" by (simp add: hookFields_def)
      from hookTracksClient_cong [OF this] i have "hookTracksClient w1" by simp
      moreover have "step featureFlags w e = w1"
        using True same by (simp add: Render w1_def Let_def)
      ultimately show ?thesis by simp
    next
      case False
      have "allFlagsListeners w1 = hookListeners w1" "hookMounted w1" "mounted w1"
        using i True f by (simp_all add: hookTracksClient_def hookListeners_def)
      then have "hookTracksClient (clientChanged featureFlags uniqueId w1)"
        by (rule hookTracksClient_clientChanged(1))
      moreover have "step featureFlags w e = clientChanged featureFlags uniqueId w1"
        using True False by (simp add: Render w1_def Let_def)
      ultimately show ?thesis by simp
    qed
  next
    case False
    then show ?thesis using i by (simp add: Render)
  qed
next
  case IdentifySettled
  have "hookFields (identifySettled w) = hookFields w"
    by (simp add: identifySettled_def hookFields_def split: option.split bool.split)
  from hookTracksClient_cong [OF this] i show ?thesis by (simp add: IdentifySettled)
next
  case (ConfigureSettled uniqueId)
  show ?thesis
  proof (cases "\<exists>c x g. initTask w = Some (c, x, g, True)")
    case True
    then obtain c x g where t: "initTask w = Some (c, x, g, True)" by blast
    define w1 where "w1 = setGlobalLdClient c (setClient (Client c) (w\<lparr>initTask := None\<rparr>))"
    have cs: "step featureFlags w e = clientChanged featureFlags uniqueId w1"
      using t by (simp add: ConfigureSettled configureSettled_def w1_def)
    show ?thesis
    proof (cases "mounted w")
      case True
      then have "allFlagsListeners w1 = hookListeners w1" "hookMounted w1" "mounted w1"
        using i
        by (simp_all add: w1_def setGlobalLdClient_def setClient_def hookTracksClient_def
            hookListeners_def)
      then show ?thesis unfolding cs by (rule hookTracksClient_clientChanged(1))
    next
      case False
      then have f1: "hookFields w1 = hookFields w" and "\<not> mounted w1"
        by (simp_all add: w1_def setGlobalLdClient_def setClient_def hookFields_def)
      then have "step featureFlags w e = w1" by (simp add: cs clientChanged_def)
      with hookTracksClient_cong [OF f1] i show ?thesis by simp
    qed
  next
    case False
    then have "configureSettled featureFlags uniqueId w = w"
      by (cases "initTask w") (auto simp: configureSettled_def split: bool.split)
    then show ?thesis using i by (simp add: ConfigureSettled)
  qed
next
  case InitRejected
  have "hookFields (initRejected w) = hookFields w"
    by (simp add: initRejected_def hookFields_def)
  from hookTracksClient_cong [OF this] i show ?thesis by (simp add: InitRejected)
next
  case (FlagChanged cid key)
  have "hookFields (notifyFlagListeners (listener featureFlags) cid key w) = hookFields w"
    by (rule notifyFlagListeners_invariant [where Q = "\<lambda>u. hookFields u = hookFields w"])
      (simp_all add: hookFields_listener)
  then have "hookFields (step featureFlags w e) = hookFields w"
    by (simp add: FlagChanged hookFields_escapeHatchEffect)
  from hookTracksClient_cong [OF this] i show ?thesis by simp
next
  case (AllFlagsChanged cid updatedKeys)
  have "hookFields (step featureFlags w e) = hookFields w"
    unfolding AllFlagsChanged step.simps
    by (rule notifyAllFlagsListeners_invariant [where Q = "\<lambda>u. hookFields u = hookFields w"])
      (simp_all add: hookFields_def)
  from hookTracksClient_cong [OF this] i show ?thesis by simp
next
  case Unmount
  show ?thesis
  proof (cases "mounted w")
    case True
    have "allFlagsListeners w = hookListeners w" using i by (simp add: hookTracksClient_def)
    from hookFields_allFlagsCleanup [OF this]
    have "hookFields (subscribeCleanup (allFlagsCleanup w)) = (mounted w, hookMounted w, client w, None, [])"
      by (simp add: hookFields_subscribeCleanup)
    then have "hookCleanup (subscribeCleanup (allFlagsCleanup w)) = None"
      and "allFlagsListeners (subscribeCleanup (allFlagsCleanup w)) = []"
      by (simp_all add: hookFields_def)
    then show ?thesis
      using True
      by (simp add: Unmount unmount_def hookTracksClient_def hookListeners_def
          split: client_slot.split)
  next
    case False
    then show ?thesis using i by (simp add: Unmount unmount_def)
  qed
qed

lemma hookTracksClient_run:
  fixes w :: "'a hatch_world_scheme"
  shows "hookTracksClient w \<Longrightarrow> hookTracksClient (run featureFlags w events)"
  by (induction events rule: rev_induct) (simp_all add: run_def hookTracksClient_step)

lemma hookTracksClient_initialWorld: "hookTracksClient initialWorld"
  by (simp add: hookTracksClient_def hookListeners_def initialWorld_def)

lemma hookTracksClient_ready:
  assumes "hookTracksClient w" and "mounted w" and "client w = Client c"
  shows "\<exists>listenerId. hookCleanup w = Some (c, listenerId)
     \<and> allFlagsListeners w = [(clientId c, listenerId)]"
  using assms
  by (cases "hookCleanup w") (auto simp: hookTracksClient_def hookListeners_def)

lemma hookTracksClient_idle:
  assumes "hookTracksClient w" and "\<not> mounted w \<or> (\<forall>c. client w \<noteq> Client c)"
  shows "allFlagsListeners w = []"
  using assms
  by (cases "hookCleanup w") (auto simp: hookTracksClient_def hookListeners_def)

lemma hookFields_factory_providerEffect:
  fixes w :: "'a factory_world_scheme"
  shows "mounted (factory_providerEffect JSON_parse featureFlags x g c w) = mounted w
     \<and> hookMounted (factory_providerEffect JSON_parse featureFlags x g c w) = hookMounted w
     \<and> hookCleanup (factory_providerEffect JSON_parse featureFlags x g c w) = hookCleanup w
     \<and> allFlagsListeners (factory_providerEffect JSON_parse featureFlags x g c w) = allFlagsListeners w"
proof (cases "truthy x \<and> truthy g")
  case True
  let ?Q = "\<lambda>u::'a factory_world_scheme. mounted u = mounted w \<and> hookMounted u = hookMounted w
      \<and> hookCleanup u = hookCleanup w \<and> allFlagsListeners u = allFlagsListeners w"
  define w3 where "w3 = factory_setGlobalLdClient JSON_parse featureFlags c
      (setClient (Client c) (w\<lparr>sdkCalls := sdkCalls w @ initLog c x g\<rparr>))"
  have e: "factory_providerEffect JSON_parse featureFlags x g c w
      = fst (subscribe factory_listener c (Object_keys featureFlags) w3)"
    using True
    by (simp add: factory_providerEffect_def w3_def Let_def case_prod_beta initLog_def)
  have "?Q w3" by (simp add: w3_def factory_setGlobalLdClient_def setClient_def)
  then have "?Q (fst (subscribe factory_listener c (Object_keys featureFlags) w3))"
    by (intro subscribe_invariant [where Q = ?Q])
      (simp_all add: factory_listener_def storeFlag_def setFlags_def split: sum.split)
  then show ?thesis by (simp add: e)
next
  case False
  then show ?thesis by (auto simp: factory_providerEffect_def)
qed

lemma hookTracksClient_factory_clientChanged:
  fixes w :: "'a factory_world_scheme"
  assumes l: "allFlagsListeners w = hookListeners w" and h: "hookMounted w" and m: "mounted w"
  shows "hookTracksClient (factory_clientChanged featureFlags w)"
    and "hookCleanup (factory_clientChanged featureFlags w) =
       (case client w of Client c \<Rightarrow> Some (c, ''herpnerp'') | _ \<Rightarrow> None)"
proof -
  define wc where "wc = factory_clientChanged featureFlags w"
  have "hookFields (allFlagsCleanup w) = (True, True, client w, None, [])"
    using hookFields_allFlagsCleanup [OF l] h m by simp
  then have "hookFields (allFlagsEffect factory_useAllFeatureFlags_fetch (Object_keys featureFlags)
      ''herpnerp'' (allFlagsCleanup w)) =
     (True, True, client w,
      (case client w of Client c \<Rightarrow> Some (c, ''herpnerp'') | _ \<Rightarrow> None),
      (case client w of Client c \<Rightarrow> [(clientId c, ''herpnerp'')] | _ \<Rightarrow> []))"
    by (rule hookFields_allFlagsEffect)
  then have c: "hookFields wc =
     (True, True, client w,
      (case client w of Client c \<Rightarrow> Some (c, ''herpnerp'') | _ \<Rightarrow> None),
      (case client w of Client c \<Rightarrow> [(clientId c, ''herpnerp'')] | _ \<Rightarrow> []))"
    using m by (simp add: wc_def factory_clientChanged_def)
  show "hookTracksClient (factory_clientChanged featureFlags w)"
    using hookTracksClient_fields [OF c] by (simp add: wc_def)
  show "hookCleanup (factory_clientChanged featureFlags w) =
       (case client w of Client c \<Rightarrow> Some (c, ''herpnerp'') | _ \<Rightarrow> None)"
    using c by (simp add: hookFields_def wc_def)
qed

lemma hookTracksClient_factory_step:
  fixes w :: "'a factory_world_scheme"
  assumes i: "hookTracksClient w" and n: "hookListenerId w \<in> {None, Some ''herpnerp''}"
  shows "hookTracksClient (factory_step JSON_parse featureFlags w e)"
    and "hookListenerId (factory_step JSON_parse featureFlags w e) \<in> {None, Some ''herpnerp''}"
proof -
  have "hookTracksClient (factory_step JSON_parse featureFlags w e)
     \<and> hookListenerId (factory_step JSON_parse featureFlags w e) \<in> {None, Some ''herpnerp''}"
  proof (cases e)
    case (Render x g c uniqueId)
    define w1 where "w1 = factory_providerEffect JSON_parse featureFlags x g c w"
    note f = hookFields_factory_providerEffect [of JSON_parse featureFlags x g c w, folded w1_def]
    show ?thesis
    proof (cases "mounted w")
      case True
      show ?thesis
      proof (cases "client w1 = client w")
        case same: True
        with f have "hookFields w1 = hookFields w" by (simp add: hookFields_def)
        from hookTracksClient_cong [OF this] i have "hookTracksClient w1" by simp
        moreover have "hookListenerId w1 = hookListenerId w" using f by (simp add: hookListenerId_def)
        moreover have "factory_step JSON_parse featureFlags w e = w1"
          using True same by (simp add: Render w1_def Let_def)
        ultimately show ?thesis using n by simp
      next
        case False
        have p: "allFlagsListeners w1 = hookListeners w1" "hookMounted w1" "mounted w1"
          using i True f by (simp_all add: hookTracksClient_def hookListeners_def)
        note r = hookTracksClient_factory_clientChanged [OF p, of featureFlags]
        have "factory_step JSON_parse featureFlags w e = factory_clientChanged featureFlags w1"
          using True False by (simp add: Render w1_def Let_def)
        then show ?thesis
          using r by (simp add: hookListenerId_def split: client_slot.split)
      qed
    next
      case False
      then show ?thesis using i n by (simp add: Render)
    qed
  next
    case IdentifySettled
    then show ?thesis using i n by simp
  next
    case (ConfigureSettled uniqueId)
    then show ?thesis using i n by simp
  next
    case InitRejected
    then show ?thesis using i n by simp
  next
    case (FlagChanged cid key)
    have "hookFields (notifyFlagListeners factory_listener cid key w) = hookFields w"
      by (rule notifyFlagListeners_invariant [where Q = "\<lambda>u. hookFields u = hookFields w"])
        (simp_all add: factory_listener_def storeFlag_def setFlags_def hookFields_def split: sum.split)
    then have f: "hookFields (factory_step JSON_parse featureFlags w e) = hookFields w"
      by (simp add: FlagChanged)
    then have "hookListenerId (factory_step JSON_parse featureFlags w e) = hookListenerId w"
      by (simp add: hookFields_def hookListenerId_def)
    with hookTracksClient_cong [OF f] i n show ?thesis by simp
  next
    case (AllFlagsChanged cid updatedKeys)
    have f: "hookFields (factory_step JSON_parse featureFlags w e) = hookFields w"
      unfolding AllFlagsChanged factory_step.simps
      by (rule notifyAllFlagsListeners_invariant [where Q = "\<lambda>u. hookFields u = hookFields w"])
        (simp_all add: hookFields_def)
    then have "hookListenerId (factory_step JSON_parse featureFlags w e) = hookListenerId w"
      by (simp add: hookFields_def hookListenerId_def)
    with hookTracksClient_cong [OF f] i n show ?thesis by simp
  next
    case Unmount
    show ?thesis
    proof (cases "mounted w")
      case True
      have "allFlagsListeners w = hookListeners w" using i by (simp add: hookTracksClient_def)
      from hookFields_allFlagsCleanup [OF this]
      have "hookCleanup (allFlagsCleanup w) = None" and "allFlagsListeners (allFlagsCleanup w) = []"
        by (simp_all add: hookFields_def)
      then show ?thesis
        using True
        by (simp add: Unmount factory_unmount_def hookTracksClient_def hookListeners_def
            hookListenerId_def split: client_slot.split)
    next
      case False
      then show ?thesis using i n by (simp add: Unmount factory_unmount_def)
    qed
  qed
  then show "hookTracksClient (factory_step JSON_parse featureFlags w e)"
    and "hookListenerId (factory_step JSON_parse featureFlags w e) \<in> {None, Some ''herpnerp''}"
    by simp_all
qed

lemma hookTracksClient_factory_run:
  fixes w :: "'a factory_world_scheme"
  assumes "hookTracksClient w" and "hookListenerId w \<in> {None, Some ''herpnerp''}"
  shows "hookTracksClient (factory_run JSON_parse featureFlags w events)
     \<and> hookListenerId (factory_run JSON_parse featureFlags w events) \<in> {None, Some ''herpnerp''}"
proof (induction events rule: rev_induct)
  case Nil
  show ?case using assms by (simp add: factory_run_def)
next
  case (snoc e events)
  then have a: "hookTracksClient (factory_run JSON_parse featureFlags w events)"
    and b: "hookListenerId (factory_run JSON_parse featureFlags w events) \<in> {None, Some ''herpnerp''}"
    by simp_all
  from hookTracksClient_factory_step [OF a b, of JSON_parse featureFlags e]
  show ?case by (simp add: factory_run_def)
qed

lemma hookTracksClient_factory_initialWorld:
  "hookTracksClient (factory_initialWorld featureFlags)"
  "hookListenerId (factory_initialWorld featureFlags) \<in> {None, Some ''herpnerp''}"
  by (simp_all add: hookTracksClient_def hookListeners_def hookListenerId_def factory_initialWorld_def)

lemma hookTracksClient_factory_ready:
  assumes "hookTracksClient w" and "hookListenerId w \<in> {None, Some ''herpnerp''}"
    and "mounted w" and "client w = Client c"
  shows "hookCleanup w = Some (c, ''herpnerp'')"
    and "allFlagsListeners w = [(clientId c, ''herpnerp'')]"
  using assms
  by (cases "hookCleanup w"; auto simp: hookTracksClient_def hookListeners_def hookListenerId_def)+

lemma hookTracksClient_factory_reached:
  "hookTracksClient (factory_run JSON_parse featureFlags (factory_initialWorld featureFlags) events)
   \<and> hookListenerId (factory_run JSON_parse featureFlags (factory_initialWorld featureFlags) events)
       \<in> {None, Some ''herpnerp''}"
  by (rule hookTracksClient_factory_run) (rule hookTracksClient_factory_initialWorld)+

subsection \<open>Registration, batches and unmounting\<close>

text \<open>
  Claim C9, amended. When the client becomes ready the hook's effect registers one
  all-flags listener with it (under \<open>Date.now().toString()\<close>, in factory.tsx under
  \<open>herpnerp\<close>): the SDK's table is what the hook's cleanup left of it, with that one entry
  added. The effect fetches every registry key once; every key whose fetch resolves gets
  the fetched value. A batch event sets each listed key whose fetch resolves to the
  fetched value and changes no other key; a listed key whose fetch rejects keeps its
  entry. The listener is unregistered when the component unmounts and, in factory.tsx,
  when a render replaces the client by one of another identity. In every state the
  provider and the hook reach from the initial one, the table holds exactly one listener,
  registered with the client the provider holds, while the provider is mounted and holds
  a client, and none otherwise.
\<close>

theorem useAllFeatureFlags_tracks_client_and_batches:
  "(initTask w = Some (c, x, g, True) \<and> mounted w \<and> hookMounted w \<longrightarrow>
      hookCleanup (configureSettled featureFlags uniqueId w) = Some (c, uniqueId)
      \<and> allFlagsListeners (configureSettled featureFlags uniqueId w) =
           filter (\<lambda>e. e \<noteq> (clientId c, uniqueId)) (allFlagsListeners (allFlagsCleanup w))
           @ [(clientId c, uniqueId)]
      \<and> (k \<in> set (Object_keys featureFlags) \<longrightarrow>
           allFlags (configureSettled featureFlags uniqueId w) k =
             (case getFeatureFlagAsync featureFlags (configureSettled featureFlags uniqueId w)
                     (JStr k) JUndefined of
                Inl e \<Rightarrow> allFlags w k
              | Inr v \<Rightarrow> Some v)))
   \<and> (truthy x \<and> truthy g \<and> mounted fw \<and> hookMounted fw \<and> client fw \<noteq> Client c \<longrightarrow>
      hookCleanup (factory_step JSON_parse featureFlags fw (Render x g c uniqueId)) = Some (c, ''herpnerp'')
      \<and> allFlagsListeners (factory_step JSON_parse featureFlags fw (Render x g c uniqueId)) =
           filter (\<lambda>e. e \<noteq> (clientId c, ''herpnerp'')) (allFlagsListeners (allFlagsCleanup fw))
           @ [(clientId c, ''herpnerp'')]
      \<and> (k \<in> set (Object_keys featureFlags) \<longrightarrow>
           allFlags (factory_step JSON_parse featureFlags fw (Render x g c uniqueId)) k =
             (case getFeatureFlag (factory_step JSON_parse featureFlags fw (Render x g c uniqueId))
                     k JUndefined of
                Inl e \<Rightarrow> allFlags fw k
              | Inr v \<Rightarrow> Some v))
      \<and> (hookCleanup fw = Some (oldClient, oldId) \<and> clientId oldClient \<noteq> clientId c \<longrightarrow>
           (clientId oldClient, oldId)
             \<notin> set (allFlagsListeners (factory_step JSON_parse featureFlags fw (Render x g c uniqueId)))))
   \<and> allFlags (step featureFlags u (AllFlagsChanged cid batch)) k =
       (if hookMounted u \<and> (\<exists>listenerId. (cid, listenerId) \<in> set (allFlagsListeners u))
           \<and> k \<in> set batch
        then (case getFeatureFlagAsync featureFlags u (JStr k) JUndefined of
                Inl e \<Rightarrow> allFlags u k
              | Inr v \<Rightarrow> Some v)
        else allFlags u k)
   \<and> allFlags (factory_step JSON_parse featureFlags fu (AllFlagsChanged cid batch)) k =
       (if hookMounted fu \<and> (\<exists>listenerId. (cid, listenerId) \<in> set (allFlagsListeners fu))
           \<and> k \<in> set batch
        then (case getFeatureFlag fu k JUndefined of
                Inl e \<Rightarrow> allFlags fu k
              | Inr v \<Rightarrow> Some v)
        else allFlags fu k)
   \<and> (mounted u \<and> hookCleanup u = Some (c, listenerId) \<longrightarrow>
        (clientId c, listenerId) \<notin> set (allFlagsListeners (step featureFlags u Unmount)))
   \<and> (mounted fu \<and> hookCleanup fu = Some (c, listenerId) \<longrightarrow>
        (clientId c, listenerId)
          \<notin> set (allFlagsListeners (factory_step JSON_parse featureFlags fu Unmount)))
   \<and> (mounted (run featureFlags initialWorld events)
        \<and> client (run featureFlags initialWorld events) = Client c \<longrightarrow>
        (\<exists>listenerId. hookCleanup (run featureFlags initialWorld events) = Some (c, listenerId)
           \<and> allFlagsListeners (run featureFlags initialWorld events) = [(clientId c, listenerId)]))
   \<and> (\<not> mounted (run featureFlags initialWorld events)
        \<or> (\<forall>c'. client (run featureFlags initialWorld events) \<noteq> Client c') \<longrightarrow>
        allFlagsListeners (run featureFlags initialWorld events) = [])
   \<and> (mounted (factory_run JSON_parse featureFlags (factory_initialWorld featureFlags) events)
        \<and> client (factory_run JSON_parse featureFlags (factory_initialWorld featureFlags) events)
            = Client c \<longrightarrow>
        hookCleanup (factory_run JSON_parse featureFlags (factory_initialWorld featureFlags) events)
          = Some (c, ''herpnerp'')
        \<and> allFlagsListeners (factory_run JSON_parse featureFlags (factory_initialWorld featureFlags) events)
          = [(clientId c, ''herpnerp'')])
   \<and> (\<not> mounted (factory_run JSON_parse featureFlags (factory_initialWorld featureFlags) events)
        \<or> (\<forall>c'. client (factory_run JSON_parse featureFlags (factory_initialWorld featureFlags) events)
              \<noteq> Client c') \<longrightarrow>
        allFlagsListeners (factory_run JSON_parse featureFlags (factory_initialWorld featureFlags) events)
          = [])"
proof (intro conjI impI)
  assume "initTask w = Some (c, x, g, True) \<and> mounted w \<and> hookMounted w"
  then have t: "initTask w = Some (c, x, g, True)" and m: "mounted w" and h: "hookMounted w"
    by simp_all
  note r = configureSettled_hook [OF t m h, of featureFlags uniqueId]
  show "hookCleanup (configureSettled featureFlags uniqueId w) = Some (c, uniqueId)" by (rule r(1))
  show "allFlagsListeners (configureSettled featureFlags uniqueId w) =
      filter (\<lambda>e. e \<noteq> (clientId c, uniqueId)) (allFlagsListeners (allFlagsCleanup w))
      @ [(clientId c, uniqueId)]"
    by (rule r(2))
  assume "k \<in> set (Object_keys featureFlags)"
  then show "allFlags (configureSettled featureFlags uniqueId w) k =
      (case getFeatureFlagAsync featureFlags (configureSettled featureFlags uniqueId w)
              (JStr k) JUndefined of
         Inl e \<Rightarrow> allFlags w k
       | Inr v \<Rightarrow> Some v)"
    by (subst r(3)) (simp add: fold_storedAll_lookup)
next
  assume a: "truthy x \<and> truthy g \<and> mounted fw \<and> hookMounted fw \<and> client fw \<noteq> Client c"
  then have x: "truthy x" and g: "truthy g" and m: "mounted fw" and h: "hookMounted fw"
    and new: "client fw \<noteq> Client c" by simp_all
  note r = factory_step_Render_hook [OF x g m h new, of JSON_parse featureFlags uniqueId]
  show "hookCleanup (factory_step JSON_parse featureFlags fw (Render x g c uniqueId))
      = Some (c, ''herpnerp'')" by (rule r(1))
  show "allFlagsListeners (factory_step JSON_parse featureFlags fw (Render x g c uniqueId)) =
      filter (\<lambda>e. e \<noteq> (clientId c, ''herpnerp'')) (allFlagsListeners (allFlagsCleanup fw))
      @ [(clientId c, ''herpnerp'')]"
    by (rule r(2))
  {
    assume "k \<in> set (Object_keys featureFlags)"
    then show "allFlags (factory_step JSON_parse featureFlags fw (Render x g c uniqueId)) k =
        (case getFeatureFlag (factory_step JSON_parse featureFlags fw (Render x g c uniqueId))
                k JUndefined of
           Inl e \<Rightarrow> allFlags fw k
         | Inr v \<Rightarrow> Some v)"
      by (subst r(3)) (simp add: fold_storedAll_lookup del: factory_step.simps)
  }
  assume old: "hookCleanup fw = Some (oldClient, oldId) \<and> clientId oldClient \<noteq> clientId c"
  then have "allFlagsListeners (allFlagsCleanup fw)
      = filter (\<lambda>e. e \<noteq> (clientId oldClient, oldId)) (allFlagsListeners fw)"
    using allFlagsCleanup_unregisters [of fw oldClient oldId] by simp
  with old show "(clientId oldClient, oldId)
      \<notin> set (allFlagsListeners (factory_step JSON_parse featureFlags fw (Render x g c uniqueId)))"
    unfolding r(2) by simp
next
  show "allFlags (step featureFlags u (AllFlagsChanged cid batch)) k =
       (if hookMounted u \<and> (\<exists>listenerId. (cid, listenerId) \<in> set (allFlagsListeners u))
           \<and> k \<in> set batch
        then (case getFeatureFlagAsync featureFlags u (JStr k) JUndefined of
                Inl e \<Rightarrow> allFlags u k
              | Inr v \<Rightarrow> Some v)
        else allFlags u k)"
    using notifyAllFlagsListeners_allFlags
      [where fetch = "useAllFeatureFlags_fetch featureFlags" and u = u and cid = cid
         and updatedKeys = batch and k = k, OF useAllFeatureFlags_fetch_stable]
    by (simp add: useAllFeatureFlags_fetch_def cong: if_cong)
next
  show "allFlags (factory_step JSON_parse featureFlags fu (AllFlagsChanged cid batch)) k =
       (if hookMounted fu \<and> (\<exists>listenerId. (cid, listenerId) \<in> set (allFlagsListeners fu))
           \<and> k \<in> set batch
        then (case getFeatureFlag fu k JUndefined of
                Inl e \<Rightarrow> allFlags fu k
              | Inr v \<Rightarrow> Some v)
        else allFlags fu k)"
    using notifyAllFlagsListeners_allFlags
      [where fetch = factory_useAllFeatureFlags_fetch and u = fu and cid = cid
         and updatedKeys = batch and k = k, OF factory_useAllFeatureFlags_fetch_stable]
    by (simp add: factory_useAllFeatureFlags_fetch_def cong: if_cong)
next
  assume "mounted u \<and> hookCleanup u = Some (c, listenerId)"
  then show "(clientId c, listenerId) \<notin> set (allFlagsListeners (step featureFlags u Unmount))"
    using unmount_hook [of u c listenerId] by simp
next
  assume "mounted fu \<and> hookCleanup fu = Some (c, listenerId)"
  then show "(clientId c, listenerId)
      \<notin> set (allFlagsListeners (factory_step JSON_parse featureFlags fu Unmount))"
    using factory_unmount_hook [of fu c listenerId] by simp
next
  assume "mounted (run featureFlags initialWorld events)
      \<and> client (run featureFlags initialWorld events) = Client c"
  then show "\<exists>listenerId. hookCleanup (run featureFlags initialWorld events) = Some (c, listenerId)
      \<and> allFlagsListeners (run featureFlags initialWorld events) = [(clientId c, listenerId)]"
    by (intro hookTracksClient_ready hookTracksClient_run hookTracksClient_initialWorld) simp_all
next
  assume "\<not> mounted (run featureFlags initialWorld events)
      \<or> (\<forall>c'. client (run featureFlags initialWorld events) \<noteq> Client c')"
  then show "allFlagsListeners (run featureFlags initialWorld events) = []"
    by (intro hookTracksClient_idle hookTracksClient_run hookTracksClient_initialWorld)
next
  let ?FR = "factory_run JSON_parse featureFlags (factory_initialWorld featureFlags) events"
  note i = hookTracksClient_factory_reached [of JSON_parse featureFlags events]
  assume a: "mounted ?FR \<and> client ?FR = Client c"
  show "hookCleanup ?FR = Some (c, ''herpnerp'')"
    using i a by (intro hookTracksClient_factory_ready(1)) simp_all
  show "allFlagsListeners ?FR = [(clientId c, ''herpnerp'')]"
    using i a by (intro hookTracksClient_factory_ready(2)) simp_all
next
  let ?FR = "factory_run JSON_parse featureFlags (factory_initialWorld featureFlags) events"
  note i = hookTracksClient_factory_reached [of JSON_parse featureFlags events]
  assume "\<not> mounted ?FR \<or> (\<forall>c'. client ?FR \<noteq> Client c')"
  then show "allFlagsListeners ?FR = []"
    using i by (intro hookTracksClient_idle) simp_all
qed

lemma mounted_clientChanged:
  fixes w :: "'a hatch_world_scheme"
  shows "mounted (clientChanged featureFlags uniqueId w) = mounted w"
proof -
  let ?Q = "\<lambda>u::'a hatch_world_scheme. mounted u = mounted w"
  have "?Q (allFlagsCleanup w)"
    by (rule allFlagsCleanup_invariant [where Q = ?Q]) simp_all
  then have "?Q (subscribeCleanup (allFlagsCleanup w))"
    by (intro subscribeCleanup_invariant [where Q = ?Q]) simp_all
  then have "?Q (allFlagsEffect (useAllFeatureFlags_fetch featureFlags) (Object_keys featureFlags)
      uniqueId (subscribeCleanup (allFlagsCleanup w)))"
    by (intro allFlagsEffect_invariant [where Q = ?Q]) simp_all
  then have "?Q (subscribeEffect featureFlags
      (allFlagsEffect (useAllFeatureFlags_fetch featureFlags) (Object_keys featureFlags)
        uniqueId (subscribeCleanup (allFlagsCleanup w))))"
    by (intro subscribeEffect_invariant [where Q = ?Q]) simp_all
  then show ?thesis by (simp add: clientChanged_def escapeHatchEffect_def)
qed

lemma mounted_configureSettled:
  "mounted (configureSettled featureFlags uniqueId w) = mounted w"
  by (simp add: configureSettled_def mounted_clientChanged setGlobalLdClient_def setClient_def
      split: option.split bool.split)

lemma configuringWorld_fields:
  "initTask configuringWorld = Some (sampleClient, sampleContext, sampleConfig, True)"
  "mounted configuringWorld" "hookMounted configuringWorld"
  "allFlags configuringWorld = Map.empty" "allFlagsListeners configuringWorld = []"
  "hookCleanup configuringWorld = None" "flags configuringWorld = None"
  by (simp_all add: configuringWorld_def initialWorld_def)

text \<open>
  Claim C9 as stated fails in the variant with the escape hatch: a batch may list a key
  that is not in the registry; \<open>getFeatureFlagAsync\<close> rejects for it, and the hook's
  snapshot gets no entry for that key.
\<close>

theorem all_flags_batch_unregistered_key_counterexample:
  "(1, ''1'') \<in> set (allFlagsListeners (configureSettled exampleFlags ''1'' configuringWorld))
   \<and> hookMounted (configureSettled exampleFlags ''1'' configuringWorld)
   \<and> getFeatureFlagAsync exampleFlags (configureSettled exampleFlags ''1'' configuringWorld)
        (JStr ''not-a-flag'') JUndefined = Inl (Thrown ''unregistered key passed to getFeatureFlag'')
   \<and> allFlags (configureSettled exampleFlags ''1'' configuringWorld) ''not-a-flag'' = None
   \<and> allFlags (step exampleFlags (configureSettled exampleFlags ''1'' configuringWorld)
        (AllFlagsChanged 1 [''not-a-flag''])) ''not-a-flag'' = None"
proof -
  let ?W = "configureSettled exampleFlags ''1'' configuringWorld"
  note r = configureSettled_hook [OF configuringWorld_fields(1-3), of exampleFlags "''1''"]
  have l: "(1, ''1'') \<in> set (allFlagsListeners ?W)"
    unfolding r(2) by (simp add: sampleClient_def)
  have h: "hookMounted ?W"
    by (simp add: hookMounted_configureSettled configuringWorld_fields)
  have f: "getFeatureFlagAsync exampleFlags ?W (JStr ''not-a-flag'') JUndefined
      = Inl (Thrown ''unregistered key passed to getFeatureFlag'')"
    by (simp add: getFeatureFlagAsync_def map_of_exampleFlags inherited_examples)
  have "''not-a-flag'' \<notin> set (Object_keys exampleFlags)"
    by (simp add: Object_keys_def exampleFlags_def)
  then have a: "allFlags ?W ''not-a-flag'' = None"
    by (subst r(3)) (simp add: fold_storedAll_lookup configuringWorld_fields)
  have "allFlags (notifyAllFlagsListeners (useAllFeatureFlags_fetch exampleFlags) 1 [''not-a-flag''] ?W)
      ''not-a-flag'' = None"
    using a f
    by (subst notifyAllFlagsListeners_allFlags [OF useAllFeatureFlags_fetch_stable])
      (simp add: useAllFeatureFlags_fetch_def)
  with l h f a show ?thesis by simp
qed

lemma allFlagsCleanup_configuringWorld: "allFlagsListeners (allFlagsCleanup configuringWorld) = []"
  by (simp add: allFlagsCleanup_def configuringWorld_fields)

theorem useAllFeatureFlags_tracks_client_and_batches_witness:
  "hookCleanup (configureSettled exampleFlags ''1'' configuringWorld) = Some (sampleClient, ''1'')
   \<and> allFlagsListeners (configureSettled exampleFlags ''1'' configuringWorld) = [(1, ''1'')]
   \<and> allFlags (configureSettled exampleFlags ''1'' configuringWorld) ''example-number-feature-flag''
        = Some (JNum 7)
   \<and> allFlags (factory_step sampleParse exampleFlags (factory_initialWorld exampleFlags)
        (Render sampleContext sampleConfig sampleClient ''1'')) ''example-number-feature-flag''
        = Some (JNum 7)
   \<and> (1, ''herpnerp'') \<notin> set (allFlagsListeners
        (factory_step sampleParse exampleFlags
          (factory_step sampleParse exampleFlags (factory_initialWorld exampleFlags)
            (Render sampleContext sampleConfig sampleClient ''1''))
          (Render otherContext sampleConfig otherClient ''2'')))
   \<and> allFlags (step exampleFlags (configureSettled exampleFlags ''1'' configuringWorld)
        (AllFlagsChanged 1 [''example-string-feature-flag''])) ''example-string-feature-flag''
        = Some (JStr ''on'')
   \<and> (1, ''1'') \<notin> set (allFlagsListeners
        (step exampleFlags (configureSettled exampleFlags ''1'' configuringWorld) Unmount))
   \<and> (1, ''herpnerp'') \<notin> set (allFlagsListeners
        (factory_step sampleParse exampleFlags
          (factory_step sampleParse exampleFlags (factory_initialWorld exampleFlags)
            (Render sampleContext sampleConfig sampleClient ''1''))
          Unmount))
   \<and> allFlags (factory_step sampleParse exampleFlags
          (factory_step sampleParse exampleFlags (factory_initialWorld exampleFlags)
            (Render sampleContext sampleConfig sampleClient ''1''))
          (AllFlagsChanged 1 [''example-number-feature-flag''])) ''example-number-feature-flag''
        = Some (JNum 7)
   \<and> allFlagsListeners (run exampleFlags initialWorld
        [Render sampleContext sampleConfig sampleClient ''1'', IdentifySettled, ConfigureSettled ''1''])
        = [(1, ''1'')]
   \<and> allFlagsListeners (run exampleFlags initialWorld
        [Render sampleContext sampleConfig sampleClient ''1'', IdentifySettled, ConfigureSettled ''1'',
         Unmount]) = []
   \<and> allFlagsListeners (factory_run sampleParse exampleFlags (factory_initialWorld exampleFlags)
        [Render sampleContext sampleConfig sampleClient ''1'',
         Render otherContext sampleConfig otherClient ''2'']) = [(2, ''herpnerp'')]
   \<and> allFlagsListeners (factory_run sampleParse exampleFlags (factory_initialWorld exampleFlags)
        [Render sampleContext sampleConfig sampleClient ''1'', Unmount]) = []"
proof -
  let ?kn = "''example-number-feature-flag''"
  let ?ks = "''example-string-feature-flag''"
  let ?W = "configureSettled exampleFlags ''1'' configuringWorld"
  let ?F0 = "factory_initialWorld exampleFlags"
  let ?R1 = "Render sampleContext sampleConfig sampleClient ''1''"
  let ?R2 = "Render otherContext sampleConfig otherClient ''2''"
  let ?F1 = "factory_step sampleParse exampleFlags ?F0 ?R1"
  let ?F2 = "factory_step sampleParse exampleFlags ?F1 ?R2"
  let ?ready = "[?R1, IdentifySettled, ConfigureSettled ''1'']"
  have tr: "truthy sampleContext" "truthy sampleConfig" "truthy otherContext"
    by (simp_all add: sampleContext_def sampleConfig_def otherContext_def)
  have keys: "?kn \<in> set (Object_keys exampleFlags)"
    by (simp add: Object_keys_def exampleFlags_def)
  have f0: "mounted ?F0" "hookMounted ?F0" "client ?F0 \<noteq> Client sampleClient"
    "hookCleanup ?F0 = None" "sdkCalls ?F0 = []"
    by (simp_all add: factory_initialWorld_def)
  \<comment> \<open>the provider with the escape hatch, once ready\<close>
  have gW: "getGlobalLdClient ?W = Some sampleClient"
    by (rule configureSettled_ready(2) [OF configuringWorld_fields(1,2)])
  have clW: "client ?W = Client sampleClient"
    by (rule configureSettled_ready(1) [OF configuringWorld_fields(1,2)])
  have fW: "getFeatureFlagAsync exampleFlags ?W (JStr ?kn) JUndefined = Inr (JNum 7)"
    "getFeatureFlagAsync exampleFlags ?W (JStr ?ks) JUndefined = Inr (JStr ''on'')"
    by (simp_all add: getFeatureFlagAsync_def gW map_of_exampleFlags sampleClient_def coalesce_def)
  have mW: "mounted ?W" "hookMounted ?W"
    by (simp_all add: mounted_configureSettled hookMounted_configureSettled configuringWorld_fields)
  have cW: "hookCleanup ?W = Some (sampleClient, ''1'')"
    by (rule configureSettled_hook(1) [OF configuringWorld_fields(1-3)])
  have lW: "(1, ''1'') \<in> set (allFlagsListeners ?W)"
    unfolding configureSettled_hook(2) [OF configuringWorld_fields(1-3)]
    by (simp add: sampleClient_def)
  have runW: "run exampleFlags initialWorld ?ready = ?W"
  proof -
    have "run exampleFlags initialWorld ?ready
        = step exampleFlags (run exampleFlags initialWorld [?R1, IdentifySettled]) (ConfigureSettled ''1'')"
      by (simp add: run_def del: step.simps)
    then show ?thesis by (simp add: configuringWorld_reached)
  qed
  have runU: "run exampleFlags initialWorld (?ready @ [Unmount]) = unmount ?W"
    using runW by (simp add: run_def del: step.simps) simp
  have mU: "\<not> mounted (unmount ?W)"
    using mW by (simp add: unmount_def)
  \<comment> \<open>the provider of factory.tsx after its first effect, and after a second one\<close>
  have ff1: "factoryFields ?F1 = (Some sampleClient, getGetFeatureFlag sampleParse exampleFlags sampleClient,
      Client sampleClient, sdkCalls ?F0 @ initLog sampleClient sampleContext sampleConfig)"
    using tr f0 by (intro factory_step_Render(1)) simp_all
  then have fF1: "getFeatureFlag ?F1 ?kn JUndefined = Inr (JNum 7)"
    by (simp add: getFeatureFlag_def factoryFields_def getGetFeatureFlag_def registryType_def
        registryDefault_def map_of_exampleFlags sampleClient_def coalesce_def
        del: factory_step.simps)
  have m1: "mounted ?F1" using tr f0 by (intro factory_step_Render(5)) simp_all
  have h1: "hookMounted ?F1" using f0 by (simp add: hookMounted_factory_step_Render del: factory_step.simps)
  have c1: "client ?F1 \<noteq> Client otherClient"
    using ff1 by (simp add: factoryFields_def otherClient_def sampleClient_def del: factory_step.simps)
  have k1: "hookCleanup ?F1 = Some (sampleClient, ''herpnerp'')"
    using tr f0 by (intro factory_step_Render_hook(1)) simp_all
  have l1: "(1, ''herpnerp'') \<in> set (allFlagsListeners ?F1)"
    unfolding factory_step_Render_hook(2) [OF tr(1,2) f0(1-3), of sampleParse exampleFlags "''1''"]
    by (simp add: sampleClient_def)
  have ids: "clientId sampleClient \<noteq> clientId otherClient" "clientId sampleClient = 1"
    "clientId otherClient = 2"
    by (simp_all add: otherClient_def sampleClient_def)
  have m2: "mounted ?F2" by (rule factory_step_Render(5) [OF tr(3) tr(2) m1])
  have "factoryFields ?F2 = (Some otherClient, getGetFeatureFlag sampleParse exampleFlags otherClient,
      Client otherClient, sdkCalls ?F1 @ initLog otherClient otherContext sampleConfig)"
    by (rule factory_step_Render(1) [OF tr(3) tr(2) m1])
  then have c2: "client ?F2 = Client otherClient"
    by (simp add: factoryFields_def del: factory_step.simps)
  have run2: "factory_run sampleParse exampleFlags ?F0 [?R1, ?R2] = ?F2"
    by (simp add: factory_run_def del: factory_step.simps)
  have runFU: "factory_run sampleParse exampleFlags ?F0 [?R1, Unmount] = factory_unmount ?F1"
    by (simp add: factory_run_def del: factory_step.simps) simp
  have mFU: "\<not> mounted (factory_unmount ?F1)"
    using m1 by (simp add: factory_unmount_def)
  note first = useAllFeatureFlags_tracks_client_and_batches
        [where w = configuringWorld and c = sampleClient and x = sampleContext and g = sampleConfig
           and featureFlags = exampleFlags and uniqueId = "''1''" and k = ?kn
           and fw = ?F0 and JSON_parse = sampleParse and oldClient = sampleClient and oldId = "''herpnerp''"
           and u = ?W and cid = 1 and batch = "[?ks]" and fu = ?F1 and listenerId = "''1''"
           and events = ?ready]
  note second = useAllFeatureFlags_tracks_client_and_batches
        [where w = configuringWorld and c = otherClient and x = otherContext and g = sampleConfig
           and featureFlags = exampleFlags and uniqueId = "''2''" and k = ?ks
           and fw = ?F1 and JSON_parse = sampleParse and oldClient = sampleClient and oldId = "''herpnerp''"
           and u = ?W and cid = 1 and batch = "[?ks]" and fu = ?F0 and listenerId = "''1''"
           and events = "[?R1, ?R2]"]
  note third = useAllFeatureFlags_tracks_client_and_batches
        [where w = configuringWorld and c = sampleClient and x = sampleContext and g = sampleConfig
           and featureFlags = exampleFlags and uniqueId = "''1''" and k = ?kn
           and fw = ?F0 and JSON_parse = sampleParse and oldClient = sampleClient and oldId = "''herpnerp''"
           and u = ?W and cid = 1 and batch = "[?kn]" and fu = ?F1 and listenerId = "''herpnerp''"
           and events = "?ready @ [Unmount]"]
  note fourth = useAllFeatureFlags_tracks_client_and_batches
        [where w = configuringWorld and c = sampleClient and x = sampleContext and g = sampleConfig
           and featureFlags = exampleFlags and uniqueId = "''1''" and k = ?kn
           and fw = ?F0 and JSON_parse = sampleParse and oldClient = sampleClient and oldId = "''herpnerp''"
           and u = ?W and cid = 1 and batch = "[?kn]" and fu = ?F1 and listenerId = "''herpnerp''"
           and events = "[?R1, Unmount]"]
  have a1: "hookCleanup ?W = Some (sampleClient, ''1'')"
    and a2: "allFlagsListeners ?W = [(1, ''1'')]"
    and a3: "allFlags ?W ?kn = Some (JNum 7)"
    using first [THEN conjunct1] configuringWorld_fields(1-3) keys fW(1)
    by (simp_all add: allFlagsCleanup_configuringWorld ids)
  have a4: "allFlags ?F1 ?kn = Some (JNum 7)"
    using first [THEN conjunct2, THEN conjunct1] tr f0 keys fF1
    by (simp del: factory_step.simps)
  have p5: "truthy otherContext \<and> truthy sampleConfig \<and> mounted ?F1 \<and> hookMounted ?F1
      \<and> client ?F1 \<noteq> Client otherClient"
    using tr m1 h1 c1 by (simp del: factory_step.simps)
  have q5: "hookCleanup ?F1 = Some (sampleClient, ''herpnerp'')
      \<and> clientId sampleClient \<noteq> clientId otherClient"
    using k1 ids by (simp del: factory_step.simps)
  have a5: "(1, ''herpnerp'') \<notin> set (allFlagsListeners ?F2)"
    using second [THEN conjunct2, THEN conjunct1, THEN mp, OF p5, THEN conjunct2, THEN conjunct2,
        THEN conjunct2, THEN mp, OF q5]
    by (simp only: ids simp_thms)
  have a6: "allFlags (step exampleFlags ?W (AllFlagsChanged 1 [?ks])) ?ks = Some (JStr ''on'')"
    using second [THEN conjunct2, THEN conjunct2, THEN conjunct1] mW lW fW(2)
    by (simp del: step.simps) blast
  have a7: "(1, ''1'') \<notin> set (allFlagsListeners (step exampleFlags ?W Unmount))"
    using first [THEN conjunct2, THEN conjunct2, THEN conjunct2, THEN conjunct2, THEN conjunct1]
      mW cW ids
    by (simp del: step.simps)
  have a8: "(1, ''herpnerp'') \<notin> set (allFlagsListeners (factory_step sampleParse exampleFlags ?F1 Unmount))"
    using third [THEN conjunct2, THEN conjunct2, THEN conjunct2, THEN conjunct2, THEN conjunct2,
        THEN conjunct1] m1 k1 ids
    by (simp del: factory_step.simps)
  have a9: "allFlags (factory_step sampleParse exampleFlags ?F1 (AllFlagsChanged 1 [?kn])) ?kn
      = Some (JNum 7)"
    using third [THEN conjunct2, THEN conjunct2, THEN conjunct2, THEN conjunct1] h1 l1 fF1
    by (simp del: factory_step.simps) blast
  have a10: "allFlagsListeners (run exampleFlags initialWorld ?ready) = [(1, ''1'')]"
    using first [THEN conjunct2, THEN conjunct2, THEN conjunct2, THEN conjunct2, THEN conjunct2,
        THEN conjunct2, THEN conjunct1] mW clW cW ids
    unfolding runW by simp
  have a11: "allFlagsListeners (run exampleFlags initialWorld (?ready @ [Unmount])) = []"
    using third [THEN conjunct2, THEN conjunct2, THEN conjunct2, THEN conjunct2, THEN conjunct2,
        THEN conjunct2, THEN conjunct2, THEN conjunct1] mU
    unfolding runU by simp
  have a12: "allFlagsListeners (factory_run sampleParse exampleFlags ?F0 [?R1, ?R2]) = [(2, ''herpnerp'')]"
    using second [THEN conjunct2, THEN conjunct2, THEN conjunct2, THEN conjunct2, THEN conjunct2,
        THEN conjunct2, THEN conjunct2, THEN conjunct2, THEN conjunct1] m2 c2 ids
    unfolding run2 by simp
  have a13: "allFlagsListeners (factory_run sampleParse exampleFlags ?F0 [?R1, Unmount]) = []"
    using fourth [THEN conjunct2, THEN conjunct2, THEN conjunct2, THEN conjunct2, THEN conjunct2,
        THEN conjunct2, THEN conjunct2, THEN conjunct2, THEN conjunct2] mFU
    unfolding runFU by simp
  from a1 a2 a3 a4 a5 a6 a7 a8 a9 a10 a11 a12 a13 show ?thesis
    by (simp only: append.simps simp_thms)
qed

end
